(* ===== verification/Prelude.thy ===== *)
theory Prelude
  imports Main "HOL-Library.Finite_Map" "HOL-Library.Char_ord" "HOL-Library.List_Lexorder"
begin

text \<open>
  Shared vocabulary of the desktop-agent development: the named collections the component
  theories fill, the time and coordinate types of the model, and generic lemmas on lists
  and options that several components use (span removal on strings, filtering maps,
  prefix arithmetic).
\<close>

named_theorems py_simps "evaluation rules of the Python built-ins model"
named_theorems scan_simps "one-character steps of the JSON scanner"
named_theorems exec_simps "per-command equations of the command executor"
named_theorems grid_simps "arithmetic facts of the grid partition"

type_synonym timestamp = rat
  \<comment> \<open>\<open>time.time()\<close>: seconds as a float, read here as an exact rational\<close>
type_synonym point = "int \<times> int"
  \<comment> \<open>a pixel position \<open>(x, y)\<close> as pyautogui reports it\<close>

subsection \<open>Lists\<close>

lemma map_filter_append [simp]:
  "List.map_filter f (xs @ ys) = List.map_filter f xs @ List.map_filter f ys"
  by (induction xs) (auto simp: List.map_filter_simps split: option.splits)

lemma map_filter_Cons_None [simp]:
  "f x = None \<Longrightarrow> List.map_filter f (x # xs) = List.map_filter f xs"
  by (simp add: List.map_filter_simps)

lemma map_filter_Cons_Some [simp]:
  "f x = Some y \<Longrightarrow> List.map_filter f (x # xs) = y # List.map_filter f xs"
  by (simp add: List.map_filter_simps)

lemma take_drop_cut [simp]:
  "take (length a) (a @ b @ c) @ drop (length a + length b) (a @ b @ c) = a @ c"
  by simp

lemma take_append_le:
  "n \<le> length a \<Longrightarrow> take n (a @ b) = take n a"
  by simp

lemma drop_append_le:
  "n \<le> length a \<Longrightarrow> drop n (a @ b) = drop n a @ b"
  by simp

lemma find_append_split [simp]:
  "find P (xs @ ys) = (case find P xs of None \<Rightarrow> find P ys | Some x \<Rightarrow> Some x)"
  by (induction xs) auto

lemma find_map_comp [simp]: "find P (map f xs) = map_option f (find (P \<circ> f) xs)"
  by (induction xs) auto

end
