(* ===== verification/Python.thy ===== *)
theory Python
  imports Prelude
begin

text \<open>
  The Python built-ins the agent's code relies on: the values \<open>json.loads\<close> produces
  (\<open>pyval\<close>, with dictionaries as finite maps so that HOL equality is Python's
  order-insensitive dictionary equality), the exceptions that reach the code's handlers
  (\<open>exn\<close>), subscription \<open>d[k]\<close> and \<open>d.get(k, default)\<close>, number coercion for
  \<open>min\<close>/\<open>max\<close>/\<open>time.sleep\<close>, and the string methods \<open>str.replace\<close> and
  \<open>str.strip\<close>.
\<close>

datatype pyval =
    PNone
  | PBool bool
  | PInt int
  | PFloat rat
  | PStr string
  | PList "pyval list"
  | PDict "(string, pyval) fmap"

datatype exn =
    KeyError string       \<comment> \<open>\<open>d[k]\<close> on a dict without key \<open>k\<close>\<close>
  | TypeError             \<comment> \<open>subscription or arithmetic on a value of the wrong type\<close>
  | AttributeError        \<comment> \<open>\<open>.get\<close> on a value that is not a dict\<close>
  | ValueError            \<comment> \<open>\<open>time.sleep\<close> of a negative duration\<close>
  | OSError string        \<comment> \<open>raised by an input-injection or capture primitive\<close>
  | ZeroDivisionError     \<comment> \<open>\<open>/\<close> or \<open>//\<close> by zero\<close>
  | ImportError           \<comment> \<open>a module the code needs is missing\<close>
  | TclError              \<comment> \<open>a Tk call on a destroyed window\<close>

text \<open>\<open>v[k]\<close> for a string key: a dict looks the key up, every other value raises.\<close>

fun py_getitem :: "pyval \<Rightarrow> string \<Rightarrow> exn + pyval" where
  "py_getitem (PDict d) k = (case fmlookup d k of None \<Rightarrow> Inl (KeyError k) | Some v \<Rightarrow> Inr v)"
| "py_getitem _ k = Inl TypeError"

text \<open>\<open>v.get(k, default)\<close>.\<close>

fun py_get :: "pyval \<Rightarrow> string \<Rightarrow> pyval \<Rightarrow> exn + pyval" where
  "py_get (PDict d) k dflt = Inr (case fmlookup d k of None \<Rightarrow> dflt | Some v \<Rightarrow> v)"
| "py_get _ k dflt = Inl AttributeError"

text \<open>A value used as a number by \<open>min\<close>, \<open>max\<close>, \<open>+\<close> (\<open>bool\<close> is a subclass of \<open>int\<close>).\<close>

fun py_num :: "pyval \<Rightarrow> exn + rat" where
  "py_num (PInt i) = Inr (of_int i)"
| "py_num (PFloat r) = Inr r"
| "py_num (PBool b) = Inr (if b then 1 else 0)"
| "py_num _ = Inl TypeError"

text \<open>The duration \<open>time.sleep(v)\<close> accepts: a number that is not negative.\<close>

definition py_sleep_arg :: "pyval \<Rightarrow> exn + rat" where
  "py_sleep_arg v = (case py_num v of Inl e \<Rightarrow> Inl e | Inr r \<Rightarrow> if r < 0 then Inl ValueError else Inr r)"

text \<open>
  Iterating a value (\<open>f( *keys)\<close>): lists give their items, strings their characters,
  dicts their keys. A finite map keeps no insertion order, so the keys of a dict come in
  sorted order here, where CPython gives insertion order.
\<close>

fun py_iter :: "pyval \<Rightarrow> exn + pyval list" where
  "py_iter (PList xs) = Inr xs"
| "py_iter (PStr s) = Inr (map (\<lambda>c. PStr [c]) s)"
| "py_iter (PDict d) = Inr (map PStr (sorted_list_of_fset (fmdom d)))"
| "py_iter _ = Inl TypeError"

subsection \<open>Strings\<close>

text \<open>
  \<open>str.replace(old, new)\<close>: every non-overlapping occurrence of \<open>old\<close>, left to right.
  An empty \<open>old\<close> inserts \<open>new\<close> around every character, as CPython does.
\<close>

function py_replace :: "string \<Rightarrow> string \<Rightarrow> string \<Rightarrow> string" where
  "py_replace old new s =
     (if old = [] then new @ concat (map (\<lambda>c. c # new) s)
      else case s of
        [] \<Rightarrow> []
      | c # cs \<Rightarrow>
          (if take (length old) s = old then new @ py_replace old new (drop (length old) s)
           else c # py_replace old new cs))"
  by pat_completeness auto
termination
  by (relation "measure (\<lambda>(old, new, s). length s)") auto

text \<open>
  The whitespace \<open>str.strip()\<close> removes and \<open>\s\<close> matches, within the characters the model
  has: a \<open>char\<close> is a code point below 256, where these are the ASCII ones, U+0085 and U+00A0.
\<close>

definition py_isspace :: "char \<Rightarrow> bool" where
  "py_isspace c \<longleftrightarrow> of_char c \<in> {9, 10, 11, 12, 13, 28, 29, 30, 31, 32, 133, 160 :: nat}"

definition py_strip :: "string \<Rightarrow> string" where
  "py_strip s = rev (dropWhile py_isspace (rev (dropWhile py_isspace s)))"

subsection \<open>Evaluation rules\<close>

declare py_replace.simps [simp del]

lemma py_replace_Nil [simp, py_simps]: "old \<noteq> [] \<Longrightarrow> py_replace old new [] = []"
  by (simp add: py_replace.simps)

lemma py_replace_Cons [py_simps]:
  "old \<noteq> [] \<Longrightarrow> py_replace old new (c # cs) =
     (if take (length old) (c # cs) = old then new @ py_replace old new (drop (length old) (c # cs))
      else c # py_replace old new cs)"
  by (subst py_replace.simps) simp

end
