(* ===== verification/JsonExtract.thy ===== *)
theory JsonExtract
  imports Python
begin

text \<open>
  The JSON command extractor, \<open>extract_json\<close> of src/services/execute_funcs.py. The
  scanner's local variables are the record \<open>scan_state\<close>; one loop iteration is
  \<open>scan_char\<close>, split into the three \<open>if\<close> blocks of the loop body; the loop is
  \<open>scan\<close>; the removal loop is \<open>remove_spans\<close>. \<open>json.loads\<close> is a parameter
  \<open>loads\<close> of type \<open>string \<Rightarrow> 'j option\<close> (\<open>None\<close> is \<open>JSONDecodeError\<close>), so every
  lemma holds for any decoder.

  The lemmas show: how a segment of prose, a balanced object or an unterminated object is
  scanned; that span removal keeps exactly the text between the extracted objects; the
  main theorem that prose interleaved with balanced objects yields the decoded objects in
  order and the prose (with undecodable objects left in place); and that a stray closing
  brace before the objects makes the scanner's counter negative, after which no object is
  ever extracted.
\<close>

record 'j scan_state =
  json_objects :: "'j list"
  json_str :: string
  in_json :: bool
  brace_count :: int
  json_positions :: "(nat \<times> nat) list"
  start_pos :: nat

definition scan_init :: "'j scan_state" where
  "scan_init = \<lparr>json_objects = [], json_str = [], in_json = False, brace_count = 0,
                json_positions = [], start_pos = 0\<rparr>"

text \<open>The first block of the loop body: an opening brace.\<close>

definition scan_open :: "nat \<Rightarrow> char \<Rightarrow> 'j scan_state \<Rightarrow> 'j scan_state" where
  "scan_open i c st =
     (if c = CHR ''{'' then
        (let st' = (if \<not> in_json st then st\<lparr>start_pos := i, in_json := True\<rparr> else st)
         in st'\<lparr>brace_count := brace_count st' + 1\<rparr>)
      else st)"

text \<open>The second block: inside an object every character is collected.\<close>

definition scan_collect :: "char \<Rightarrow> 'j scan_state \<Rightarrow> 'j scan_state" where
  "scan_collect c st = (if in_json st then st\<lparr>json_str := json_str st @ [c]\<rparr> else st)"

text \<open>
  The third block: a closing brace decrements the counter (also outside an object, where
  the counter then goes negative); at zero inside an object the collected text is decoded,
  kept with its span if it decodes, and the object is closed either way.
\<close>

definition scan_close :: "(string \<Rightarrow> 'j option) \<Rightarrow> nat \<Rightarrow> char \<Rightarrow> 'j scan_state \<Rightarrow> 'j scan_state" where
  "scan_close loads i c st =
     (if c = CHR ''}'' then
        (let st' = st\<lparr>brace_count := brace_count st - 1\<rparr>
         in if brace_count st' = 0 \<and> in_json st' then
              (case loads (json_str st') of
                 None \<Rightarrow> st'
               | Some j \<Rightarrow> st'\<lparr>json_objects := json_objects st' @ [j],
                              json_positions := json_positions st' @ [(start_pos st', Suc i)]\<rparr>)
              \<lparr>in_json := False, json_str := []\<rparr>
            else st')
      else st)"

definition scan_char :: "(string \<Rightarrow> 'j option) \<Rightarrow> nat \<Rightarrow> char \<Rightarrow> 'j scan_state \<Rightarrow> 'j scan_state" where
  "scan_char loads i c st = scan_close loads i c (scan_collect c (scan_open i c st))"

text \<open>\<open>for index, char in enumerate(text)\<close>.\<close>

fun scan :: "(string \<Rightarrow> 'j option) \<Rightarrow> nat \<Rightarrow> string \<Rightarrow> 'j scan_state \<Rightarrow> 'j scan_state" where
  "scan loads i [] st = st"
| "scan loads i (c # cs) st = scan loads (Suc i) cs (scan_char loads i c st)"

text \<open>\<open>for start, end in reversed(json_positions): text = text[:start] + text[end:]\<close>.\<close>

definition remove_spans :: "(nat \<times> nat) list \<Rightarrow> string \<Rightarrow> string" where
  "remove_spans ps t = fold (\<lambda>(s, e) t. take s t @ drop e t) (rev ps) t"

text \<open>\<open>text.replace('\\_', '_')\<close>: a backslash before an underscore is dropped.\<close>

definition unescape :: "string \<Rightarrow> string" where
  "unescape t = py_replace [CHR 0x5C, CHR ''_''] ''_'' t"

definition extract_json :: "(string \<Rightarrow> 'j option) \<Rightarrow> string \<Rightarrow> 'j list \<times> string" where
  "extract_json loads text =
     (let t = unescape text;
          st = scan loads 0 t scan_init
      in (json_objects st, py_strip (remove_spans (json_positions st) t)))"

subsection \<open>Shapes of input\<close>

text \<open>
  Vocabulary for stating what the extractor does: prose without braces, a balanced object
  (an opening brace whose depth first returns to zero at its last character), a text made
  of prose and objects, and what is left of it when the decodable objects are cut out.
\<close>

definition brace_free :: "string \<Rightarrow> bool" where
  "brace_free s \<longleftrightarrow> CHR ''{'' \<notin> set s \<and> CHR ''}'' \<notin> set s"

definition brace_delta :: "char \<Rightarrow> int" where
  "brace_delta c = (if c = CHR ''{'' then 1 else if c = CHR ''}'' then -1 else 0)"

fun closes :: "int \<Rightarrow> string \<Rightarrow> bool" where
  "closes d [] = False"
| "closes d (c # cs) =
     (if d + brace_delta c = 0 then cs = [] else 0 < d + brace_delta c \<and> closes (d + brace_delta c) cs)"

definition json_object_text :: "string \<Rightarrow> bool" where
  "json_object_text ob \<longleftrightarrow> (case ob of [] \<Rightarrow> False | c # cs \<Rightarrow> c = CHR ''{'' \<and> closes 1 cs)"

definition seg_text :: "(string \<times> string) list \<Rightarrow> string" where
  "seg_text segs = concat (map (\<lambda>(p, ob). p @ ob) segs)"

definition seg_kept :: "(string \<Rightarrow> 'j option) \<Rightarrow> (string \<times> string) list \<Rightarrow> string" where
  "seg_kept loads segs = concat (map (\<lambda>(p, ob). p @ (if loads ob = None then ob else [])) segs)"

definition well_segmented :: "(string \<times> string) list \<Rightarrow> bool" where
  "well_segmented segs \<longleftrightarrow> (\<forall>(p, ob) \<in> set segs. brace_free p \<and> json_object_text ob)"

text \<open>
  After a stray closing brace the counter sits at \<open>-1\<close>; \<open>stray_alternating d s\<close> says
  that the braces of \<open>s\<close> alternate opening and closing from counter \<open>d\<close>, as they do
  for prose and flat objects.
\<close>

fun stray_alternating :: "int \<Rightarrow> string \<Rightarrow> bool" where
  "stray_alternating d [] = True"
| "stray_alternating d (c # cs) =
     (if c = CHR ''{'' then d = -1 \<and> stray_alternating 0 cs
      else if c = CHR ''}'' then d = 0 \<and> stray_alternating (-1) cs
      else stray_alternating d cs)"

text \<open>
  Proof vocabulary: the scanner between objects, the state an object leaves behind, the
  spans the scanner records for a segmented text, and spans ordered right to left.
\<close>

definition scan_idle :: "'j scan_state \<Rightarrow> bool" where
  "scan_idle st \<longleftrightarrow> \<not> in_json st \<and> brace_count st = 0 \<and> json_str st = []"

definition scan_finish :: "(string \<Rightarrow> 'j option) \<Rightarrow> 'j scan_state \<Rightarrow> string \<Rightarrow> nat \<Rightarrow> 'j scan_state" where
  "scan_finish loads st s e =
     (case loads s of
        None \<Rightarrow> st
      | Some j \<Rightarrow> st\<lparr>json_objects := json_objects st @ [j],
                     json_positions := json_positions st @ [(start_pos st, e)]\<rparr>)
     \<lparr>in_json := False, json_str := [], brace_count := 0\<rparr>"

fun seg_spans :: "(string \<Rightarrow> 'j option) \<Rightarrow> nat \<Rightarrow> (string \<times> string) list \<Rightarrow> (nat \<times> nat) list" where
  "seg_spans loads i [] = []"
| "seg_spans loads i ((p, ob) # segs) =
     (if loads ob = None then [] else [(i + length p, i + length p + length ob)]) @
     seg_spans loads (i + length p + length ob) segs"

fun spans_desc :: "nat \<Rightarrow> (nat \<times> nat) list \<Rightarrow> bool" where
  "spans_desc n [] = True"
| "spans_desc n ((s, e) # ps) = (s \<le> e \<and> e \<le> n \<and> spans_desc s ps)"

subsection \<open>The scanner\<close>

lemma scan_append:
  "scan loads i (a @ b) st = scan loads (i + length a) b (scan loads i a st)"
  by (induction a arbitrary: i st) auto

lemma scan_char_plain:
  "c \<noteq> CHR ''{'' \<Longrightarrow> c \<noteq> CHR ''}'' \<Longrightarrow> scan_char loads i c st = scan_collect c st"
  by (simp add: scan_char_def scan_open_def scan_close_def scan_collect_def)

lemma scan_prose:
  "brace_free p \<Longrightarrow> \<not> in_json st \<Longrightarrow> scan loads i p st = st"
  by (induction p arbitrary: i) (auto simp: brace_free_def scan_char_plain scan_collect_def)

lemma scan_finish_update:
  "scan_finish loads (st\<lparr>json_str := x, brace_count := y\<rparr>) s e = scan_finish loads st s e"
  by (simp add: scan_finish_def split: option.splits)

lemma scan_inside:
  "in_json st \<Longrightarrow> brace_count st = d \<Longrightarrow> 0 < d \<Longrightarrow> closes d cs \<Longrightarrow>
   scan loads i cs st = scan_finish loads st (json_str st @ cs) (i + length cs)"
proof (induction cs arbitrary: st d i)
  case Nil
  then show ?case by simp
next
  case (Cons c cs)
  show ?case
  proof (cases "d + brace_delta c = 0")
    case True
    with Cons.prems have "c = CHR ''}''" "cs = []" "d = 1"
      by (auto simp: brace_delta_def split: if_splits)
    with Cons.prems show ?thesis
      by (simp add: scan_char_def scan_open_def scan_close_def scan_collect_def scan_finish_def
          split: option.splits)
  next
    case False
    let ?st = "st\<lparr>json_str := json_str st @ [c], brace_count := d + brace_delta c\<rparr>"
    from False Cons.prems have pos: "0 < d + brace_delta c" and cl: "closes (d + brace_delta c) cs"
      by auto
    have step: "scan_char loads i c st = ?st"
      using Cons.prems False
      by (auto simp: scan_char_def scan_open_def scan_close_def scan_collect_def brace_delta_def)
    have "scan loads (Suc i) cs ?st = scan_finish loads ?st (json_str ?st @ cs) (Suc i + length cs)"
      using Cons.prems pos cl by (intro Cons.IH) auto
    then show ?thesis
      using step by (simp add: scan_finish_update)
  qed
qed

lemma scan_object:
  assumes idle: "scan_idle st" and obj: "json_object_text ob"
  shows "scan loads i ob st = scan_finish loads (st\<lparr>start_pos := i, in_json := True\<rparr>) ob (i + length ob)"
proof -
  obtain cs where ob: "ob = CHR ''{'' # cs" and cl: "closes 1 cs"
    using obj by (auto simp: json_object_text_def split: list.splits)
  let ?st0 = "st\<lparr>start_pos := i, in_json := True\<rparr>"
  let ?st = "?st0\<lparr>json_str := [CHR ''{''], brace_count := 1\<rparr>"
  have "scan_char loads i (CHR ''{'') st = ?st"
    using idle by (simp add: scan_char_def scan_open_def scan_close_def scan_collect_def scan_idle_def)
  moreover have "scan loads (Suc i) cs ?st = scan_finish loads ?st (json_str ?st @ cs) (Suc i + length cs)"
    using cl by (intro scan_inside) auto
  ultimately show ?thesis
    using ob by (simp add: scan_finish_update)
qed

lemma scan_idle_finish: "scan_idle (scan_finish loads st s e)"
  by (simp add: scan_idle_def scan_finish_def split: option.splits)

lemma scan_segments:
  assumes "scan_idle st" and "well_segmented segs"
  shows "scan_idle (scan loads i (seg_text segs) st) \<and>
    json_objects (scan loads i (seg_text segs) st) = json_objects st @ List.map_filter loads (map snd segs) \<and>
    json_positions (scan loads i (seg_text segs) st) = json_positions st @ seg_spans loads i segs"
  using assms
proof (induction segs arbitrary: i st)
  case Nil
  then show ?case by (simp add: seg_text_def)
next
  case (Cons seg segs)
  obtain p ob where seg: "seg = (p, ob)" by (cases seg)
  from Cons.prems seg have p: "brace_free p" and ob: "json_object_text ob" and rest: "well_segmented segs"
    by (auto simp: well_segmented_def)
  let ?st1 = "scan_finish loads (st\<lparr>start_pos := i + length p, in_json := True\<rparr>) ob (i + length p + length ob)"
  have "scan loads i (p @ ob) st = ?st1"
    using Cons.prems(1) p ob by (simp add: scan_append scan_prose scan_object scan_idle_def)
  moreover have "scan_idle ?st1" by (rule scan_idle_finish)
  ultimately show ?case
    using Cons.IH [OF _ rest, of ?st1 "i + length p + length ob"] seg
    by (simp add: seg_text_def scan_append scan_finish_def split: option.splits)
qed

lemma spans_desc_mono: "spans_desc n ps \<Longrightarrow> n \<le> m \<Longrightarrow> spans_desc m ps"
  by (cases ps) auto

lemma fold_cut_prefix:
  "spans_desc n qs \<Longrightarrow> n \<le> length t \<Longrightarrow>
   fold (\<lambda>(s, e) t. take s t @ drop e t) qs (t @ x) = fold (\<lambda>(s, e) t. take s t @ drop e t) qs t @ x"
proof (induction qs arbitrary: n t)
  case Nil
  then show ?case by simp
next
  case (Cons q qs)
  obtain s e where q: "q = (s, e)" by (cases q)
  with Cons.prems have "s \<le> e" "e \<le> length t" "spans_desc s qs" by auto
  moreover have "s \<le> length (take s t @ drop e t)" using \<open>s \<le> e\<close> \<open>e \<le> length t\<close> by simp
  ultimately show ?case
    using Cons.IH [of s "take s t @ drop e t"] q by simp
qed

lemma remove_spans_snoc: "remove_spans (ps @ [(s, e)]) t = remove_spans ps (take s t @ drop e t)"
  by (simp add: remove_spans_def)

lemma remove_spans_prefix:
  "spans_desc (length t) (rev ps) \<Longrightarrow> remove_spans ps (t @ x) = remove_spans ps t @ x"
  unfolding remove_spans_def by (rule fold_cut_prefix) auto

lemma remove_segments:
  assumes "spans_desc (length t) (rev ps)"
  shows "remove_spans (ps @ seg_spans loads (length t) segs) (t @ seg_text segs @ x) =
    remove_spans ps t @ seg_kept loads segs @ x"
  using assms
proof (induction segs arbitrary: t ps)
  case Nil
  then show ?case by (simp add: seg_text_def seg_kept_def remove_spans_prefix)
next
  case (Cons seg segs)
  obtain p ob where seg: "seg = (p, ob)" by (cases seg)
  let ?sp = "if loads ob = None then [] else [(length t + length p, length t + length p + length ob)]"
  let ?t' = "t @ p @ ob"
  have desc: "spans_desc (length ?t') (rev (ps @ ?sp))"
    using Cons.prems by (auto intro: spans_desc_mono)
  have "remove_spans ((ps @ ?sp) @ seg_spans loads (length ?t') segs) (?t' @ seg_text segs @ x) =
      remove_spans (ps @ ?sp) ?t' @ seg_kept loads segs @ x"
    by (rule Cons.IH [OF desc])
  moreover have "remove_spans (ps @ ?sp) ?t' = remove_spans ps t @ p @ (if loads ob = None then ob else [])"
    using Cons.prems
    by (auto simp: remove_spans_snoc remove_spans_prefix [symmetric] simp del: append_assoc)
  ultimately show ?case
    using seg by (simp add: seg_text_def seg_kept_def add.assoc)
qed

lemma scan_char_keeps_output:
  "c \<noteq> CHR ''}'' \<Longrightarrow> json_objects (scan_char loads i c st) = json_objects st \<and>
     json_positions (scan_char loads i c st) = json_positions st"
  by (simp add: scan_char_def scan_open_def scan_close_def scan_collect_def)

lemma scan_no_close:
  "CHR ''}'' \<notin> set cs \<Longrightarrow> json_objects (scan loads i cs st) = json_objects st \<and>
     json_positions (scan loads i cs st) = json_positions st"
  by (induction cs arbitrary: i st) (auto simp: scan_char_keeps_output)

lemma scan_stray:
  "stray_alternating d cs \<Longrightarrow> brace_count st = d \<Longrightarrow>
   json_objects (scan loads i cs st) = json_objects st \<and> json_positions (scan loads i cs st) = json_positions st"
proof (induction d cs arbitrary: i st rule: stray_alternating.induct)
  case (1 d)
  then show ?case by simp
next
  case (2 d c cs)
  let ?st = "scan_char loads i c st"
  have "brace_count ?st = (if c = CHR ''{'' then 0 else if c = CHR ''}'' then -1 else d) \<and>
      json_objects ?st = json_objects st \<and> json_positions ?st = json_positions st"
    using "2.prems" by (auto simp: scan_char_def scan_open_def scan_close_def scan_collect_def)
  with "2.IH" "2.prems" show ?case
    by (auto split: if_splits)
qed

subsection \<open>Extraction\<close>

text \<open>
  C1. Prose interleaved with balanced objects: \<open>extract_json\<close> returns the decodable
  objects in the order they appear, and the text with exactly their spans removed (an
  object that does not decode stays in the text), stripped of surrounding whitespace.
\<close>

theorem extract_json_segments:
  assumes "unescape text = seg_text segs @ tail" and "well_segmented segs" and "brace_free tail"
  shows "extract_json loads text =
    (List.map_filter loads (map snd segs), py_strip (seg_kept loads segs @ tail))"
proof -
  let ?st = "scan loads 0 (seg_text segs) scan_init"
  have idle: "scan_idle (scan_init :: 'a scan_state)" by (simp add: scan_init_def scan_idle_def)
  from scan_segments [OF idle assms(2)]
  have st: "scan_idle ?st" "json_objects ?st = List.map_filter loads (map snd segs)"
      "json_positions ?st = seg_spans loads 0 segs"
    by (simp_all add: scan_init_def)
  then have "scan loads 0 (unescape text) scan_init = ?st"
    using assms(1,3) by (simp add: scan_append scan_prose scan_idle_def)
  moreover have "remove_spans (seg_spans loads 0 segs) (seg_text segs @ tail) = seg_kept loads segs @ tail"
    using remove_segments [of "[]" "[]" loads segs tail] by (simp add: remove_spans_def)
  ultimately show ?thesis
    using st assms(1) by (simp add: extract_json_def)
qed

theorem extract_json_segments_witness:
  \<open>unescape ''Click it {"command":"mouse_button","params":{"button":"left"}} done'' =
     seg_text [(''Click it '', ''{"command":"mouse_button","params":{"button":"left"}}'')] @ '' done'' \<and>
   well_segmented [(''Click it '', ''{"command":"mouse_button","params":{"button":"left"}}'')] \<and>
   brace_free '' done'' \<and>
   extract_json (\<lambda>s. if s = ''{"command":"mouse_button","params":{"button":"left"}}'' then Some (1::nat) else None)
     ''Click it {"command":"mouse_button","params":{"button":"left"}} done'' = ([1], ''Click it  done'')\<close>
proof -
  let ?obj = \<open>''{"command":"mouse_button","params":{"button":"left"}}''\<close>
  let ?loads = "\<lambda>s. if s = ?obj then Some (1::nat) else None"
  have h1: "unescape (''Click it '' @ ?obj @ '' done'') = seg_text [(''Click it '', ?obj)] @ '' done''"
    by (simp add: unescape_def seg_text_def py_simps)
  have h2: "well_segmented [(''Click it '', ?obj)]"
    by (simp add: well_segmented_def brace_free_def json_object_text_def brace_delta_def)
  have h3: "brace_free '' done''" by (simp add: brace_free_def)
  have "extract_json ?loads (''Click it '' @ ?obj @ '' done'') =
      (List.map_filter ?loads (map snd [(''Click it '', ?obj)]), py_strip (seg_kept ?loads [(''Click it '', ?obj)] @ '' done''))"
    using h1 h2 h3 by (rule extract_json_segments)
  then show ?thesis
    using h1 h2 h3 by (simp add: seg_kept_def py_strip_def py_isspace_def)
qed

text \<open>
  C2. A closing brace in the prose before the first object drives the scanner's counter
  to \<open>-1\<close>: from then on no object is extracted, however well-formed, and the text is
  returned whole.
\<close>

theorem extract_json_stray_close:
  assumes "unescape text = p @ CHR ''}'' # rest" and "brace_free p" and "stray_alternating (-1) rest"
  shows "extract_json loads text = ([], py_strip (unescape text))"
proof -
  let ?st = "scan_init\<lparr>brace_count := -1\<rparr> :: 'a scan_state"
  have p: "scan loads 0 p scan_init = scan_init"
    using assms(2) by (rule scan_prose) (simp add: scan_init_def)
  have c: "scan loads (length p) [CHR ''}''] scan_init = ?st"
    by (simp add: scan_char_def scan_open_def scan_close_def scan_collect_def scan_init_def)
  have "scan loads 0 (unescape text) scan_init = scan loads (Suc (length p)) rest ?st"
    using assms(1) p c scan_append [of loads 0 p "CHR ''}'' # rest"] scan_append [of loads "length p" "[CHR ''}'']" rest]
    by simp
  moreover have "json_objects (scan loads (Suc (length p)) rest ?st) = [] \<and>
      json_positions (scan loads (Suc (length p)) rest ?st) = []"
    using scan_stray [OF assms(3), of ?st] by (simp add: scan_init_def)
  ultimately show ?thesis
    by (simp add: extract_json_def remove_spans_def)
qed

theorem extract_json_stray_close_witness:
  \<open>unescape ''} {"command":"listen"}'' = [] @ CHR ''}'' # '' {"command":"listen"}'' \<and>
   brace_free [] \<and> stray_alternating (-1) '' {"command":"listen"}'' \<and>
   extract_json Some ''} {"command":"listen"}'' = ([], ''} {"command":"listen"}'')\<close>
proof -
  have h1: \<open>unescape ''} {"command":"listen"}'' = [] @ CHR ''}'' # '' {"command":"listen"}''\<close>
    by (simp add: unescape_def py_simps)
  have h2: "brace_free []" by (simp add: brace_free_def)
  have h3: \<open>stray_alternating (-1) '' {"command":"listen"}''\<close> by simp
  have \<open>extract_json Some ''} {"command":"listen"}'' = ([], py_strip (unescape ''} {"command":"listen"}''))\<close>
    using h1 h2 h3 by (rule extract_json_stray_close)
  then show ?thesis
    using h1 h2 h3 by (simp add: py_strip_def py_isspace_def)
qed

text \<open>
  C3. An opening brace that is never closed: the objects before it are extracted as in C1
  and the unterminated region is kept in the text, yielding no object.
\<close>

theorem extract_json_unterminated:
  assumes "unescape text = seg_text segs @ tail @ CHR ''{'' # rest" and "well_segmented segs"
    and "brace_free tail" and "CHR ''}'' \<notin> set rest"
  shows "extract_json loads text =
    (List.map_filter loads (map snd segs), py_strip (seg_kept loads segs @ tail @ CHR ''{'' # rest))"
proof -
  let ?st = "scan loads 0 (seg_text segs) scan_init"
  have idle: "scan_idle (scan_init :: 'a scan_state)" by (simp add: scan_init_def scan_idle_def)
  from scan_segments [OF idle assms(2)]
  have st: "scan_idle ?st" "json_objects ?st = List.map_filter loads (map snd segs)"
      "json_positions ?st = seg_spans loads 0 segs"
    by (simp_all add: scan_init_def)
  have tail: "scan loads (length (seg_text segs)) tail ?st = ?st"
    using assms(3) st(1) by (simp add: scan_prose scan_idle_def)
  have "CHR ''}'' \<notin> set (CHR ''{'' # rest)" using assms(4) by simp
  from scan_no_close [OF this, of loads "length (seg_text segs) + length tail" ?st]
  have "json_objects (scan loads 0 (unescape text) scan_init) = List.map_filter loads (map snd segs) \<and>
      json_positions (scan loads 0 (unescape text) scan_init) = seg_spans loads 0 segs"
    using st tail assms(1) by (simp add: scan_append)
  moreover have "remove_spans (seg_spans loads 0 segs) (seg_text segs @ tail @ CHR ''{'' # rest) =
      seg_kept loads segs @ tail @ CHR ''{'' # rest"
    using remove_segments [of "[]" "[]" loads segs] by (simp add: remove_spans_def)
  ultimately show ?thesis
    using assms(1) by (simp add: extract_json_def)
qed

theorem extract_json_unterminated_witness:
  \<open>unescape ''ok {"a":1} then {"b":2'' = seg_text [(''ok '', ''{"a":1}'')] @ '' then '' @ CHR ''{'' # ''"b":2'' \<and>
   well_segmented [(''ok '', ''{"a":1}'')] \<and> brace_free '' then '' \<and> CHR ''}'' \<notin> set ''"b":2'' \<and>
   extract_json Some ''ok {"a":1} then {"b":2'' = ([''{"a":1}''], ''ok  then {"b":2'')\<close>
proof -
  have h1: \<open>unescape ''ok {"a":1} then {"b":2'' = seg_text [(''ok '', ''{"a":1}'')] @ '' then '' @ CHR ''{'' # ''"b":2''\<close>
    by (simp add: unescape_def seg_text_def py_simps)
  have h2: \<open>well_segmented [(''ok '', ''{"a":1}'')]\<close>
    by (simp add: well_segmented_def brace_free_def json_object_text_def brace_delta_def)
  have h3: "brace_free '' then ''" by (simp add: brace_free_def)
  have h4: \<open>CHR ''}'' \<notin> set ''"b":2''\<close> by simp
  have \<open>extract_json Some ''ok {"a":1} then {"b":2'' = (List.map_filter Some (map snd [(''ok '', ''{"a":1}'')]),
      py_strip (seg_kept Some [(''ok '', ''{"a":1}'')] @ '' then '' @ CHR ''{'' # ''"b":2''))\<close>
    using h1 h2 h3 h4 by (rule extract_json_unterminated)
  then show ?thesis
    using h1 h2 h3 h4 by (simp add: seg_kept_def py_strip_def py_isspace_def)
qed

end
