(* ===== verification/Input.thy ===== *)
theory Input
  imports Python
begin

text \<open>
  The input-injection layer: src/services/cursor_module.py and keyboard_module.py (as
  re-exported by cursor.py). The operating system and pyautogui are a collaborator
  \<open>'d desktop_api\<close> over an abstract desktop state \<open>'d\<close>: \<open>prim\<close> performs one primitive
  (\<open>Inl\<close> is the exception it raises), \<open>screen_size\<close> and \<open>cursor_pos\<close> read
  \<open>get_screen_dimensions()\<close> and \<open>pyautogui.position()\<close>. What the repository adds on
  top (coordinate clamping, argument checks, the clipboard dance of \<open>type_text\<close>) is
  modelled here. Effects are threaded through a state-and-exception monad \<open>ex\<close>, and
  every primitive invoked is appended to the state's \<open>log\<close>, so that the order of the
  agent's actions is observable.
\<close>

datatype action =
    MoveTo rat rat                 \<comment> \<open>\<open>pyautogui.moveTo(x, y, duration=0.1)\<close>\<close>
  | Click pyval                    \<comment> \<open>\<open>pyautogui.click(button=b)\<close>\<close>
  | DoubleClick pyval
  | DragTo rat rat pyval pyval     \<comment> \<open>\<open>pyautogui.dragTo(x, y, button=b, duration=t)\<close>\<close>
  | MouseDown pyval
  | MouseUp pyval
  | Press pyval                    \<comment> \<open>\<open>pyautogui.press(key)\<close>\<close>
  | Hotkey "pyval list"            \<comment> \<open>\<open>pyautogui.hotkey( *keys)\<close>\<close>
  | ClipboardRead                  \<comment> \<open>\<open>pyperclip.paste()\<close>\<close>
  | ClipboardWrite pyval           \<comment> \<open>\<open>pyperclip.copy(text)\<close>\<close>
  | Scroll pyval
  | MoveToElement pyval            \<comment> \<open>\<open>find_ui.move_mouse_to_ui_element(name)\<close>\<close>
  | Sleep rat                      \<comment> \<open>\<open>time.sleep(t)\<close>\<close>

record 'd desktop_api =
  prim :: "action \<Rightarrow> 'd \<Rightarrow> exn + 'd"
  screen_size :: "'d \<Rightarrow> int \<times> int"
  cursor_pos :: "'d \<Rightarrow> int \<times> int"

record 'd exec_state =
  listening :: bool        \<comment> \<open>the module global \<open>listening\<close> of execute_funcs.py\<close>
  desk :: 'd
  log :: "action list"

subsection \<open>A state-and-exception monad\<close>

type_synonym ('s, 'a) ex = "'s \<Rightarrow> (exn + 'a) \<times> 's"

definition ex_return :: "'a \<Rightarrow> ('s, 'a) ex" where
  "ex_return x s = (Inr x, s)"

definition ex_lift :: "exn + 'a \<Rightarrow> ('s, 'a) ex" where
  "ex_lift r s = (r, s)"

definition ex_bind :: "('s, 'a) ex \<Rightarrow> ('a \<Rightarrow> ('s, 'b) ex) \<Rightarrow> ('s, 'b) ex" where
  "ex_bind m f s = (case m s of (Inl e, s') \<Rightarrow> (Inl e, s') | (Inr a, s') \<Rightarrow> f a s')"

text \<open>Invoking a primitive: it is logged whether or not it raises.\<close>

definition invoke :: "'d desktop_api \<Rightarrow> action \<Rightarrow> ('d exec_state, unit) ex" where
  "invoke api a st =
     (case prim api a (desk st) of
        Inl e \<Rightarrow> (Inl e, st\<lparr>log := log st @ [a]\<rparr>)
      | Inr d \<Rightarrow> (Inr (), st\<lparr>desk := d, log := log st @ [a]\<rparr>))"

text \<open>\<open>time.sleep(t)\<close> with a valid duration never raises.\<close>

definition sleep :: "rat \<Rightarrow> 'd exec_state \<Rightarrow> 'd exec_state" where
  "sleep t st = st\<lparr>log := log st @ [Sleep t]\<rparr>"

subsection \<open>cursor_module.py\<close>

text \<open>\<open>max(0, min(v, sz - 1))\<close> for a screen extent \<open>sz\<close>, after \<open>v\<close> is checked to be a number.\<close>

definition clamp_coord :: "rat \<Rightarrow> int \<Rightarrow> rat" where
  "clamp_coord v sz = max 0 (min v (of_int sz - 1))"

definition move_cursor_absolute :: "'d desktop_api \<Rightarrow> pyval \<Rightarrow> pyval \<Rightarrow> ('d exec_state, unit) ex" where
  "move_cursor_absolute api x y st =
     (let (w, h) = screen_size api (desk st)
      in ex_bind (ex_lift (py_num x)) (\<lambda>xv. ex_bind (ex_lift (py_num y)) (\<lambda>yv.
           invoke api (MoveTo (clamp_coord xv w) (clamp_coord yv h)))) st)"

definition move_cursor_relative :: "'d desktop_api \<Rightarrow> pyval \<Rightarrow> pyval \<Rightarrow> ('d exec_state, unit) ex" where
  "move_cursor_relative api dx dy st =
     (let (cx, cy) = cursor_pos api (desk st); (w, h) = screen_size api (desk st)
      in ex_bind (ex_lift (py_num dx)) (\<lambda>dxv. ex_bind (ex_lift (py_num dy)) (\<lambda>dyv.
           invoke api (MoveTo (clamp_coord (of_int cx + dxv) w) (clamp_coord (of_int cy + dyv) h)))) st)"

definition drag_to :: "'d desktop_api \<Rightarrow> pyval \<Rightarrow> pyval \<Rightarrow> pyval \<Rightarrow> pyval \<Rightarrow> ('d exec_state, unit) ex" where
  "drag_to api x y button duration st =
     (let (w, h) = screen_size api (desk st)
      in ex_bind (ex_lift (py_num x)) (\<lambda>xv. ex_bind (ex_lift (py_num y)) (\<lambda>yv.
           invoke api (DragTo (clamp_coord xv w) (clamp_coord yv h) button duration))) st)"

subsection \<open>keyboard_module.py\<close>

text \<open>\<open>press_key\<close> and \<open>press_hotkey\<close>: the primitive, then \<open>True\<close>.\<close>

definition press_key :: "'d desktop_api \<Rightarrow> pyval \<Rightarrow> ('d exec_state, bool) ex" where
  "press_key api k = ex_bind (invoke api (Press k)) (\<lambda>_. ex_return True)"

definition press_hotkey :: "'d desktop_api \<Rightarrow> pyval list \<Rightarrow> ('d exec_state, bool) ex" where
  "press_hotkey api ks = ex_bind (invoke api (Hotkey ks)) (\<lambda>_. ex_return True)"

text \<open>
  \<open>type_text\<close>: the clipboard is read outside the \<open>try\<close>, so a failure there
  propagates; a failure of the copy or of the paste hotkey inside the \<open>try\<close> is printed
  and swallowed. The restoring thread of the \<open>finally\<close> block runs asynchronously and is
  not part of the model.
\<close>

definition type_text :: "'d desktop_api \<Rightarrow> pyval \<Rightarrow> ('d exec_state, unit) ex" where
  "type_text api text =
     ex_bind (invoke api ClipboardRead) (\<lambda>_ st.
       (case ex_bind (invoke api (ClipboardWrite text))
               (\<lambda>_. invoke api (Hotkey [PStr ''ctrl'', PStr ''v''])) st of
          (_, st') \<Rightarrow> (Inr (), st')))"

subsection \<open>Monad laws used by the components\<close>

lemma ex_bind_lift_Inl [simp]: "ex_bind (ex_lift (Inl e)) f s = (Inl e, s)"
  by (simp add: ex_bind_def ex_lift_def)

lemma ex_bind_lift_Inr [simp]: "ex_bind (ex_lift (Inr a)) f s = f a s"
  by (simp add: ex_bind_def ex_lift_def)

end
