(* ===== verification/Executor.thy ===== *)
theory Executor
  imports Input "HOL-Library.Sublist"
begin

text \<open>
  The command batch executor of src/services/execute_funcs.py: \<open>execute_batch_commands\<close>
  (\<open>exec_batch\<close>, its \<open>elif\<close> chain \<open>dispatch\<close>) and \<open>process_commands\<close>
  (\<open>proc_loop\<close>, the batching loop, and \<open>process_commands\<close>), with the module global
  \<open>listening\<close> (\<open>is_listening\<close>/\<open>set_listening\<close>) as a field of the executor state.
  A command is the \<open>pyval\<close> that \<open>json.loads\<close> produced; a result is the dict
  \<open>{"command", "success", "message"}\<close> as the record \<open>cmd_result\<close>, whose message is
  a constructor per f-string of the source carrying the values it formats.

  The lemmas show: at most one result per command; the results follow the order of the
  commands; a batch stops at its first unknown or failing command, which also clears the
  listening gate; a \<open>listen\<close> sets the gate and ends its batch; a \<open>wait\<close> runs the
  pending batch before sleeping; and two behaviours of the code the specification does not
  describe (a failing \<open>wait\<close> leaves the gate alone; a command equal to the last one ends
  a batch early).
\<close>

datatype msg =
    MsgEmpty
  | MsgWaited pyval                   \<comment> \<open>\<open>"Waited for {seconds} seconds"\<close>\<close>
  | MsgMissingParam string            \<comment> \<open>\<open>"Missing required parameter: {e}"\<close>\<close>
  | MsgError exn                      \<comment> \<open>\<open>"Error executing command: {str(e)}"\<close>\<close>
  | MsgMovedAbs pyval pyval
  | MsgMovedRel pyval pyval int int
  | MsgClicked pyval
  | MsgMovedToElement pyval
  | MsgDoubleClicked pyval
  | MsgDragged pyval pyval
  | MsgHeld pyval
  | MsgReleased pyval
  | MsgPressedKey pyval
  | MsgHotkey "pyval list"
  | MsgTyped pyval
  | MsgScrolled pyval
  | MsgWaitingUser                    \<comment> \<open>\<open>"Waiting for user instructions..."\<close>\<close>
  | MsgUnknown pyval                  \<comment> \<open>\<open>"Unknown command: {name}"\<close>\<close>

record cmd_result =
  rcommand :: pyval
  rsuccess :: bool
  rmessage :: msg

text \<open>What the \<open>elif\<close> chain decided: a command ran, \<open>listen\<close>, or the \<open>else\<close> branch.\<close>

datatype outcome = Ran msg | ListenCmd | UnknownCmd

text \<open>\<open>command['params'][k]\<close> and \<open>command['params'].get(k, default)\<close>.\<close>

definition param :: "pyval \<Rightarrow> string \<Rightarrow> exn + pyval" where
  "param c k = (case py_getitem c ''params'' of Inl e \<Rightarrow> Inl e | Inr p \<Rightarrow> py_getitem p k)"

definition param_get :: "pyval \<Rightarrow> string \<Rightarrow> pyval \<Rightarrow> exn + pyval" where
  "param_get c k dflt = (case py_getitem c ''params'' of Inl e \<Rightarrow> Inl e | Inr p \<Rightarrow> py_get p k dflt)"

text \<open>The two \<open>except\<close> clauses: a \<open>KeyError\<close> names the missing key.\<close>

fun fail_msg :: "exn \<Rightarrow> msg" where
  "fail_msg (KeyError k) = MsgMissingParam k"
| "fail_msg e = MsgError e"

definition is_str :: "pyval \<Rightarrow> bool" where
  "is_str v \<longleftrightarrow> (case v of PStr _ \<Rightarrow> True | _ \<Rightarrow> False)"

definition ran :: "('s, unit) ex \<Rightarrow> msg \<Rightarrow> ('s, outcome) ex" where
  "ran m r = ex_bind m (\<lambda>_. ex_return (Ran r))"

text \<open>The body of the \<open>try\<close> of \<open>execute_batch_commands\<close>, one branch per command name.\<close>

definition dispatch :: "'d desktop_api \<Rightarrow> pyval \<Rightarrow> pyval \<Rightarrow> ('d exec_state, outcome) ex" where
  "dispatch api c name =
    (if name = PStr ''move_cursor_absolute'' then
       ex_bind (ex_lift (param c ''x'')) (\<lambda>x. ex_bind (ex_lift (param c ''y'')) (\<lambda>y.
         ran (move_cursor_absolute api x y) (MsgMovedAbs x y)))
     else if name = PStr ''move_cursor_relative'' then
       ex_bind (ex_lift (param c ''dx'')) (\<lambda>dx. ex_bind (ex_lift (param c ''dy'')) (\<lambda>dy.
         ex_bind (move_cursor_relative api dx dy) (\<lambda>_ st.
           (let (x, y) = cursor_pos api (desk st) in ex_return (Ran (MsgMovedRel dx dy x y)) st))))
     else if name = PStr ''mouse_button'' then
       ex_bind (ex_lift (param c ''button'')) (\<lambda>b. ran (invoke api (Click b)) (MsgClicked b))
     else if name = PStr ''move_cursor_to_element'' then
       ex_bind (ex_lift (param c ''name'')) (\<lambda>n.
         ex_bind (invoke api (MoveToElement n)) (\<lambda>_ st. ex_return (Ran (MsgMovedToElement n)) (sleep 5 st)))
     else if name = PStr ''double_click'' then
       ex_bind (ex_lift (param_get c ''button'' (PStr ''left''))) (\<lambda>b.
         ran (invoke api (DoubleClick b)) (MsgDoubleClicked b))
     else if name = PStr ''drag_to'' then
       ex_bind (ex_lift (param c ''x'')) (\<lambda>x. ex_bind (ex_lift (param c ''y'')) (\<lambda>y.
       ex_bind (ex_lift (param_get c ''button'' (PStr ''left''))) (\<lambda>b.
       ex_bind (ex_lift (param_get c ''duration'' (PFloat (1/2)))) (\<lambda>t.
         ran (drag_to api x y b t) (MsgDragged x y)))))
     else if name = PStr ''mouse_down'' then
       ex_bind (ex_lift (param_get c ''button'' (PStr ''left''))) (\<lambda>b. ran (invoke api (MouseDown b)) (MsgHeld b))
     else if name = PStr ''mouse_up'' then
       ex_bind (ex_lift (param_get c ''button'' (PStr ''left''))) (\<lambda>b. ran (invoke api (MouseUp b)) (MsgReleased b))
     else if name = PStr ''press_key'' then
       ex_bind (ex_lift (param c ''key'')) (\<lambda>k. ran (invoke api (Press k)) (MsgPressedKey k))
     else if name = PStr ''press_hotkey'' then
       ex_bind (ex_lift (param c ''keys'')) (\<lambda>keys. ex_bind (ex_lift (py_iter keys)) (\<lambda>ks.
         ex_bind (invoke api (Hotkey ks)) (\<lambda>_.
           if list_all is_str ks then ex_return (Ran (MsgHotkey ks)) else ex_lift (Inl TypeError))))
     else if name = PStr ''enter_text'' then
       ex_bind (ex_lift (param c ''text'')) (\<lambda>t. ran (type_text api t) (MsgTyped t))
     else if name = PStr ''scroll'' then
       ex_bind (ex_lift (param c ''clicks'')) (\<lambda>n. ran (invoke api (Scroll n)) (MsgScrolled n))
     else if name = PStr ''listen'' then ex_return ListenCmd
     else ex_return UnknownCmd)"

text \<open>
  \<open>execute_batch_commands\<close>. \<open>command["command"]\<close> is read before the \<open>try\<close>, so its
  \<open>KeyError\<close> leaves the function and the results gathered so far are lost (\<open>Inl\<close>).
  A successful command is followed by the settle delay \<open>time.sleep(0.5)\<close>; \<open>listen\<close>
  returns at once, appending its result only if the gate was not already set; an unknown
  command or an exception appends a failure and breaks, an exception also clearing the gate.
\<close>

fun exec_batch :: "'d desktop_api \<Rightarrow> pyval list \<Rightarrow> 'd exec_state \<Rightarrow> (exn + cmd_result list) \<times> 'd exec_state" where
  "exec_batch api [] st = (Inr [], st)"
| "exec_batch api (c # cs) st =
     (case py_getitem c ''command'' of
        Inl e \<Rightarrow> (Inl e, st)
      | Inr name \<Rightarrow>
          (let r = \<lparr>rcommand = name, rsuccess = True, rmessage = MsgEmpty\<rparr>
           in case dispatch api c name st of
                (Inr (Ran m), st') \<Rightarrow>
                  (case exec_batch api cs (sleep (1/2) st') of
                     (Inl e, st'') \<Rightarrow> (Inl e, st'')
                   | (Inr rs, st'') \<Rightarrow> (Inr (r\<lparr>rmessage := m\<rparr> # rs), st''))
              | (Inr ListenCmd, st') \<Rightarrow>
                  (if \<not> listening st' then (Inr [r\<lparr>rmessage := MsgWaitingUser\<rparr>], st'\<lparr>listening := True\<rparr>)
                   else (Inr [], st'))
              | (Inr UnknownCmd, st') \<Rightarrow> (Inr [r\<lparr>rsuccess := False, rmessage := MsgUnknown name\<rparr>], st')
              | (Inl e, st') \<Rightarrow> (Inr [r\<lparr>rsuccess := False, rmessage := fail_msg e\<rparr>], st'\<lparr>listening := False\<rparr>)))"

text \<open>
  The two steps of a \<open>wait\<close> command: flushing the pending batch (\<open>if batch_commands:\<close>)
  and \<open>time.sleep(command['params']['seconds'])\<close>, which yields the seconds for the message.
\<close>

definition flush :: "'d desktop_api \<Rightarrow> pyval list \<Rightarrow> 'd exec_state \<Rightarrow> (exn + cmd_result list) \<times> 'd exec_state" where
  "flush api batch st = (if batch = [] then (Inr [], st) else exec_batch api batch st)"

definition wait_seconds :: "pyval \<Rightarrow> ('d exec_state, pyval) ex" where
  "wait_seconds c =
     ex_bind (ex_lift (param c ''seconds'')) (\<lambda>s.
       ex_bind (ex_lift (py_sleep_arg s)) (\<lambda>t st. (Inr s, sleep t st)))"

text \<open>
  The loop of \<open>process_commands\<close> over the remaining commands, with the pending batch
  and the results so far; \<open>lastc\<close> is \<open>commands[-1]\<close>, compared by value. A command
  without a name raises outside the inner \<open>try\<close>: the outer handler returns the results
  so far and the pending batch is never run. An exception from flushing the batch is
  caught by the inner handler and charged to the current command, the batch then being
  kept. After the loop a pending batch is flushed.
\<close>

fun proc_loop :: "'d desktop_api \<Rightarrow> pyval \<Rightarrow> pyval list \<Rightarrow> pyval list \<Rightarrow> cmd_result list \<Rightarrow>
    'd exec_state \<Rightarrow> cmd_result list \<times> 'd exec_state" where
  "proc_loop api lastc [] batch results st =
     (case flush api batch st of
        (Inl e, st') \<Rightarrow> (results, st')
      | (Inr rs, st') \<Rightarrow> (results @ rs, st'))"
| "proc_loop api lastc (c # cs) batch results st =
     (case py_getitem c ''command'' of
        Inl e \<Rightarrow> (results, st)
      | Inr name \<Rightarrow>
          (let r = \<lparr>rcommand = name, rsuccess = True, rmessage = MsgEmpty\<rparr>;
               fail = (\<lambda>e. r\<lparr>rsuccess := False, rmessage := fail_msg e\<rparr>)
           in if name = PStr ''wait'' then
                (case flush api batch st of
                   (Inl e, st1) \<Rightarrow> proc_loop api lastc cs batch (results @ [fail e]) st1
                 | (Inr rs, st1) \<Rightarrow>
                     (case wait_seconds c st1 of
                        (Inl e, st2) \<Rightarrow> proc_loop api lastc cs [] (results @ rs @ [fail e]) st2
                      | (Inr s, st2) \<Rightarrow> proc_loop api lastc cs [] (results @ rs @ [r\<lparr>rmessage := MsgWaited s\<rparr>]) st2))
              else if 3 \<le> length (batch @ [c]) \<or> c = lastc then
                (case exec_batch api (batch @ [c]) st of
                   (Inl e, st1) \<Rightarrow> proc_loop api lastc cs (batch @ [c]) (results @ [fail e]) st1
                 | (Inr rs, st1) \<Rightarrow> proc_loop api lastc cs [] (results @ rs) st1)
              else proc_loop api lastc cs (batch @ [c]) results st))"

definition process_commands :: "'d desktop_api \<Rightarrow> pyval list \<Rightarrow> 'd exec_state \<Rightarrow> cmd_result list \<times> 'd exec_state" where
  "process_commands api cmds st = (if cmds = [] then ([], st) else proc_loop api (last cmds) cmds [] [] st)"

text \<open>Proof vocabulary: a command that has a name, and the names the \<open>elif\<close> chain knows.\<close>

definition named :: "pyval \<Rightarrow> bool" where
  "named c \<longleftrightarrow> (\<exists>n. py_getitem c ''command'' = Inr n)"

definition vocabulary :: "pyval list" where
  "vocabulary = map PStr [''move_cursor_absolute'', ''move_cursor_relative'', ''mouse_button'',
     ''move_cursor_to_element'', ''double_click'', ''drag_to'', ''mouse_down'', ''mouse_up'',
     ''press_key'', ''press_hotkey'', ''enter_text'', ''scroll'', ''listen'']"

definition cmd_names :: "pyval list \<Rightarrow> pyval list" where
  "cmd_names cs = List.map_filter (\<lambda>c. case py_getitem c ''command'' of Inl _ \<Rightarrow> None | Inr n \<Rightarrow> Some n) cs"

text \<open>
  A desktop on which every primitive succeeds, a fresh executor state, and a command dict
  \<open>{"command": n, "params": {...}}\<close>: the concrete inputs of the witnesses below.
\<close>

definition toy_api :: "unit desktop_api" where
  "toy_api = \<lparr>prim = (\<lambda>a d. Inr d), screen_size = (\<lambda>d. (1920, 1080)), cursor_pos = (\<lambda>d. (0, 0))\<rparr>"

definition toy_state :: "unit exec_state" where
  "toy_state = \<lparr>listening = False, desk = (), log = []\<rparr>"

definition mk_cmd :: "string \<Rightarrow> (string \<times> pyval) list \<Rightarrow> pyval" where
  "mk_cmd n ps = PDict (fmap_of_list [(''command'', PStr n), (''params'', PDict (fmap_of_list ps))])"

subsection \<open>Batches and the batching loop\<close>

lemma cmd_names_Cons [simp]:
  "py_getitem c ''command'' = Inr n \<Longrightarrow> cmd_names (c # cs) = n # cmd_names cs"
  by (simp add: cmd_names_def)

lemma cmd_names_Nil [simp]: "cmd_names [] = []"
  by (simp add: cmd_names_def)

lemma cmd_names_append [simp]: "cmd_names (xs @ ys) = cmd_names xs @ cmd_names ys"
  by (simp add: cmd_names_def)

lemma exec_batch_prefix:
  "exec_batch api cs st = (Inr rs, st') \<Longrightarrow> prefix (map rcommand rs) (cmd_names cs)"
proof (induction api cs st arbitrary: rs st' rule: exec_batch.induct)
  case (1 api st)
  then show ?case by simp
next
  case (2 api c cs st)
  then obtain name where name: "py_getitem c ''command'' = Inr name"
    by (auto split: sum.splits)
  show ?case
    using "2.prems" "2.IH" name
    by (auto simp: Let_def split: prod.splits sum.splits outcome.splits if_splits)
qed

lemma exec_batch_length:
  "exec_batch api cs st = (Inr rs, st') \<Longrightarrow> length rs \<le> length cs"
proof -
  assume "exec_batch api cs st = (Inr rs, st')"
  then have "prefix (map rcommand rs) (cmd_names cs)" by (rule exec_batch_prefix)
  then have "length rs \<le> length (cmd_names cs)" using prefix_length_le by fastforce
  moreover have "length (cmd_names cs) \<le> length cs"
    by (induction cs) (auto simp: cmd_names_def List.map_filter_simps split: sum.splits)
  ultimately show ?thesis by simp
qed

lemma exec_batch_named:
  "\<forall>c \<in> set cs. named c \<Longrightarrow> \<exists>rs st'. exec_batch api cs st = (Inr rs, st')"
proof (induction api cs st rule: exec_batch.induct)
  case (1 api st)
  then show ?case by simp
next
  case (2 api c cs st)
  then obtain name where name: "py_getitem c ''command'' = Inr name"
    by (auto simp: named_def)
  obtain res st' where d: "dispatch api c name st = (res, st')" by fastforce
  show ?case
  proof (cases res)
    case (Inl e)
    with name d show ?thesis by simp
  next
    case (Inr out)
    show ?thesis
    proof (cases out)
      case (Ran m)
      obtain rs st'' where "exec_batch api cs (sleep (1/2) st') = (Inr rs, st'')"
        using "2.IH" [OF name refl d [unfolded Inr Ran, symmetric] refl refl] "2.prems" by fastforce
      with name d Inr Ran show ?thesis by simp
    qed (use name d Inr in simp_all)
  qed
qed

lemma flush_Inr:
  "\<forall>c \<in> set batch. named c \<Longrightarrow>
   \<exists>rs st'. flush api batch st = (Inr rs, st') \<and> prefix (map rcommand rs) (cmd_names batch)"
  unfolding flush_def
  using exec_batch_named [of batch api st] exec_batch_prefix by (cases "batch = []") fastforce+

lemma proc_loop_unnamed:
  "py_getitem c ''command'' = Inl e \<Longrightarrow> proc_loop api l (c # cs) batch results st = (results, st)"
  by simp

lemma proc_loop_wait_ok:
  "py_getitem c ''command'' = Inr (PStr ''wait'') \<Longrightarrow> flush api batch st = (Inr rs, st1) \<Longrightarrow>
   wait_seconds c st1 = (Inr s, st2) \<Longrightarrow>
   proc_loop api l (c # cs) batch results st = proc_loop api l cs [] (results @ rs @
     [\<lparr>rcommand = PStr ''wait'', rsuccess = True, rmessage = MsgWaited s\<rparr>]) st2"
  by simp

lemma proc_loop_wait_fail:
  "py_getitem c ''command'' = Inr (PStr ''wait'') \<Longrightarrow> flush api batch st = (Inr rs, st1) \<Longrightarrow>
   wait_seconds c st1 = (Inl e, st2) \<Longrightarrow>
   proc_loop api l (c # cs) batch results st = proc_loop api l cs [] (results @ rs @
     [\<lparr>rcommand = PStr ''wait'', rsuccess = False, rmessage = fail_msg e\<rparr>]) st2"
  by simp

lemma proc_loop_flush:
  "py_getitem c ''command'' = Inr n \<Longrightarrow> n \<noteq> PStr ''wait'' \<Longrightarrow> 3 \<le> length (batch @ [c]) \<or> c = l \<Longrightarrow>
   exec_batch api (batch @ [c]) st = (Inr rs, st1) \<Longrightarrow>
   proc_loop api l (c # cs) batch results st = proc_loop api l cs [] (results @ rs) st1"
  by simp

lemma proc_loop_defer:
  "py_getitem c ''command'' = Inr n \<Longrightarrow> n \<noteq> PStr ''wait'' \<Longrightarrow> \<not> (3 \<le> length (batch @ [c]) \<or> c = l) \<Longrightarrow>
   proc_loop api l (c # cs) batch results st = proc_loop api l cs (batch @ [c]) results st"
  by simp

lemma proc_loop_order:
  "\<forall>c \<in> set batch. named c \<Longrightarrow> subseq (map rcommand results) P \<Longrightarrow>
   subseq (map rcommand (fst (proc_loop api l cs batch results st))) (P @ cmd_names batch @ cmd_names cs)"
proof (induction cs arbitrary: batch results st P)
  case Nil
  obtain rs st' where "flush api batch st = (Inr rs, st')" "prefix (map rcommand rs) (cmd_names batch)"
    using flush_Inr [OF Nil.prems(1)] by blast
  with Nil.prems(2) show ?case by (simp add: list_emb_append_mono prefix_imp_subseq)
next
  case (Cons c cs)
  show ?case
  proof (cases "py_getitem c ''command''")
    case (Inl e)
    with Cons.prems(2) show ?thesis by (simp add: subseq_rev_drop_many)
  next
    case (Inr n)
    then have nc: "named c" by (simp add: named_def)
    show ?thesis
    proof (cases "n = PStr ''wait''")
      case True
      obtain rs st1 where fl: "flush api batch st = (Inr rs, st1)" and
          pre: "subseq (map rcommand rs) (cmd_names batch)"
        using flush_Inr [OF Cons.prems(1)] by blast
      have sub: "subseq (map rcommand (results @ rs @ [r])) (P @ cmd_names batch @ [n])"
        if "rcommand r = n" for r
        using Cons.prems(2) pre that by (simp add: list_emb_append_mono)
      obtain res st2 where ws: "wait_seconds c st1 = (res, st2)" by fastforce
      show ?thesis
      proof (cases res)
        case (Inl e)
        then show ?thesis
          using Cons.IH [OF _ sub, of "[]"] Inr True fl ws by (simp add: proc_loop_wait_fail)
      next
        case (Inr s)
        then show ?thesis
          using Cons.IH [OF _ sub, of "[]"] \<open>py_getitem c ''command'' = Inr n\<close> True fl ws
          by (simp add: proc_loop_wait_ok)
      qed
    next
      case False
      show ?thesis
      proof (cases "3 \<le> length (batch @ [c]) \<or> c = l")
        case True
        obtain rs st1 where fl: "exec_batch api (batch @ [c]) st = (Inr rs, st1)"
          using exec_batch_named [of "batch @ [c]" api st] Cons.prems(1) nc by auto
        then have "subseq (map rcommand rs) (cmd_names (batch @ [c]))"
          using exec_batch_prefix by blast
        then have "subseq (map rcommand (results @ rs)) (P @ cmd_names batch @ [n])"
          using Cons.prems(2) Inr by (simp add: list_emb_append_mono)
        then show ?thesis
          using Cons.IH [of "[]" "results @ rs" "P @ cmd_names batch @ [n]"] Inr False True fl
          by (simp add: proc_loop_flush)
      next
        case False': False
        have "\<forall>c \<in> set (batch @ [c]). named c" using Cons.prems(1) nc by auto
        then show ?thesis
          using Cons.IH [of "batch @ [c]" results P] Cons.prems(2) Inr False False'
          by (simp add: proc_loop_defer)
      qed
    qed
  qed
qed

lemma cmd_names_length: "length (cmd_names cs) \<le> length cs"
  by (induction cs) (auto simp: cmd_names_def List.map_filter_simps split: sum.splits)

lemma dispatch_unknown:
  "name \<notin> set vocabulary \<Longrightarrow> dispatch api c name = ex_return UnknownCmd"
  by (simp add: dispatch_def vocabulary_def)

lemma dispatch_listen: "dispatch api c (PStr ''listen'') = ex_return ListenCmd"
  by (simp add: dispatch_def)

lemma exec_batch_ran:
  "py_getitem c ''command'' = Inr n \<Longrightarrow> dispatch api c n st = (Inr (Ran m), st') \<Longrightarrow>
   exec_batch api cs (sleep (1/2) st') = (Inr rs, st'') \<Longrightarrow>
   exec_batch api (c # cs) st = (Inr (\<lparr>rcommand = n, rsuccess = True, rmessage = m\<rparr> # rs), st'')"
  by simp

lemma exec_batch_unknown_stops:
  "py_getitem c ''command'' = Inr n \<Longrightarrow> n \<notin> set vocabulary \<Longrightarrow>
   exec_batch api (c # cs) st = (Inr [\<lparr>rcommand = n, rsuccess = False, rmessage = MsgUnknown n\<rparr>], st)"
  by (simp add: dispatch_unknown ex_return_def)

lemma neq_by_name:
  "py_getitem a ''command'' = Inr na \<Longrightarrow> py_getitem b ''command'' = Inr nb \<Longrightarrow> na \<noteq> nb \<Longrightarrow> a \<noteq> b"
  by auto

lemma mk_cmd_name [simp]: "py_getitem (mk_cmd n ps) ''command'' = Inr (PStr n)"
  by (simp add: mk_cmd_def fmlookup_of_list)

lemma mk_cmd_param [simp]: "param (mk_cmd n ps) k = (case map_of ps k of None \<Rightarrow> Inl (KeyError k) | Some v \<Rightarrow> Inr v)"
  by (simp add: mk_cmd_def param_def fmlookup_of_list)

lemma mk_cmd_neq [simp]: "n \<noteq> n' \<Longrightarrow> mk_cmd n ps \<noteq> mk_cmd n' ps'"
  using neq_by_name [OF mk_cmd_name mk_cmd_name] by auto

lemma toy_dispatch_click:
  "dispatch toy_api (mk_cmd ''mouse_button'' [(''button'', PStr ''left'')]) (PStr ''mouse_button'') st =
     (Inr (Ran (MsgClicked (PStr ''left''))), st\<lparr>log := log st @ [Click (PStr ''left'')]\<rparr>)"
  by (simp add: dispatch_def ran_def invoke_def ex_bind_def ex_return_def ex_lift_def toy_api_def)

lemma toy_dispatch_key:
  "dispatch toy_api (mk_cmd ''press_key'' [(''key'', PStr ''enter'')]) (PStr ''press_key'') st =
     (Inr (Ran (MsgPressedKey (PStr ''enter''))), st\<lparr>log := log st @ [Press (PStr ''enter'')]\<rparr>)"
  by (simp add: dispatch_def ran_def invoke_def ex_bind_def ex_return_def ex_lift_def toy_api_def)

subsection \<open>Properties of the executor\<close>

text \<open>
  process_commands returns at most one result per command it is given.
\<close>

theorem process_commands_length:
  "length (fst (process_commands api cmds st)) \<le> length cmds"
proof -
  have "subseq (map rcommand (fst (process_commands api cmds st))) (cmd_names cmds)"
    using proc_loop_order [of "[]" "[]" "[]" api "last cmds" cmds st]
    by (simp add: process_commands_def)
  then show ?thesis
    using list_emb_length cmd_names_length [of cmds] by fastforce
qed

text \<open>
  C4. The results of process_commands name the commands in the order they were given:
  the sequence of result names is a subsequence of the sequence of command names.
\<close>

theorem process_commands_order:
  "subseq (map rcommand (fst (process_commands api cmds st))) (cmd_names cmds)"
  using proc_loop_order [of "[]" "[]" "[]" api "last cmds" cmds st]
  by (simp add: process_commands_def)

text \<open>
  C5. The specification's example: a command that runs, an unknown command, and a third
  command form one batch; the result has two entries, the second a failure, and the third
  command is never dispatched (the state is the one after the first command and its settle delay).
\<close>

theorem process_commands_unknown_middle:
  assumes nA: "py_getitem a ''command'' = Inr na" and "na \<noteq> PStr ''wait''"
    and runA: "dispatch api a na st = (Inr (Ran m), st1)"
    and nB: "py_getitem b ''command'' = Inr nb" and "nb \<notin> set vocabulary" and "nb \<noteq> PStr ''wait''"
    and nC: "py_getitem c ''command'' = Inr nc" and "nc \<noteq> PStr ''wait''"
    and "a \<noteq> c" and "b \<noteq> c"
  shows "process_commands api [a, b, c] st =
    ([\<lparr>rcommand = na, rsuccess = True, rmessage = m\<rparr>, \<lparr>rcommand = nb, rsuccess = False, rmessage = MsgUnknown nb\<rparr>],
     sleep (1/2) st1)"
proof -
  have "exec_batch api [a, b, c] st =
      (Inr [\<lparr>rcommand = na, rsuccess = True, rmessage = m\<rparr>, \<lparr>rcommand = nb, rsuccess = False, rmessage = MsgUnknown nb\<rparr>],
       sleep (1/2) st1)"
    by (rule exec_batch_ran [OF nA runA exec_batch_unknown_stops [OF nB \<open>nb \<notin> set vocabulary\<close>]])
  then show ?thesis
    using assms by (simp add: process_commands_def proc_loop_defer proc_loop_flush flush_def)
qed

theorem process_commands_unknown_middle_witness:
  "process_commands toy_api
     [mk_cmd ''mouse_button'' [(''button'', PStr ''left'')], mk_cmd ''fly'' [], mk_cmd ''press_key'' [(''key'', PStr ''enter'')]]
     toy_state =
   ([\<lparr>rcommand = PStr ''mouse_button'', rsuccess = True, rmessage = MsgClicked (PStr ''left'')\<rparr>,
     \<lparr>rcommand = PStr ''fly'', rsuccess = False, rmessage = MsgUnknown (PStr ''fly'')\<rparr>],
    toy_state\<lparr>log := [Click (PStr ''left''), Sleep (1/2)]\<rparr>)"
proof -
  have run: "dispatch toy_api (mk_cmd ''mouse_button'' [(''button'', PStr ''left'')]) (PStr ''mouse_button'') toy_state =
      (Inr (Ran (MsgClicked (PStr ''left''))), toy_state\<lparr>log := [Click (PStr ''left'')]\<rparr>)"
    by (simp add: dispatch_def ran_def invoke_def ex_bind_def ex_return_def ex_lift_def toy_api_def toy_state_def)
  have "PStr ''fly'' \<notin> set vocabulary" by (simp add: vocabulary_def)
  from process_commands_unknown_middle [OF mk_cmd_name _ run mk_cmd_name this _ mk_cmd_name]
  show ?thesis by (simp add: sleep_def toy_state_def)
qed

text \<open>
  C6. A command whose execution raises (a missing parameter, a rejected primitive) is
  recorded as a failure, ends its batch, and clears the listening gate.
\<close>

theorem exec_batch_error_clears_gate:
  "py_getitem c ''command'' = Inr n \<Longrightarrow> dispatch api c n st = (Inl e, st') \<Longrightarrow>
   exec_batch api (c # cs) st =
     (Inr [\<lparr>rcommand = n, rsuccess = False, rmessage = fail_msg e\<rparr>], st'\<lparr>listening := False\<rparr>)"
  by simp

theorem exec_batch_error_clears_gate_witness:
  "dispatch toy_api (mk_cmd ''press_key'' []) (PStr ''press_key'') (toy_state\<lparr>listening := True\<rparr>) =
     (Inl (KeyError ''key''), toy_state\<lparr>listening := True\<rparr>) \<and>
   exec_batch toy_api [mk_cmd ''press_key'' [], mk_cmd ''press_key'' [(''key'', PStr ''enter'')]]
     (toy_state\<lparr>listening := True\<rparr>) =
   (Inr [\<lparr>rcommand = PStr ''press_key'', rsuccess = False, rmessage = MsgMissingParam ''key''\<rparr>], toy_state)"
proof -
  have d: "dispatch toy_api (mk_cmd ''press_key'' []) (PStr ''press_key'') (toy_state\<lparr>listening := True\<rparr>) =
      (Inl (KeyError ''key''), toy_state\<lparr>listening := True\<rparr>)"
    by (simp add: dispatch_def ex_lift_def)
  show ?thesis
    using d exec_batch_error_clears_gate [OF mk_cmd_name d] by (simp add: toy_state_def)
qed

text \<open>
  C7. A listen command ends its batch and sets the listening gate; its result is recorded
  only when the gate was not already set (the code returns without a result otherwise).
\<close>

theorem exec_batch_listen:
  "py_getitem c ''command'' = Inr (PStr ''listen'') \<Longrightarrow>
   exec_batch api (c # cs) st =
     (if listening st then (Inr [], st)
      else (Inr [\<lparr>rcommand = PStr ''listen'', rsuccess = True, rmessage = MsgWaitingUser\<rparr>],
            st\<lparr>listening := True\<rparr>))"
  by (simp add: dispatch_listen ex_return_def)

theorem exec_batch_listen_witness:
  "exec_batch toy_api [mk_cmd ''listen'' [], mk_cmd ''press_key'' [(''key'', PStr ''enter'')]] toy_state =
     (Inr [\<lparr>rcommand = PStr ''listen'', rsuccess = True, rmessage = MsgWaitingUser\<rparr>], toy_state\<lparr>listening := True\<rparr>) \<and>
   exec_batch toy_api [mk_cmd ''listen'' []] (toy_state\<lparr>listening := True\<rparr>) = (Inr [], toy_state\<lparr>listening := True\<rparr>)"
  using exec_batch_listen [OF mk_cmd_name, of toy_api "[]" "[mk_cmd ''press_key'' [(''key'', PStr ''enter'')]]" toy_state]
    exec_batch_listen [OF mk_cmd_name, of toy_api "[]" "[]" "toy_state\<lparr>listening := True\<rparr>"]
  by (simp add: toy_state_def)

text \<open>
  C8. A wait command first runs the pending batch to completion and only then sleeps for the
  requested duration, so its sleep follows every action of the commands before it.
\<close>

theorem process_commands_wait_flushes:
  assumes nA: "py_getitem a ''command'' = Inr na" and "na \<noteq> PStr ''wait''"
    and nB: "py_getitem b ''command'' = Inr nb" and "nb \<noteq> PStr ''wait''"
    and nW: "py_getitem w ''command'' = Inr (PStr ''wait'')"
    and secs: "param w ''seconds'' = Inr s" and dur: "py_sleep_arg s = Inr t"
  shows "\<exists>rs st1. exec_batch api [a, b] st = (Inr rs, st1) \<and>
    process_commands api [a, b, w] st =
      (rs @ [\<lparr>rcommand = PStr ''wait'', rsuccess = True, rmessage = MsgWaited s\<rparr>], sleep t st1)"
proof -
  have named: "\<forall>x \<in> set [a, b]. named x" using nA nB by (simp add: named_def)
  obtain rs st1 where eb: "exec_batch api [a, b] st = (Inr rs, st1)"
    using exec_batch_named [OF named] by blast
  have ne: "a \<noteq> w" "b \<noteq> w"
    using neq_by_name [OF nA nW] neq_by_name [OF nB nW] assms by auto
  have ws: "wait_seconds w st1 = (Inr s, sleep t st1)"
    using secs dur by (simp add: wait_seconds_def)
  have "process_commands api [a, b, w] st = proc_loop api w [w] [a, b] [] st"
    using nA nB ne assms by (simp add: process_commands_def proc_loop_defer)
  also have "\<dots> = (rs @ [\<lparr>rcommand = PStr ''wait'', rsuccess = True, rmessage = MsgWaited s\<rparr>], sleep t st1)"
    using proc_loop_wait_ok [OF nW _ ws] eb by (simp add: flush_def)
  finally show ?thesis using eb by blast
qed

theorem process_commands_wait_flushes_witness:
  "process_commands toy_api
     [mk_cmd ''mouse_button'' [(''button'', PStr ''left'')], mk_cmd ''press_key'' [(''key'', PStr ''enter'')],
      mk_cmd ''wait'' [(''seconds'', PInt 2)]] toy_state =
   ([\<lparr>rcommand = PStr ''mouse_button'', rsuccess = True, rmessage = MsgClicked (PStr ''left'')\<rparr>,
     \<lparr>rcommand = PStr ''press_key'', rsuccess = True, rmessage = MsgPressedKey (PStr ''enter'')\<rparr>,
     \<lparr>rcommand = PStr ''wait'', rsuccess = True, rmessage = MsgWaited (PInt 2)\<rparr>],
    toy_state\<lparr>log := [Click (PStr ''left''), Sleep (1/2), Press (PStr ''enter''), Sleep (1/2), Sleep 2]\<rparr>)"
proof -
  have secs: "param (mk_cmd ''wait'' [(''seconds'', PInt 2)]) ''seconds'' = Inr (PInt 2)" by simp
  have dur: "py_sleep_arg (PInt 2) = Inr 2" by (simp add: py_sleep_arg_def)
  have n1: "PStr ''mouse_button'' \<noteq> PStr ''wait''" and n2: "PStr ''press_key'' \<noteq> PStr ''wait''" by simp_all
  obtain rs st1 where eb: "exec_batch toy_api [mk_cmd ''mouse_button'' [(''button'', PStr ''left'')],
        mk_cmd ''press_key'' [(''key'', PStr ''enter'')]] toy_state = (Inr rs, st1)"
      and pc: "process_commands toy_api [mk_cmd ''mouse_button'' [(''button'', PStr ''left'')],
        mk_cmd ''press_key'' [(''key'', PStr ''enter'')], mk_cmd ''wait'' [(''seconds'', PInt 2)]] toy_state =
        (rs @ [\<lparr>rcommand = PStr ''wait'', rsuccess = True, rmessage = MsgWaited (PInt 2)\<rparr>], sleep 2 st1)"
    using process_commands_wait_flushes [OF mk_cmd_name n1 mk_cmd_name n2 mk_cmd_name secs dur] by blast
  have "exec_batch toy_api [mk_cmd ''mouse_button'' [(''button'', PStr ''left'')],
        mk_cmd ''press_key'' [(''key'', PStr ''enter'')]] toy_state =
      (Inr [\<lparr>rcommand = PStr ''mouse_button'', rsuccess = True, rmessage = MsgClicked (PStr ''left'')\<rparr>,
            \<lparr>rcommand = PStr ''press_key'', rsuccess = True, rmessage = MsgPressedKey (PStr ''enter'')\<rparr>],
       toy_state\<lparr>log := [Click (PStr ''left''), Sleep (1/2), Press (PStr ''enter''), Sleep (1/2)]\<rparr>)"
    by (rule exec_batch_ran [OF mk_cmd_name toy_dispatch_click exec_batch_ran [OF mk_cmd_name toy_dispatch_key]])
       (simp add: sleep_def toy_state_def)
  with eb pc show ?thesis by (simp add: sleep_def)
qed

lemma proc_loop_results:
  "proc_loop api l cs b (p @ rs) st = (p @ fst (proc_loop api l cs b rs st), snd (proc_loop api l cs b rs st))"
  by (induction api l cs b rs st rule: proc_loop.induct) (auto simp: Let_def split: prod.split sum.split)

text \<open>
  C9. A wait command whose duration is missing, not a number or negative is recorded as a
  failure and neither sleeps nor touches the executor state or the listening gate (unlike a
  failing command inside a batch, which clears the gate): whatever commands follow it are
  processed from the same state as if it were absent, after its failure result.
\<close>

theorem process_commands_wait_keeps_gate:
  assumes "py_getitem w ''command'' = Inr (PStr ''wait'')"
    and "param w ''seconds'' = Inl e \<or> (param w ''seconds'' = Inr s \<and> py_sleep_arg s = Inl e)"
  shows "process_commands api (w # ds) st =
    (\<lparr>rcommand = PStr ''wait'', rsuccess = False, rmessage = fail_msg e\<rparr> # fst (process_commands api ds st),
     snd (process_commands api ds st))"
proof -
  have "wait_seconds w st = (Inl e, st)" using assms(2) by (auto simp: wait_seconds_def)
  then have "proc_loop api (last (w # ds)) (w # ds) [] [] st =
      proc_loop api (last (w # ds)) ds [] [\<lparr>rcommand = PStr ''wait'', rsuccess = False, rmessage = fail_msg e\<rparr>] st"
    using proc_loop_wait_fail [OF assms(1), of api "[]" st "[]"] by (simp add: flush_def)
  then show ?thesis
    using proc_loop_results[of api "last (w # ds)" ds "[]" "[_]" "[]" st]
    by (cases "ds = []") (simp_all add: process_commands_def flush_def)
qed

theorem process_commands_wait_keeps_gate_witness:
  "process_commands toy_api [mk_cmd ''wait'' [(''seconds'', PInt (-1))], mk_cmd ''press_key'' [(''key'', PStr ''enter'')]]
      (toy_state\<lparr>listening := True\<rparr>) =
     (\<lparr>rcommand = PStr ''wait'', rsuccess = False, rmessage = fail_msg ValueError\<rparr> #
        fst (process_commands toy_api [mk_cmd ''press_key'' [(''key'', PStr ''enter'')]] (toy_state\<lparr>listening := True\<rparr>)),
      snd (process_commands toy_api [mk_cmd ''press_key'' [(''key'', PStr ''enter'')]] (toy_state\<lparr>listening := True\<rparr>)))"
  by (rule process_commands_wait_keeps_gate [where s = "PInt (-1)"]) (simp_all add: py_sleep_arg_def)

text \<open>
  C10. A command equal by value to the last command flushes the batch early, since the code
  tests the last position with == on dicts: in [a, u, b, a] with u unknown, the first a
  runs alone, the unknown u then ends the batch [u, b, a], and b and the final a never run.
\<close>

theorem process_commands_last_equal_early_flush:
  assumes nA: "py_getitem a ''command'' = Inr na" and "na \<noteq> PStr ''wait''"
    and runA: "exec_batch api [a] st = (Inr ra, st1)"
    and nU: "py_getitem u ''command'' = Inr nu" and "nu \<notin> set vocabulary" and "nu \<noteq> PStr ''wait''"
    and nB: "py_getitem b ''command'' = Inr nb" and "nb \<noteq> PStr ''wait''"
    and "u \<noteq> a" and "b \<noteq> a"
  shows "process_commands api [a, u, b, a] st =
    (ra @ [\<lparr>rcommand = nu, rsuccess = False, rmessage = MsgUnknown nu\<rparr>], st1)"
proof -
  have "exec_batch api [u, b, a] st1 = (Inr [\<lparr>rcommand = nu, rsuccess = False, rmessage = MsgUnknown nu\<rparr>], st1)"
    using exec_batch_unknown_stops [OF nU \<open>nu \<notin> set vocabulary\<close>] by simp
  then show ?thesis
    using assms by (simp add: process_commands_def proc_loop_defer proc_loop_flush flush_def)
qed

theorem process_commands_last_equal_early_flush_witness:
  "process_commands toy_api
     [mk_cmd ''mouse_button'' [(''button'', PStr ''left'')], mk_cmd ''fly'' [],
      mk_cmd ''press_key'' [(''key'', PStr ''enter'')], mk_cmd ''mouse_button'' [(''button'', PStr ''left'')]]
     toy_state =
   ([\<lparr>rcommand = PStr ''mouse_button'', rsuccess = True, rmessage = MsgClicked (PStr ''left'')\<rparr>,
     \<lparr>rcommand = PStr ''fly'', rsuccess = False, rmessage = MsgUnknown (PStr ''fly'')\<rparr>],
    toy_state\<lparr>log := [Click (PStr ''left''), Sleep (1/2)]\<rparr>)"
proof -
  have ea: "exec_batch toy_api [mk_cmd ''mouse_button'' [(''button'', PStr ''left'')]] toy_state =
      (Inr [\<lparr>rcommand = PStr ''mouse_button'', rsuccess = True, rmessage = MsgClicked (PStr ''left'')\<rparr>],
       toy_state\<lparr>log := [Click (PStr ''left''), Sleep (1/2)]\<rparr>)"
    by (rule exec_batch_ran [OF mk_cmd_name toy_dispatch_click]) (simp add: sleep_def toy_state_def)
  have "PStr ''fly'' \<notin> set vocabulary" by (simp add: vocabulary_def)
  from process_commands_last_equal_early_flush [OF mk_cmd_name _ ea mk_cmd_name this _ mk_cmd_name]
  show ?thesis by simp
qed

end
