(* ===== verification/Grid.thy ===== *)
theory Grid
  imports Prelude Complex_Main
begin

text \<open>
  The grid partition of src/services/screenshot_module.py (\<open>save_screenshot_with_grid\<close>)
  and the lookups over it: \<open>move_cursor_to_cell\<close> (screenshot_module.py),
  \<open>get_cell_center_coordinates\<close> (find_ui.py) and the cursor-cell search. Screen sizes
  and pixel positions are \<open>nat\<close>, as the code's non-negative ints are; the code's float
  arithmetic (\<open>width / height\<close>, \<open>np.sqrt\<close>, \<open>int(...)\<close>) is read exactly, as
  integer division and the integer square root; \<open>grid_rows_real\<close> shows that this is the
  floor of the real expression.

  The lemmas show: the row/column loop ends with at least 500 cells; the cells are numbered
  \<open>1..rows*cols\<close> in row-major order; looking up an index gives that cell's centre exactly
  when it is in range; the cell containing a point is found by division, with half-open
  bounds; and the cells cover the screen only when the cell size divides it.
\<close>

record grid_cell =
  cell_index :: nat
  cell_x :: nat
  cell_y :: nat
  cell_width :: nat
  cell_height :: nat
  center_x :: nat
  center_y :: nat

text \<open>\<open>int(np.sqrt(v))\<close> for a non-negative integer \<open>v\<close>: the largest \<open>r\<close> with \<open>r * r \<le> v\<close>.\<close>

function sqrt_from :: "nat \<Rightarrow> nat \<Rightarrow> nat" where
  "sqrt_from v r = (if v < Suc r * Suc r then r else sqrt_from v (Suc r))"
  by pat_completeness auto
termination
  by (relation "measure (\<lambda>(v, r). Suc v - r)") (auto simp: le_square order_less_le_trans)

definition floor_sqrt :: "nat \<Rightarrow> nat" where
  "floor_sqrt v = sqrt_from v 0"

text \<open>
  \<open>aspect_ratio = width / height; num_rows = int(np.sqrt(num_cells / aspect_ratio));
  num_cols = int(num_rows * aspect_ratio)\<close>.
\<close>

definition grid_rows0 :: "nat \<Rightarrow> nat \<Rightarrow> nat \<Rightarrow> nat" where
  "grid_rows0 w h num_cells = floor_sqrt (num_cells * h div w)"

definition grid_cols0 :: "nat \<Rightarrow> nat \<Rightarrow> nat \<Rightarrow> nat" where
  "grid_cols0 w h rows = rows * w div h"

text \<open>\<open>while num_rows * num_cols < 500: num_rows += 1; num_cols += 1\<close>.\<close>

function grow_grid :: "nat \<Rightarrow> nat \<Rightarrow> nat \<times> nat" where
  "grow_grid rows cols = (if rows * cols < 500 then grow_grid (Suc rows) (Suc cols) else (rows, cols))"
  by pat_completeness auto
termination
  by (relation "measure (\<lambda>(rows, cols). 500 - rows * cols)") (auto simp: diff_less_mono2)

text \<open>
  The grid dimensions; a zero width or height makes the code divide by zero
  (\<open>ZeroDivisionError\<close>), which is \<open>None\<close> here.
\<close>

definition grid_dims :: "nat \<Rightarrow> nat \<Rightarrow> nat \<Rightarrow> (nat \<times> nat) option" where
  "grid_dims w h num_cells =
     (if w = 0 \<or> h = 0 then None
      else let rows = grid_rows0 w h num_cells in Some (grow_grid rows (grid_cols0 w h rows)))"

text \<open>One cell of the double loop \<open>for row in range(num_rows): for col in range(num_cols)\<close>.\<close>

definition make_cell :: "nat \<Rightarrow> nat \<Rightarrow> nat \<Rightarrow> nat \<Rightarrow> nat \<Rightarrow> grid_cell" where
  "make_cell cols cw ch row col =
     (let x1 = col * cw; y1 = row * ch
      in \<lparr>cell_index = row * cols + col + 1, cell_x = x1, cell_y = y1, cell_width = cw,
          cell_height = ch, center_x = x1 + cw div 2, center_y = y1 + ch div 2\<rparr>)"

definition grid_cells_of :: "nat \<Rightarrow> nat \<Rightarrow> nat \<Rightarrow> nat \<Rightarrow> grid_cell list" where
  "grid_cells_of rows cols cw ch = concat (map (\<lambda>row. map (make_cell cols cw ch row) [0..<cols]) [0..<rows])"

text \<open>\<open>grid_info\<close> for a \<open>w \<times> h\<close> screenshot: \<open>cell_width = width // num_cols\<close>.\<close>

definition grid_info :: "nat \<Rightarrow> nat \<Rightarrow> nat \<Rightarrow> grid_cell list option" where
  "grid_info w h num_cells =
     map_option (\<lambda>(rows, cols). grid_cells_of rows cols (w div cols) (h div rows)) (grid_dims w h num_cells)"

text \<open>The half-open test \<open>cell['x'] <= x < cell['x'] + cell['width']\<close> (and for \<open>y\<close>).\<close>

definition in_cell :: "nat \<Rightarrow> nat \<Rightarrow> grid_cell \<Rightarrow> bool" where
  "in_cell x y c \<longleftrightarrow> cell_x c \<le> x \<and> x < cell_x c + cell_width c \<and> cell_y c \<le> y \<and> y < cell_y c + cell_height c"

text \<open>The cursor-cell search of \<open>save_screenshot_with_grid\<close>: the first cell containing the point.\<close>

definition cell_containing :: "grid_cell list \<Rightarrow> nat \<Rightarrow> nat \<Rightarrow> grid_cell option" where
  "cell_containing cells x y = find (in_cell x y) cells"

text \<open>
  \<open>get_cell_center_coordinates(cell_number)\<close> (find_ui.py) and the lookup of
  \<open>move_cursor_to_cell\<close> (screenshot_module.py): the first cell with that index.
\<close>

definition cell_center :: "grid_cell list \<Rightarrow> nat \<Rightarrow> (nat \<times> nat) option" where
  "cell_center cells n = map_option (\<lambda>c. (center_x c, center_y c)) (find (\<lambda>c. cell_index c = n) cells)"

subsection \<open>The partition\<close>

declare sqrt_from.simps [simp del] grow_grid.simps [simp del]

lemma sqrt_from_spec:
  "r * r \<le> v \<Longrightarrow> sqrt_from v r * sqrt_from v r \<le> v \<and> v < Suc (sqrt_from v r) * Suc (sqrt_from v r)"
proof (induction v r rule: sqrt_from.induct)
  case (1 v r)
  show ?case
  proof (cases "v < Suc r * Suc r")
    case True
    then show ?thesis using "1.prems" by (simp add: sqrt_from.simps[of v r])
  next
    case False
    then show ?thesis using "1.IH" by (simp add: sqrt_from.simps[of v r] del: mult_Suc mult_Suc_right)
  qed
qed

lemma floor_sqrt_spec:
  "floor_sqrt v * floor_sqrt v \<le> v \<and> v < Suc (floor_sqrt v) * Suc (floor_sqrt v)"
  unfolding floor_sqrt_def by (rule sqrt_from_spec) simp

lemma floor_sqrt_unique:
  assumes "r * r \<le> v" "v < Suc r * Suc r"
  shows "floor_sqrt v = r"
proof -
  let ?s = "floor_sqrt v"
  have s: "?s * ?s \<le> v" "v < Suc ?s * Suc ?s" using floor_sqrt_spec by auto
  have "\<not> ?s < r"
  proof
    assume "?s < r"
    then have "Suc ?s * Suc ?s \<le> r * r" by (metis Suc_leI mult_le_mono)
    then show False using s assms by linarith
  qed
  moreover have "\<not> r < ?s"
  proof
    assume "r < ?s"
    then have "Suc r * Suc r \<le> ?s * ?s" by (metis Suc_leI mult_le_mono)
    then show False using s assms by linarith
  qed
  ultimately show ?thesis by simp
qed

lemma floor_sqrt_real:
  assumes "0 \<le> x"
  shows "nat \<lfloor>sqrt x\<rfloor> = floor_sqrt (nat \<lfloor>x\<rfloor>)"
proof -
  let ?k = "nat \<lfloor>x\<rfloor>"
  let ?r = "floor_sqrt ?k"
  have s: "?r * ?r \<le> ?k" "?k < Suc ?r * Suc ?r" using floor_sqrt_spec by auto
  have kx: "real ?k \<le> x" "x < real ?k + 1" using assms by linarith+
  have "real ?r * real ?r \<le> x" using s(1) kx(1)
    by (metis of_nat_le_iff of_nat_mult order_trans)
  then have lo: "real ?r \<le> sqrt x" by (simp add: real_le_rsqrt power2_eq_square)
  have "real ?k + 1 \<le> real (Suc ?r * Suc ?r)" using s(2) by linarith
  then have "x < (real ?r + 1) ^ 2" using kx(2) by (simp add: power2_eq_square algebra_simps)
  then have hi: "sqrt x < real ?r + 1" by (simp add: real_less_lsqrt)
  have "\<lfloor>sqrt x\<rfloor> = int ?r" using lo hi by linarith
  then show ?thesis by simp
qed

lemma grid_rows_real:
  assumes "0 < w" "0 < h"
  shows "grid_rows0 w h n = nat \<lfloor>sqrt (real n / (real w / real h))\<rfloor>"
proof -
  have "real n / (real w / real h) = real (n * h) / real w" using assms by simp
  moreover have "nat \<lfloor>real (n * h) / real w\<rfloor> = n * h div w"
    by (simp only: floor_divide_of_nat_eq)
  ultimately show ?thesis
    by (simp add: grid_rows0_def floor_sqrt_real)
qed

lemma grid_cols_real:
  "grid_cols0 w h r = nat \<lfloor>real r * (real w / real h)\<rfloor>"
proof -
  have "real r * (real w / real h) = real (r * w) / real h" by simp
  then show ?thesis by (simp only: grid_cols0_def floor_divide_of_nat_eq)
qed

lemma grow_grid_spec:
  "\<exists>k. grow_grid r c = (r + k, c + k) \<and> 500 \<le> (r + k) * (c + k) \<and> (\<forall>j<k. (r + j) * (c + j) < 500)"
proof (induction r c rule: grow_grid.induct)
  case (1 r c)
  show ?case
  proof (cases "r * c < 500")
    case True
    then obtain k where k: "grow_grid (Suc r) (Suc c) = (Suc r + k, Suc c + k)"
        "500 \<le> (Suc r + k) * (Suc c + k)" "\<forall>j<k. (Suc r + j) * (Suc c + j) < 500"
      using "1.IH" by blast
    have "\<forall>j<Suc k. (r + j) * (c + j) < 500"
    proof (intro allI impI)
      fix j assume "j < Suc k"
      then show "(r + j) * (c + j) < 500" using True k(3) by (cases j) auto
    qed
    then show ?thesis using True k(1,2) by (intro exI[of _ "Suc k"]) (simp add: grow_grid.simps[of r c])
  next
    case False
    then show ?thesis by (intro exI[of _ 0]) (simp add: grow_grid.simps[of r c])
  qed
qed

lemma grid_cells_upt:
  "grid_cells_of rows cols cw ch = map (\<lambda>i. make_cell cols cw ch (i div cols) (i mod cols)) [0..<rows * cols]"
proof (induction rows)
  case 0
  then show ?case by (simp add: grid_cells_of_def)
next
  case (Suc rows)
  have "[0..<Suc rows * cols] = [0..<rows * cols] @ [rows * cols..<cols + rows * cols]"
    using upt_add_eq_append[of 0 "rows * cols" cols] by (simp add: add.commute[of cols])
  also have "[rows * cols..<cols + rows * cols] = map (\<lambda>j. j + rows * cols) [0..<cols]"
    by (rule map_add_upt[symmetric])
  finally have "[0..<Suc rows * cols] = [0..<rows * cols] @ map (\<lambda>j. j + rows * cols) [0..<cols]" .
  moreover have "map (\<lambda>i. make_cell cols cw ch (i div cols) (i mod cols)) (map (\<lambda>j. j + rows * cols) [0..<cols])
      = map (make_cell cols cw ch rows) [0..<cols]"
    by simp
  ultimately show ?case using Suc by (simp add: grid_cells_of_def)
qed

lemma make_cell_index [simp]: "j < cols \<Longrightarrow> cell_index (make_cell cols cw ch i j) = i * cols + j + 1"
  by (simp add: make_cell_def Let_def)

lemma make_cell_upt_index [simp]: "cell_index (make_cell cols cw ch (i div cols) (i mod cols)) = Suc i"
  by (simp add: make_cell_def Let_def)

lemma find_upt_eq: "find (\<lambda>i. i = m) [0..<n] = (if m < n then Some m else None)"
  by (induction n) (auto simp: find_append_split)

lemma find_map_upt:
  "(\<And>i. i < n \<Longrightarrow> P (f i) \<longleftrightarrow> i = m) \<Longrightarrow> find P (map f [0..<n]) = (if m < n then Some (f m) else None)"
proof -
  assume eq: "\<And>i. i < n \<Longrightarrow> P (f i) \<longleftrightarrow> i = m"
  have "find (P \<circ> f) [0..<n] = find (\<lambda>i. i = m) [0..<n]"
    by (rule find_cong) (auto simp: eq)
  then show ?thesis by (simp add: find_upt_eq)
qed

lemma grid_cells_index: "map cell_index (grid_cells_of rows cols cw ch) = [1..<rows * cols + 1]"
  by (simp add: grid_cells_upt comp_def map_Suc_upt)

lemma cell_center_grid:
  "cell_center (grid_cells_of rows cols cw ch) n =
     (if 1 \<le> n \<and> n \<le> rows * cols
      then Some ((n - 1) mod cols * cw + cw div 2, (n - 1) div cols * ch + ch div 2) else None)"
proof -
  have "find (\<lambda>c. cell_index c = n) (grid_cells_of rows cols cw ch) =
      (if n - 1 < rows * cols \<and> 1 \<le> n then Some (make_cell cols cw ch ((n - 1) div cols) ((n - 1) mod cols)) else None)"
  proof (cases "1 \<le> n")
    case True
    then show ?thesis unfolding grid_cells_upt by (subst find_map_upt[where m = "n - 1"]) auto
  next
    case False
    then show ?thesis by (simp add: grid_cells_upt find_None_iff)
  qed
  then show ?thesis by (auto simp: cell_center_def make_cell_def Let_def)
qed

lemma div_window [grid_simps]:
  assumes "0 < (d::nat)"
  shows "(a * d \<le> x \<and> x < a * d + d) \<longleftrightarrow> x div d = a"
proof
  assume "a * d \<le> x \<and> x < a * d + d"
  then show "x div d = a" by (intro div_nat_eqI) (auto simp: mult.commute)
next
  assume q: "x div d = a"
  have "x = a * d + x mod d" using q by (metis div_mult_mod_eq)
  then show "a * d \<le> x \<and> x < a * d + d" using mod_less_divisor[OF assms, of x] by linarith
qed

lemma row_major_less [grid_simps]:
  assumes "a < (c::nat)"
  shows "b * c + a < r * c \<longleftrightarrow> b < r"
proof
  assume "b * c + a < r * c"
  then have "b * c < r * c" by linarith
  then show "b < r" by simp
next
  assume "b < r"
  then have "b * c + c \<le> r * c" by (metis Suc_leI mult_Suc mult_le_mono1 add.commute)
  then show "b * c + a < r * c" using assms by linarith
qed

lemma in_cell_upt:
  assumes "0 < cw" "0 < ch" "0 < cols"
  shows "in_cell x y (make_cell cols cw ch (i div cols) (i mod cols)) \<longleftrightarrow>
           i = y div ch * cols + x div cw \<and> x div cw < cols"
proof -
  have "in_cell x y (make_cell cols cw ch (i div cols) (i mod cols)) \<longleftrightarrow>
          x div cw = i mod cols \<and> y div ch = i div cols"
    using div_window[OF assms(1), of "i mod cols" x] div_window[OF assms(2), of "i div cols" y]
    by (auto simp: in_cell_def make_cell_def Let_def)
  also have "\<dots> \<longleftrightarrow> i = y div ch * cols + x div cw \<and> x div cw < cols"
  proof
    assume "x div cw = i mod cols \<and> y div ch = i div cols"
    then show "i = y div ch * cols + x div cw \<and> x div cw < cols" using assms(3) by simp
  next
    assume "i = y div ch * cols + x div cw \<and> x div cw < cols"
    then show "x div cw = i mod cols \<and> y div ch = i div cols" by simp
  qed
  finally show ?thesis .
qed

lemma cell_containing_grid:
  assumes "0 < cw" "0 < ch"
  shows "cell_containing (grid_cells_of rows cols cw ch) x y =
           (if x < cols * cw \<and> y < rows * ch then Some (make_cell cols cw ch (y div ch) (x div cw)) else None)"
proof (cases "0 < cols \<and> x div cw < cols")
  case True
  let ?m = "y div ch * cols + x div cw"
  have "cell_containing (grid_cells_of rows cols cw ch) x y =
          (if ?m < rows * cols then Some (make_cell cols cw ch (?m div cols) (?m mod cols)) else None)"
    unfolding cell_containing_def grid_cells_upt
    by (rule find_map_upt) (use True in_cell_upt[OF assms] in blast)
  moreover have "?m < rows * cols \<longleftrightarrow> y < rows * ch"
    using row_major_less[of "x div cw" cols "y div ch" rows] True assms(2) by (simp add: div_less_iff_less_mult)
  moreover have "x < cols * cw" using True assms(1) by (simp add: div_less_iff_less_mult mult.commute)
  ultimately show ?thesis using True by simp
next
  case False
  then have "\<not> x < cols * cw" using assms(1) by (auto simp: div_less_iff_less_mult mult.commute)
  moreover have "cell_containing (grid_cells_of rows cols cw ch) x y = None"
    unfolding cell_containing_def grid_cells_upt find_None_iff
  proof (rule notI, elim exE conjE)
    fix c assume "c \<in> set (map (\<lambda>i. make_cell cols cw ch (i div cols) (i mod cols)) [0..<rows * cols])"
      and c: "in_cell x y c"
    then obtain i where i: "i < rows * cols" "c = make_cell cols cw ch (i div cols) (i mod cols)" by auto
    then have "0 < cols" by (cases cols) auto
    then show False using False c i in_cell_upt[OF assms] by auto
  qed
  ultimately show ?thesis by simp
qed

lemma in_cell_empty: "cell_width c = 0 \<or> cell_height c = 0 \<Longrightarrow> \<not> in_cell x y c"
  by (auto simp: in_cell_def)

lemma cell_containing_found:
  "cell_containing (grid_cells_of rows cols cw ch) x y \<noteq> None \<longleftrightarrow> x < cols * cw \<and> y < rows * ch"
proof (cases "0 < cw \<and> 0 < ch")
  case True
  then show ?thesis by (simp add: cell_containing_grid)
next
  case False
  then have "cw = 0 \<or> ch = 0" by auto
  then have "cell_containing (grid_cells_of rows cols cw ch) x y = None"
    unfolding cell_containing_def find_None_iff grid_cells_upt
    by (auto intro!: in_cell_empty simp: make_cell_def Let_def)
  then show ?thesis using \<open>cw = 0 \<or> ch = 0\<close> by auto
qed

lemma grid_cells_disjoint:
  assumes "c1 \<in> set (grid_cells_of rows cols cw ch)" "c2 \<in> set (grid_cells_of rows cols cw ch)"
    and "in_cell x y c1" "in_cell x y c2"
  shows "c1 = c2"
proof -
  obtain i j where ij: "i < rows * cols" "j < rows * cols"
      "c1 = make_cell cols cw ch (i div cols) (i mod cols)" "c2 = make_cell cols cw ch (j div cols) (j mod cols)"
    using assms(1,2) by (auto simp: grid_cells_upt)
  have pos: "0 < cw" "0 < ch" using assms(3) ij(3) by (auto simp: in_cell_def make_cell_def Let_def)
  have "0 < cols" using ij(1) by (cases cols) auto
  then show ?thesis using ij assms(3,4) in_cell_upt[OF pos] by auto
qed

lemma grid_dims_Some:
  assumes "grid_dims w h n = Some (r, c)"
  shows "0 < w \<and> 0 < h \<and> 500 \<le> r * c"
  using assms grow_grid_spec[of "grid_rows0 w h n" "grid_cols0 w h (grid_rows0 w h n)"]
  by (auto simp: grid_dims_def Let_def split: if_splits)

lemma grid_info_Some:
  "grid_dims w h n = Some (r, c) \<Longrightarrow> grid_info w h n = Some (grid_cells_of r c (w div c) (h div r))"
  by (simp add: grid_info_def)

lemma grid_info_cells:
  "grid_info w h n = Some cells \<Longrightarrow> \<exists>r c. grid_dims w h n = Some (r, c) \<and> cells = grid_cells_of r c (w div c) (h div r)"
  by (auto simp: grid_info_def)

lemma grid_cells_area:
  "sum_list (map (\<lambda>cell. cell_width cell * cell_height cell) (grid_cells_of rows cols cw ch)) = (cols * cw) * (rows * ch)"
  by (simp add: grid_cells_upt make_cell_def Let_def comp_def sum_list_triv)

lemma bounded_product_eq:
  assumes "(a::nat) \<le> w" "b \<le> h" "0 < w" "0 < h"
  shows "a * b = w * h \<longleftrightarrow> a = w \<and> b = h"
proof
  assume eq: "a * b = w * h"
  show "a = w \<and> b = h"
  proof (rule ccontr)
    assume "\<not> (a = w \<and> b = h)"
    then have "a < w \<or> b < h" using assms(1,2) by linarith
    then have "a * b < w * h"
    proof
      assume "a < w"
      have "a * b \<le> a * h" using assms(2) by (rule mult_le_mono2)
      also have "\<dots> < w * h" using \<open>a < w\<close> assms(4) by simp
      finally show ?thesis .
    next
      assume "b < h"
      have "a * b \<le> w * b" using assms(1) by (rule mult_le_mono1)
      also have "\<dots> < w * h" using \<open>b < h\<close> assms(3) by simp
      finally show ?thesis .
    qed
    then show False using eq by simp
  qed
qed simp

lemma least_grow_unique:
  "500 \<le> f (k::nat) \<Longrightarrow> \<forall>j<k. f j < (500::nat) \<Longrightarrow> 500 \<le> f k' \<Longrightarrow> \<forall>j<k'. f j < 500 \<Longrightarrow> k = k'"
  by (cases k k' rule: linorder_cases) auto

lemma mult_div_self_iff [grid_simps]: "c * (w div c) = w \<longleftrightarrow> (c::nat) dvd w"
  by (metis dvd_mult_div_cancel dvd_triv_left)

lemma grid_rows_example: "grid_rows0 1920 1080 1000 = 23"
  by (simp add: grid_rows0_def floor_sqrt_unique)

lemma grid_cells_within:
  assumes "cell \<in> set (grid_cells_of rows cols cw ch)"
  shows "cell_x cell + cell_width cell \<le> cols * cw \<and> cell_y cell + cell_height cell \<le> rows * ch"
proof -
  obtain i where i: "i < rows * cols" "cell = make_cell cols cw ch (i div cols) (i mod cols)"
    using assms by (auto simp: grid_cells_upt)
  have "0 < cols" using i(1) by (cases cols) auto
  then have "Suc (i mod cols) \<le> cols" "Suc (i div cols) \<le> rows"
    using i(1) by (simp_all add: Suc_leI div_less_iff_less_mult)
  then have "Suc (i mod cols) * cw \<le> cols * cw" "Suc (i div cols) * ch \<le> rows * ch"
    by (simp_all only: mult_le_mono1)
  then show ?thesis using i(2) by (simp add: make_cell_def Let_def add.commute)
qed

lemma cell_containing_any:
  "cell_containing (grid_cells_of rows cols cw ch) x y =
     (if x < cols * cw \<and> y < rows * ch then Some (make_cell cols cw ch (y div ch) (x div cw)) else None)"
proof (cases "0 < cw \<and> 0 < ch")
  case True
  then show ?thesis by (simp add: cell_containing_grid)
next
  case False
  then show ?thesis using cell_containing_found[of rows cols cw ch x y] by auto
qed

lemma grid_cells_length: "length (grid_cells_of rows cols cw ch) = rows * cols"
  by (simp add: grid_cells_upt)

lemma grid_cells_mem:
  "i < rows * cols \<Longrightarrow> make_cell cols cw ch (i div cols) (i mod cols) \<in> set (grid_cells_of rows cols cw ch)"
  by (simp add: grid_cells_upt)

lemma grid_cells_hd: "0 < rows * cols \<Longrightarrow> hd (grid_cells_of rows cols cw ch) = make_cell cols cw ch 0 0"
  by (simp add: grid_cells_upt upt_conv_Cons del: upt_rec_numeral)

lemma grid_dims_example: "grid_dims 1920 1080 1000 = Some (23, 40)"
proof -
  have "grid_cols0 1920 1080 23 = 40" by (simp add: grid_cols0_def)
  moreover have "grow_grid 23 40 = (23, 40)" by (simp add: grow_grid.simps[of 23 40])
  ultimately show ?thesis by (simp add: grid_dims_def grid_rows_example)
qed

lemma grid_info_example: "grid_info 1920 1080 1000 = Some (grid_cells_of 23 40 48 46)"
  using grid_info_Some[OF grid_dims_example] by simp

text \<open>C11. The loop ends with at least 500 cells, after the fewest joint increments.\<close>

lemma grid_dims_spec:
  "grid_dims w h n = Some (r, c) \<longleftrightarrow>
     0 < w \<and> 0 < h \<and>
     (\<exists>k. r = grid_rows0 w h n + k \<and> c = grid_cols0 w h (grid_rows0 w h n) + k \<and> 500 \<le> r * c \<and>
          (\<forall>j<k. (grid_rows0 w h n + j) * (grid_cols0 w h (grid_rows0 w h n) + j) < 500))"
proof -
  define r0 where "r0 = grid_rows0 w h n"
  define c0 where "c0 = grid_cols0 w h r0"
  obtain k where k: "grow_grid r0 c0 = (r0 + k, c0 + k)" "500 \<le> (r0 + k) * (c0 + k)"
      "\<forall>j<k. (r0 + j) * (c0 + j) < 500"
    using grow_grid_spec by blast
  have eq: "grid_dims w h n = (if w = 0 \<or> h = 0 then None else Some (r0 + k, c0 + k))"
    using k(1) by (simp add: grid_dims_def Let_def r0_def c0_def)
  have "grid_dims w h n = Some (r, c) \<longleftrightarrow>
          0 < w \<and> 0 < h \<and> (\<exists>k. r = r0 + k \<and> c = c0 + k \<and> 500 \<le> r * c \<and> (\<forall>j<k. (r0 + j) * (c0 + j) < 500))"
  proof
    assume "grid_dims w h n = Some (r, c)"
    then have "0 < w \<and> 0 < h \<and> r = r0 + k \<and> c = c0 + k" using eq by (simp split: if_splits)
    then show "0 < w \<and> 0 < h \<and> (\<exists>k. r = r0 + k \<and> c = c0 + k \<and> 500 \<le> r * c \<and> (\<forall>j<k. (r0 + j) * (c0 + j) < 500))"
      using k(2,3) by blast
  next
    assume "0 < w \<and> 0 < h \<and> (\<exists>k. r = r0 + k \<and> c = c0 + k \<and> 500 \<le> r * c \<and> (\<forall>j<k. (r0 + j) * (c0 + j) < 500))"
    then obtain k' where k': "0 < w" "0 < h" "r = r0 + k'" "c = c0 + k'" "500 \<le> r * c"
        "\<forall>j<k'. (r0 + j) * (c0 + j) < 500" by blast
    have "k = k'"
      using least_grow_unique[of "\<lambda>j. (r0 + j) * (c0 + j)" k k'] k(2,3) k' by simp
    then show "grid_dims w h n = Some (r, c)" using eq k' by simp
  qed
  then show ?thesis by (simp only: r0_def c0_def)
qed

lemma grid_dims_spec_witness: "grid_dims 1920 1080 1000 = Some (23, 40)"
  using grid_dims_spec[of 1920 1080 1000 23 40]
  by (simp add: grid_rows_example grid_cols0_def)

text \<open>The cells' areas add up to the screen exactly when the cell size divides it.\<close>

theorem grid_info_area:
  assumes "grid_dims w h n = Some (r, c)"
  shows "grid_info w h n = Some cells \<Longrightarrow>
           sum_list (map (\<lambda>cell. cell_width cell * cell_height cell) cells) = w * h \<longleftrightarrow> c dvd w \<and> r dvd h"
proof -
  assume "grid_info w h n = Some cells"
  then have cells: "cells = grid_cells_of r c (w div c) (h div r)" using grid_info_Some[OF assms] by simp
  have pos: "0 < w" "0 < h" using grid_dims_Some[OF assms] by auto
  have "c * (w div c) \<le> w" "r * (h div r) \<le> h" by (simp_all add: mult.commute[of c] mult.commute[of r])
  then have "(c * (w div c)) * (r * (h div r)) = w * h \<longleftrightarrow> c * (w div c) = w \<and> r * (h div r) = h"
    using bounded_product_eq pos by blast
  then show ?thesis by (simp add: cells grid_cells_area mult_div_self_iff)
qed

lemma grid_info_area_witness:
  "sum_list (map (\<lambda>cell. cell_width cell * cell_height cell) (grid_cells_of 23 40 48 46)) \<noteq> 1920 * 1080"
  using grid_info_area[OF grid_dims_example grid_info_example] by simp

text \<open>The cells are numbered \<open>1..rows*cols\<close>, contiguously and in row-major order.\<close>

theorem grid_info_indices:
  assumes "grid_dims w h n = Some (r, c)" "grid_info w h n = Some cells"
  shows "map cell_index cells = [1..<r * c + 1]"
proof -
  have cells: "cells = grid_cells_of r c (w div c) (h div r)" using assms(2) grid_info_Some[OF assms(1)] by simp
  show ?thesis unfolding cells by (rule grid_cells_index)
qed

lemma grid_info_indices_witness:
  "map cell_index (the (grid_info 1920 1080 1000)) = [1..<23 * 40 + 1]"
  using grid_info_indices[OF grid_dims_example grid_info_Some[OF grid_dims_example]]
  by (simp only: grid_info_Some[OF grid_dims_example] option.sel)

text \<open>C14. A cell number resolves to its cell's centre when it is in range, to nothing otherwise.\<close>

theorem grid_info_cell_center:
  assumes "grid_dims w h n = Some (r, c)" "grid_info w h n = Some cells"
  shows "cell_center cells k =
           (if 1 \<le> k \<and> k \<le> r * c
            then Some ((k - 1) mod c * (w div c) + w div c div 2, (k - 1) div c * (h div r) + h div r div 2)
            else None)"
proof -
  have cells: "cells = grid_cells_of r c (w div c) (h div r)" using assms(2) grid_info_Some[OF assms(1)] by simp
  show ?thesis unfolding cells by (rule cell_center_grid)
qed

lemma grid_info_cell_center_witness:
  "cell_center (grid_cells_of 23 40 48 46) 41 = Some (24, 69) \<and> cell_center (grid_cells_of 23 40 48 46) 921 = None"
  using grid_info_cell_center[OF grid_dims_example grid_info_Some[OF grid_dims_example], of 41]
    grid_info_cell_center[OF grid_dims_example grid_info_Some[OF grid_dims_example], of 921]
  by simp

text \<open>C13. The cell containing a point is found by division, with half-open bounds.\<close>

theorem grid_info_cell_containing:
  assumes "grid_dims w h n = Some (r, c)" "grid_info w h n = Some cells"
  shows "cell_containing cells x y =
           (if x < c * (w div c) \<and> y < r * (h div r)
            then Some (make_cell c (w div c) (h div r) (y div (h div r)) (x div (w div c))) else None)"
proof -
  have cells: "cells = grid_cells_of r c (w div c) (h div r)" using assms(2) grid_info_Some[OF assms(1)] by simp
  show ?thesis unfolding cells by (rule cell_containing_any)
qed

lemma grid_info_cell_containing_witness:
  "map_option cell_index (cell_containing (grid_cells_of 23 40 48 46) 48 0) = Some 2 \<and>
   cell_containing (grid_cells_of 23 40 48 46) 0 1079 = None"
  using grid_info_cell_containing[OF grid_dims_example grid_info_Some[OF grid_dims_example], of 48 0]
    grid_info_cell_containing[OF grid_dims_example grid_info_Some[OF grid_dims_example], of 0 1079]
  by simp

text \<open>C16. No point lies in two different cells.\<close>

theorem grid_info_disjoint:
  assumes "grid_info w h n = Some cells" "c1 \<in> set cells" "c2 \<in> set cells"
    and "in_cell x y c1" "in_cell x y c2"
  shows "c1 = c2"
  using assms grid_info_cells grid_cells_disjoint by blast

lemma grid_info_disjoint_witness:
  "in_cell 48 0 (make_cell 40 48 46 0 1) \<and> \<not> in_cell 48 0 (make_cell 40 48 46 0 0)"
proof -
  have m: "make_cell 40 48 46 0 0 \<in> set (grid_cells_of 23 40 48 46)"
      "make_cell 40 48 46 0 1 \<in> set (grid_cells_of 23 40 48 46)"
    using grid_cells_mem[of 0 23 40 48 46] grid_cells_mem[of 1 23 40 48 46] by simp_all
  have c1: "in_cell 48 0 (make_cell 40 48 46 0 1)" by (simp add: in_cell_def make_cell_def)
  have "\<not> in_cell 48 0 (make_cell 40 48 46 0 0)"
  proof
    assume "in_cell 48 0 (make_cell 40 48 46 0 0)"
    then have "make_cell 40 48 46 0 0 = make_cell 40 48 46 0 1"
      using grid_info_disjoint[OF grid_info_example m] c1 by blast
    then show False by (simp add: make_cell_def)
  qed
  then show ?thesis using c1 by blast
qed

text \<open>Every cell lies within the screenshot.\<close>

theorem grid_info_within_screen:
  assumes "grid_info w h n = Some cells" "cell \<in> set cells"
  shows "cell_x cell + cell_width cell \<le> w \<and> cell_y cell + cell_height cell \<le> h"
proof -
  obtain r c where rc: "grid_dims w h n = Some (r, c)" "cells = grid_cells_of r c (w div c) (h div r)"
    using grid_info_cells[OF assms(1)] by blast
  have "c * (w div c) \<le> w" "r * (h div r) \<le> h" by (simp_all add: mult.commute[of c] mult.commute[of r])
  moreover have "cell \<in> set (grid_cells_of r c (w div c) (h div r))" using assms(2) rc(2) by simp
  then have "cell_x cell + cell_width cell \<le> c * (w div c)" "cell_y cell + cell_height cell \<le> r * (h div r)"
    using grid_cells_within by blast+
  ultimately show ?thesis by linarith
qed

lemma grid_info_within_screen_witness:
  "cell_x (make_cell 40 48 46 22 39) + cell_width (make_cell 40 48 46 22 39) \<le> 1920 \<and>
   cell_y (make_cell 40 48 46 22 39) + cell_height (make_cell 40 48 46 22 39) \<le> 1080"
proof -
  have "make_cell 40 48 46 22 39 \<in> set (grid_cells_of 23 40 48 46)"
    using grid_cells_mem[of 919 23 40 48 46] by simp
  then show ?thesis
    using grid_info_within_screen[OF grid_info_example, of "make_cell 40 48 46 22 39"]
    by simp
qed

text \<open>The integer reading of the dimensions is the floor of the code's float expression.\<close>

theorem grid_rows_float:
  assumes "0 < w" "0 < h"
  shows "grid_rows0 w h n = nat \<lfloor>sqrt (real n / (real w / real h))\<rfloor> \<and>
         grid_cols0 w h r = nat \<lfloor>real r * (real w / real h)\<rfloor>"
  using grid_rows_real[OF assms] grid_cols_real by blast

lemma grid_rows_float_witness: "nat \<lfloor>sqrt (1000 / (1920 / 1080))\<rfloor> = (23::nat)"
  using grid_rows_float[of 1920 1080 1000 23] grid_rows_example by simp

end
