(* ===== verification/ScreenCache.thy ===== *)
theory ScreenCache
  imports Grid Input
begin

text \<open>
  The screen-state cache of src/services/cache_module.py (\<open>_screenshot_cache\<close>) and the
  operations of src/services/screenshot_module.py that read and write it:
  \<open>capture_cursor_area\<close>, \<open>save_screenshot_with_grid\<close> (its effect on the cache and the
  grid summary it writes), \<open>save_screenshots\<close>, \<open>move_cursor_to_cell\<close> and
  \<open>get_grid_cells\<close>. The cache dict is a record; the keys \<open>ui_elements\<close> and
  \<open>fullscreen\<close>, which no code writes, are left out, and the key \<open>grid_cells\<close>, absent
  until the first grid capture, is an option. Images are an abstract type \<open>'img\<close>; the
  screen-capture primitive is a function from the requested region to an image or an
  exception; clock readings and cursor positions are arguments.

  Each operation holds \<open>_cache_lock\<close> only around its reads and writes of the cache, and the
  operations are modelled as atomic steps of a trace (\<open>run_sensing\<close>): a sequence of
  calls in the order they happen. The lemmas show where the cursor region lies, where an
  image returned from the cache comes from, that a grid capture refreshes the timestamp of
  an older cursor image, and what a cell index resolves to after a grid capture.
\<close>

record 'img screenshot_cache =
  last_capture_time :: timestamp
  cache_ttl :: timestamp
  cursor_area :: "'img option"
  cached_cursor_pos :: point      \<comment> \<open>the key \<open>'cursor_pos'\<close>\<close>
  grid_cells :: "grid_cell list option"

definition cache_init :: "'img screenshot_cache" where
  "cache_init = \<lparr>last_capture_time = 0, cache_ttl = 3 / 10, cursor_area = None,
                 cached_cursor_pos = (0, 0), grid_cells = None\<rparr>"

text \<open>\<open>_screenshot_cache.get('grid_cells', [])\<close>.\<close>

definition get_grid_cells :: "'img screenshot_cache \<Rightarrow> grid_cell list" where
  "get_grid_cells c = (case grid_cells c of None \<Rightarrow> [] | Some cells \<Rightarrow> cells)"

subsection \<open>capture_cursor_area\<close>

text \<open>\<open>int(area_size / 2)\<close>: the quotient truncated towards zero.\<close>

definition py_half :: "int \<Rightarrow> int" where
  "py_half a = (if 0 \<le> a then a div 2 else - ((- a) div 2))"

text \<open>
  One coordinate of the region's top-left corner (the code does the same for \<open>x\<close> and
  \<open>y\<close>): centred on the cursor, pushed back inside the screen, then clamped at 0.
\<close>

definition region_start :: "int \<Rightarrow> int \<Rightarrow> int \<Rightarrow> int" where
  "region_start v extent a =
     (let s = max 0 (v - py_half a);
          s = (if s + a > extent then extent - a else s)
      in max 0 s)"

definition cursor_region :: "point \<Rightarrow> int \<times> int \<Rightarrow> int \<Rightarrow> int \<times> int" where
  "cursor_region p scr a = (region_start (fst p) (fst scr) a, region_start (snd p) (snd scr) a)"

text \<open>The cache test under the lock.\<close>

definition cache_hit :: "'img screenshot_cache \<Rightarrow> timestamp \<Rightarrow> point \<Rightarrow> bool" where
  "cache_hit c now p \<longleftrightarrow>
     cursor_area c \<noteq> None \<and> now - last_capture_time c < cache_ttl c \<and> cached_cursor_pos c = p"

text \<open>
  \<open>capture_cursor_area(area_size)\<close> with the cursor at \<open>p\<close>, the screen of size \<open>scr\<close>,
  the clock at \<open>now\<close> for the test and at \<open>now'\<close> after the capture; \<open>grab\<close> is
  \<open>pyautogui.screenshot(region=...)\<close>, \<open>blank a\<close> the grey image of the fallback.
\<close>

definition capture_cursor_area ::
  "(int \<Rightarrow> 'img) \<Rightarrow> (int \<times> int \<times> int \<times> int \<Rightarrow> exn + 'img) \<Rightarrow> timestamp \<Rightarrow> timestamp \<Rightarrow>
   point \<Rightarrow> int \<times> int \<Rightarrow> int \<Rightarrow> 'img screenshot_cache \<Rightarrow> 'img \<times> 'img screenshot_cache" where
  "capture_cursor_area blank grab now now' p scr a c =
     (if cache_hit c now p then (the (cursor_area c), c)
      else let (xs, ys) = cursor_region p scr a
           in case grab (xs, ys, a, a) of
                Inl e \<Rightarrow> (blank a, c)
              | Inr img \<Rightarrow> (img, c\<lparr>cursor_area := Some img, last_capture_time := now', cached_cursor_pos := p\<rparr>))"

subsection \<open>save_screenshot_with_grid and save_screenshots\<close>

text \<open>The contents of \<open>screenshots/grid_info.txt\<close>.\<close>

record grid_summary =
  gs_width :: nat
  gs_height :: nat
  gs_rows :: nat
  gs_cols :: nat
  gs_cell_width :: nat
  gs_cell_height :: nat
  gs_total :: nat
  gs_cursor :: point
  gs_cursor_cell :: "nat option"

text \<open>The cursor-cell search on pyautogui's integer position.\<close>

definition cursor_cell :: "grid_cell list \<Rightarrow> point \<Rightarrow> grid_cell option" where
  "cursor_cell cells p = (let (x, y) = p in if x < 0 \<or> y < 0 then None else cell_containing cells (nat x) (nat y))"

text \<open>
  \<open>save_screenshot_with_grid(num_cells)\<close>: \<open>shot\<close> is the size of the captured
  screenshot or the exception of the capture (caught, the function returns \<open>None\<close>); a
  zero dimension raises \<open>ZeroDivisionError\<close> out of the function. The result is the
  summary written to the file.
\<close>

definition save_screenshot_with_grid ::
  "nat \<Rightarrow> exn + nat \<times> nat \<Rightarrow> timestamp \<Rightarrow> point \<Rightarrow> 'img screenshot_cache \<Rightarrow>
   (exn + grid_summary option) \<times> 'img screenshot_cache" where
  "save_screenshot_with_grid n shot now p c =
     (case shot of
        Inl e \<Rightarrow> (Inr None, c)
      | Inr (w, h) \<Rightarrow>
          (case grid_dims w h n of
             None \<Rightarrow> (Inl ZeroDivisionError, c)
           | Some (rows, cols) \<Rightarrow>
               let cw = w div cols; ch = h div rows; cells = grid_cells_of rows cols cw ch
               in (Inr (Some \<lparr>gs_width = w, gs_height = h, gs_rows = rows, gs_cols = cols,
                              gs_cell_width = cw, gs_cell_height = ch, gs_total = length cells,
                              gs_cursor = p, gs_cursor_cell = map_option cell_index (cursor_cell cells p)\<rparr>),
                   c\<lparr>grid_cells := Some cells, last_capture_time := now\<rparr>)))"

text \<open>\<open>save_screenshots()\<close>: reset the timestamp, then a grid capture whose exceptions are printed.\<close>

definition save_screenshots ::
  "nat \<Rightarrow> exn + nat \<times> nat \<Rightarrow> timestamp \<Rightarrow> point \<Rightarrow> 'img screenshot_cache \<Rightarrow> 'img screenshot_cache" where
  "save_screenshots n shot now p c =
     snd (save_screenshot_with_grid n shot now p (c\<lparr>last_capture_time := 0\<rparr>))"

subsection \<open>move_cursor_to_cell\<close>

text \<open>
  \<open>move_cursor_to_cell(cell_index)\<close>: the centre of the cell with that index in the cached
  grid, reached by \<open>pyautogui.moveTo\<close>; \<open>True\<close> when the move happened.
\<close>

definition move_cursor_to_cell ::
  "'d desktop_api \<Rightarrow> 'img screenshot_cache \<Rightarrow> nat \<Rightarrow> 'd exec_state \<Rightarrow> bool \<times> 'd exec_state" where
  "move_cursor_to_cell api c k st =
     (case cell_center (get_grid_cells c) k of
        None \<Rightarrow> (False, st)
      | Some (x, y) \<Rightarrow>
          (case invoke api (MoveTo (of_nat x) (of_nat y)) st of
             (Inl e, st') \<Rightarrow> (False, st')
           | (Inr u, st') \<Rightarrow> (True, st')))"

subsection \<open>Traces of sensing calls\<close>

datatype 'img sensing =
    AreaCapture timestamp timestamp point "int \<times> int" int "int \<times> int \<times> int \<times> int \<Rightarrow> exn + 'img"
  | GridCapture nat "exn + nat \<times> nat" timestamp point
  | ScreensCapture nat "exn + nat \<times> nat" timestamp point

datatype 'img sensed = AreaImage 'img | GridSaved "exn + grid_summary option" | ScreensSaved

fun sense :: "(int \<Rightarrow> 'img) \<Rightarrow> 'img sensing \<Rightarrow> 'img screenshot_cache \<Rightarrow> 'img sensed \<times> 'img screenshot_cache" where
  "sense blank (AreaCapture now now' p scr a grab) c =
     (let (img, c') = capture_cursor_area blank grab now now' p scr a c in (AreaImage img, c'))"
| "sense blank (GridCapture n shot now p) c =
     (let (r, c') = save_screenshot_with_grid n shot now p c in (GridSaved r, c'))"
| "sense blank (ScreensCapture n shot now p) c = (ScreensSaved, save_screenshots n shot now p c)"

fun run_sensing :: "(int \<Rightarrow> 'img) \<Rightarrow> 'img sensing list \<Rightarrow> 'img screenshot_cache \<Rightarrow> 'img sensed list \<times> 'img screenshot_cache" where
  "run_sensing blank [] c = ([], c)"
| "run_sensing blank (e # es) c =
     (let (r, c') = sense blank e c; (rs, c'') = run_sensing blank es c' in (r # rs, c''))"

text \<open>An area capture that took the image \<open>img\<close> from the screen with the cursor at \<open>q\<close>.\<close>

fun grabbed_at :: "point \<Rightarrow> 'img \<Rightarrow> 'img sensing \<Rightarrow> bool" where
  "grabbed_at q img (AreaCapture now now' p scr a grab) \<longleftrightarrow>
     p = q \<and> (let (xs, ys) = cursor_region p scr a in grab (xs, ys, a, a) = Inr img)"
| "grabbed_at q img _ \<longleftrightarrow> False"

text \<open>Every cached cursor image was taken by a call of the history at the cached position.\<close>

definition area_from :: "'img sensing list \<Rightarrow> 'img screenshot_cache \<Rightarrow> bool" where
  "area_from hist c \<longleftrightarrow>
     (\<forall>img. cursor_area c = Some img \<longrightarrow> (\<exists>e\<in>set hist. grabbed_at (cached_cursor_pos c) img e))"

subsection \<open>Properties\<close>


lemma py_half_pos: "0 < a \<Longrightarrow> py_half a = a div 2 \<and> 0 \<le> a div 2 \<and> a div 2 < a"
  by (simp add: py_half_def)

lemma region_start_bounds:
  assumes "0 < a" "a \<le> extent" "0 \<le> v" "v < extent"
  shows "0 \<le> region_start v extent a \<and> region_start v extent a + a \<le> extent \<and>
         region_start v extent a \<le> v \<and> v < region_start v extent a + a"
proof -
  have h: "py_half a = a div 2" "0 \<le> a div 2" "a div 2 < a" using py_half_pos[OF assms(1)] by auto
  show ?thesis using assms h unfolding region_start_def Let_def by (simp add: max_def) linarith
qed

lemma save_grid_area:
  "cursor_area (snd (save_screenshot_with_grid n shot now p c)) = cursor_area c \<and>
   cached_cursor_pos (snd (save_screenshot_with_grid n shot now p c)) = cached_cursor_pos c \<and>
   cache_ttl (snd (save_screenshot_with_grid n shot now p c)) = cache_ttl c"
  by (auto simp: save_screenshot_with_grid_def Let_def split: sum.splits option.splits prod.splits)

lemma save_grid_Some:
  assumes "grid_dims w h n = Some (rows, cols)"
  shows "save_screenshot_with_grid n (Inr (w, h)) now p c =
           (Inr (Some \<lparr>gs_width = w, gs_height = h, gs_rows = rows, gs_cols = cols,
                     gs_cell_width = w div cols, gs_cell_height = h div rows, gs_total = rows * cols,
                     gs_cursor = p, gs_cursor_cell = map_option cell_index
                        (cursor_cell (grid_cells_of rows cols (w div cols) (h div rows)) p)\<rparr>),
            c\<lparr>grid_cells := Some (grid_cells_of rows cols (w div cols) (h div rows)), last_capture_time := now\<rparr>)"
  using assms by (simp add: save_screenshot_with_grid_def grid_cells_length Let_def)

lemma save_grid_fail:
  "shot = Inl e \<or> (shot = Inr (w, h) \<and> (w = 0 \<or> h = 0)) \<Longrightarrow> snd (save_screenshot_with_grid n shot now p c) = c"
  by (auto simp: save_screenshot_with_grid_def grid_dims_def)

lemma area_from_mono: "area_from hist c \<Longrightarrow> set hist \<subseteq> set hist' \<Longrightarrow> area_from hist' c"
  by (auto simp: area_from_def)

lemma area_from_same:
  "area_from hist c \<Longrightarrow> cursor_area c' = cursor_area c \<Longrightarrow> cached_cursor_pos c' = cached_cursor_pos c \<Longrightarrow>
   area_from hist c'"
  by (simp add: area_from_def)

lemma sense_area_from:
  assumes "area_from hist c"
  shows "area_from (hist @ [e]) (snd (sense blank e c))"
proof (cases e)
  case (AreaCapture now now' p scr a grab)
  have h: "area_from (hist @ [e]) c" using assms by (rule area_from_mono) auto
  show ?thesis
  proof (cases "cache_hit c now p")
    case True
    then show ?thesis using h AreaCapture by (simp add: capture_cursor_area_def)
  next
    case False
    then show ?thesis using h AreaCapture
      by (auto simp: capture_cursor_area_def area_from_def split: sum.splits prod.splits)
  qed
next
  case (GridCapture n shot now p)
  have "snd (sense blank e c) = snd (save_screenshot_with_grid n shot now p c)"
    using GridCapture by (simp add: split_beta)
  then show ?thesis
    using area_from_same[OF area_from_mono[OF assms, of "hist @ [e]"]] save_grid_area[of n shot now p c] by auto
next
  case (ScreensCapture n shot now p)
  have "snd (sense blank e c) = snd (save_screenshot_with_grid n shot now p (c\<lparr>last_capture_time := 0\<rparr>))"
    using ScreensCapture by (simp add: save_screenshots_def)
  then show ?thesis
    using area_from_same[OF area_from_mono[OF assms, of "hist @ [e]"]]
      save_grid_area[of n shot now p "c\<lparr>last_capture_time := 0\<rparr>"] by auto
qed

lemma sense_area_image:
  assumes "area_from hist c" "e = AreaCapture now now' p scr a grab" "fst (sense blank e c) = AreaImage img"
  shows "img = blank a \<or> grabbed_at p img e \<or> (\<exists>e'\<in>set hist. grabbed_at p img e')"
proof (cases "cache_hit c now p")
  case True
  then obtain img' where "cursor_area c = Some img'" "cached_cursor_pos c = p" by (auto simp: cache_hit_def)
  then show ?thesis using assms True by (auto simp: capture_cursor_area_def area_from_def)
next
  case False
  then show ?thesis using assms by (auto simp: capture_cursor_area_def split: sum.splits prod.splits)
qed

lemma run_sensing_area:
  "area_from hist c \<Longrightarrow> run_sensing blank evs c = (outs, c') \<Longrightarrow> i < length evs \<Longrightarrow>
   evs ! i = AreaCapture now now' p scr a grab \<Longrightarrow> outs ! i = AreaImage img \<Longrightarrow>
   img = blank a \<or> grabbed_at p img (evs ! i) \<or> (\<exists>e\<in>set (hist @ take i evs). grabbed_at p img e)"
proof (induction evs arbitrary: hist c outs c' i)
  case Nil
  then show ?case by simp
next
  case (Cons e es)
  obtain r c1 where s: "sense blank e c = (r, c1)" by fastforce
  obtain rs where rs: "run_sensing blank es c1 = (rs, c')" "outs = r # rs"
    using Cons.prems(2) s by (auto split: prod.splits)
  show ?case
  proof (cases i)
    case 0
    then show ?thesis using Cons.prems sense_area_image[OF Cons.prems(1), of e] s rs by auto
  next
    case (Suc j)
    have inv: "area_from (hist @ [e]) c1" using sense_area_from[OF Cons.prems(1), of e blank] s by simp
    have "img = blank a \<or> grabbed_at p img (es ! j) \<or> (\<exists>e'\<in>set ((hist @ [e]) @ take j es). grabbed_at p img e')"
      using Cons.IH[OF inv rs(1)] Cons.prems(3-5) Suc rs(2) by simp
    then show ?thesis using Suc by auto
  qed
qed

text \<open>
  C19. In any sequence of sensing calls from the initial cache, every cursor image that
  \<open>capture_cursor_area\<close> returns is the grey fallback, the image this call grabbed at its own
  region, or an image an earlier call grabbed with the cursor at the same position (whatever
  the area size of that call).
\<close>

theorem run_sensing_area_provenance:
  assumes "run_sensing blank evs cache_init = (outs, c)" "i < length evs"
    and "evs ! i = AreaCapture now now' p scr a grab" "outs ! i = AreaImage img"
  shows "img = blank a \<or> grabbed_at p img (evs ! i) \<or> (\<exists>j<i. grabbed_at p img (evs ! j))"
proof -
  have "area_from [] (cache_init :: 'a screenshot_cache)" by (simp add: area_from_def cache_init_def)
  from run_sensing_area[OF this assms] show ?thesis
    using assms(2) by (auto simp: in_set_conv_nth)
qed

lemma run_sensing_area_provenance_witness:
  "fst (run_sensing (\<lambda>_. ''grey'')
     [AreaCapture 0 0 (5, 5) (1920, 1080) 128 (\<lambda>_. Inr ''big''),
      AreaCapture (1 / 10) (1 / 10) (5, 5) (1920, 1080) 64 (\<lambda>_. Inr ''small'')] cache_init) ! 1 = AreaImage ''big'' \<and>
   grabbed_at (5, 5) ''big'' (AreaCapture 0 0 (5, 5) (1920, 1080) 128 (\<lambda>_. Inr ''big''))"
proof -
  let ?evs = "[AreaCapture 0 0 (5, 5) (1920, 1080) 128 (\<lambda>_. Inr ''big''),
      AreaCapture (1 / 10) (1 / 10) (5, 5) (1920, 1080) (64::int) (\<lambda>_. Inr ''small'')]"
  have run: "run_sensing (\<lambda>_. ''grey'') ?evs cache_init =
      ([AreaImage ''big'', AreaImage ''big''],
       cache_init\<lparr>cursor_area := Some ''big'', last_capture_time := 0, cached_cursor_pos := (5, 5)\<rparr>)"
    by (simp add: capture_cursor_area_def cache_hit_def cache_init_def cursor_region_def)
  have "''big'' = ''grey'' \<or> grabbed_at (5, 5) ''big'' (?evs ! 1) \<or> (\<exists>j<1. grabbed_at (5, 5) ''big'' (?evs ! j))"
    using run_sensing_area_provenance[OF run, of 1] by simp
  then show ?thesis using run by (simp add: cursor_region_def)
qed

text \<open>
  C18. For an area no larger than the screen and the cursor on the screen, the region
  \<open>capture_cursor_area\<close> grabs lies within the screen and contains the cursor.
\<close>

theorem cursor_region_bounds:
  assumes "0 < a" "a \<le> sw" "a \<le> sh" "0 \<le> x" "x < sw" "0 \<le> y" "y < sh"
    and "cursor_region (x, y) (sw, sh) a = (xs, ys)"
  shows "0 \<le> xs \<and> xs + a \<le> sw \<and> xs \<le> x \<and> x < xs + a \<and>
         0 \<le> ys \<and> ys + a \<le> sh \<and> ys \<le> y \<and> y < ys + a"
  using region_start_bounds[OF assms(1,2,4,5)] region_start_bounds[OF assms(1,3,6,7)] assms(8)
  by (simp add: cursor_region_def)

lemma cursor_region_bounds_witness: "cursor_region (1900, 5) (1920, 1080) 128 = (1792, 0)"
  using cursor_region_bounds[of 128 1920 1080 1900 5 "fst (cursor_region (1900, 5) (1920, 1080) 128)"
      "snd (cursor_region (1900, 5) (1920, 1080) 128)"]
  by (simp add: cursor_region_def region_start_def py_half_def)

text \<open>
  C20. \<open>save_screenshot_with_grid\<close> resets the cache timestamp but not the cursor image, so
  for \<open>cache_ttl\<close> after a grid capture an older cursor image at the same position is
  returned without a new capture, however old it is.
\<close>

theorem grid_capture_refreshes_area:
  assumes "cursor_area c = Some img" "cached_cursor_pos c = p" "grid_dims w h n \<noteq> None"
    and "now' - now < cache_ttl c"
  shows "capture_cursor_area blank grab now' now'' p scr a (snd (save_screenshot_with_grid n (Inr (w, h)) now q c)) =
           (img, snd (save_screenshot_with_grid n (Inr (w, h)) now q c))"
proof -
  obtain rows cols where d: "grid_dims w h n = Some (rows, cols)" using assms(3) by auto
  show ?thesis using assms by (simp add: save_grid_Some[OF d] capture_cursor_area_def cache_hit_def)
qed

lemma grid_capture_refreshes_area_witness:
  "fst (capture_cursor_area (\<lambda>_. ''grey'') (\<lambda>_. Inr ''new'') (11 / 10) (11 / 10) (5, 5) (1920, 1080) 128
     (snd (save_screenshot_with_grid 1000 (Inr (1920, 1080)) 1 (0, 0)
        (cache_init\<lparr>cursor_area := Some ''old'', cached_cursor_pos := (5, 5)\<rparr>)))) = ''old''"
  using grid_capture_refreshes_area[of "cache_init\<lparr>cursor_area := Some ''old'', cached_cursor_pos := (5, 5)\<rparr>"
      "''old''" "(5, 5)" 1920 1080 1000 "11 / 10" 1 "\<lambda>_. ''grey''" "\<lambda>_. Inr ''new''" "11 / 10" "(1920, 1080)" 128 "(0, 0)"]
    grid_dims_example
  by (simp add: cache_init_def)

text \<open>
  When the capture inside \<open>save_screenshots\<close> fails, the previous grid cells stay
  cached and the reset timestamp makes the next cursor-area call capture afresh.
\<close>

theorem save_screenshots_failure:
  assumes "shot = Inl e \<or> (shot = Inr (w, h) \<and> (w = 0 \<or> h = 0))" "cache_ttl c \<le> now'"
  shows "get_grid_cells (save_screenshots n shot now p c) = get_grid_cells c \<and>
         \<not> cache_hit (save_screenshots n shot now p c) now' q"
  using save_grid_fail[OF assms(1), of n now p "c\<lparr>last_capture_time := 0\<rparr>"] assms(2)
  by (simp add: save_screenshots_def get_grid_cells_def cache_hit_def)

lemma save_screenshots_failure_witness:
  "\<not> cache_hit (save_screenshots 1000 (Inl (OSError ''capture'')) 5 (0, 0)
       ((cache_init :: string screenshot_cache)\<lparr>cursor_area := Some ''old'', last_capture_time := 5\<rparr>)) 5 (0, 0)"
  using save_screenshots_failure[of "Inl (OSError ''capture'')" "OSError ''capture''" 0 0
      "(cache_init :: string screenshot_cache)\<lparr>cursor_area := Some ''old'', last_capture_time := 5\<rparr>" 5 1000 5 "(0, 0)" "(0, 0)"]
  by (simp add: cache_init_def)

text \<open>
  After a grid capture, \<open>move_cursor_to_cell k\<close> moves the cursor to the centre of
  cell \<open>k\<close> of the new grid when \<open>1 \<le> k \<le> rows * cols\<close>, and otherwise does nothing and
  returns \<open>False\<close>.
\<close>

theorem move_cursor_after_grid:
  assumes "grid_dims w h n = Some (rows, cols)"
  shows "move_cursor_to_cell api (snd (save_screenshot_with_grid n (Inr (w, h)) now q c)) k st =
           (if 1 \<le> k \<and> k \<le> rows * cols
            then (case invoke api (MoveTo (of_nat ((k - 1) mod cols * (w div cols) + w div cols div 2))
                                          (of_nat ((k - 1) div cols * (h div rows) + h div rows div 2))) st of
                    (Inl e, st') \<Rightarrow> (False, st')
                  | (Inr u, st') \<Rightarrow> (True, st'))
            else (False, st))"
  by (simp add: save_grid_Some[OF assms] move_cursor_to_cell_def get_grid_cells_def cell_center_grid)

lemma move_cursor_after_grid_witness:
  "move_cursor_to_cell \<lparr>prim = \<lambda>a d. Inr d, screen_size = \<lambda>d. (1920, 1080), cursor_pos = \<lambda>d. (0, 0)\<rparr>
      (snd (save_screenshot_with_grid 1000 (Inr (1920, 1080)) 1 (0, 0) (cache_init :: string screenshot_cache))) 41
      \<lparr>listening = False, desk = (), log = []\<rparr> =
    (True, \<lparr>listening = False, desk = (), log = [MoveTo 24 69]\<rparr>)"
  using move_cursor_after_grid[OF grid_dims_example, of
      "\<lparr>prim = \<lambda>a d. Inr d, screen_size = \<lambda>d. (1920, 1080), cursor_pos = \<lambda>d. (0, 0)\<rparr>" 1 "(0, 0)"
      "cache_init :: string screenshot_cache" 41 "\<lparr>listening = False, desk = (), log = []\<rparr>"]
  by (simp add: invoke_def)

text \<open>
  The grid summary reports \<open>rows * cols \<ge> 500\<close> cells, the cells now cached, and the
  cursor's cell by division; a cursor in the strip the cells do not cover is in no cell.
\<close>

theorem save_grid_summary:
  assumes "save_screenshot_with_grid n shot now (x, y) c = (Inr (Some s), c')" "0 \<le> x" "0 \<le> y"
  shows "gs_total s = gs_rows s * gs_cols s \<and> 500 \<le> gs_total s \<and>
         get_grid_cells c' = grid_cells_of (gs_rows s) (gs_cols s) (gs_cell_width s) (gs_cell_height s) \<and>
         gs_cursor_cell s =
           (if nat x < gs_cols s * gs_cell_width s \<and> nat y < gs_rows s * gs_cell_height s
            then Some (nat y div gs_cell_height s * gs_cols s + nat x div gs_cell_width s + 1) else None)"
proof -
  obtain w h where shot: "shot = Inr (w, h)"
    using assms(1) by (cases shot) (auto simp: save_screenshot_with_grid_def)
  then obtain rows cols where d: "grid_dims w h n = Some (rows, cols)"
    using assms(1) by (cases "grid_dims w h n") (auto simp: save_screenshot_with_grid_def)
  have lt: "m div (w div cols) < cols" if "m < cols * (w div cols)" for m :: nat
    using that by (metis div_less_iff_less_mult mult.commute mult_0_right not_less_zero neq0_conv)
  show ?thesis
    using assms grid_dims_Some[OF d] lt
    by (auto simp: shot save_grid_Some[OF d] get_grid_cells_def cursor_cell_def cell_containing_any
        make_cell_def Let_def)
qed

lemma save_grid_summary_witness:
  "\<exists>s c'. save_screenshot_with_grid 1000 (Inr (1920, 1080)) 1 (100, 1070) (cache_init :: string screenshot_cache) =
      (Inr (Some s), c') \<and> gs_total s = 920 \<and> gs_cursor_cell s = None"
proof -
  obtain s c' where eq: "save_screenshot_with_grid 1000 (Inr (1920, 1080)) 1 (100, 1070) (cache_init :: string screenshot_cache) =
      (Inr (Some s), c')" "gs_rows s = 23" "gs_cols s = 40" "gs_cell_width s = 48" "gs_cell_height s = 46"
    using save_grid_Some[OF grid_dims_example, of 1 "(100, 1070)" "cache_init :: string screenshot_cache"] by simp
  have "gs_total s = 920 \<and> gs_cursor_cell s = None"
    using save_grid_summary[OF eq(1)] eq(2-5) by simp
  then show ?thesis using eq(1) by blast
qed

end
