(* ===== verification/FindUI.thy ===== *)
theory FindUI
  imports ScreenCache
begin

text \<open>
  Locating a UI element through the grid, src/services/find_ui.py: the reply of the language
  model is parsed for a cell number (\<open>extract_cell_number_from_llm_response\<close>), the number
  is resolved against the cached grid (\<open>get_cell_center_coordinates\<close>, modelled as
  \<open>cell_center\<close> in Grid), and when that fails a second reply is parsed for pixel
  coordinates (\<open>fallback_llm_coordinate_detection\<close>). The regular expressions are
  written out as functions on strings: \<open>re.search(r'#(\d+)')\<close> is \<open>hash_number\<close>,
  \<open>re.findall(r'\d+')\<close> is \<open>digit_runs\<close>, the coordinate pattern is \<open>search_xy\<close> and
  \<open>re.findall(r'\d+(?:\.\d+)?')\<close> is \<open>number_tokens\<close>; \<open>\d\<close> is read as the ASCII
  digits and \<open>\s\<close> as \<open>py_isspace\<close>. The two replies are arguments, since the
  language model is a collaborator; so are the age of the grid screenshot file and the
  inputs of a grid capture. \<open>int(float(t))\<close> of a number token is its integer part.

  The lemmas show that a cell number or a coordinate pair printed into a reply is parsed
  back, and how a reply resolves to a point on a freshly captured grid.
\<close>

definition is_digit :: "char \<Rightarrow> bool" where
  "is_digit c \<longleftrightarrow> CHR ''0'' \<le> c \<and> c \<le> CHR ''9''"

text \<open>\<open>int(s)\<close> of a string of ASCII digits.\<close>

definition digits_val :: "string \<Rightarrow> nat" where
  "digits_val ds = foldl (\<lambda>n c. 10 * n + (of_char c - 48)) 0 ds"

text \<open>\<open>re.search(r'#(\d+)', response)\<close>: the first \<open>#\<close> followed by digits, all of them.\<close>

fun hash_number :: "string \<Rightarrow> nat option" where
  "hash_number [] = None"
| "hash_number (c # cs) =
     (if c = CHR ''#'' \<and> cs \<noteq> [] \<and> is_digit (hd cs) then Some (digits_val (takeWhile is_digit cs))
      else hash_number cs)"

text \<open>\<open>re.findall(r'\d+', response)\<close>: the maximal runs of digits, left to right.\<close>

function digit_runs :: "string \<Rightarrow> string list" where
  "digit_runs [] = []"
| "digit_runs (c # cs) =
     (if is_digit c then takeWhile is_digit (c # cs) # digit_runs (dropWhile is_digit cs)
      else digit_runs cs)"
  by pat_completeness auto
termination
  by (relation "measure length") (auto simp: le_imp_less_Suc length_dropWhile_le)

text \<open>\<open>extract_cell_number_from_llm_response(response)\<close>.\<close>

definition extract_cell_number :: "string \<Rightarrow> nat option" where
  "extract_cell_number r =
     (case hash_number r of
        Some n \<Rightarrow> Some n
      | None \<Rightarrow> (case digit_runs r of [] \<Rightarrow> None | d # ds \<Rightarrow> Some (digits_val d)))"

subsection \<open>The coordinate reply\<close>

text \<open>
  One token \<open>\d+(?:\.\d+)?\<close> at the start of a string: its integer digits and the rest
  after the token; the fraction is taken only when a digit follows the point.
\<close>

definition num_token :: "string \<Rightarrow> (string \<times> string) option" where
  "num_token s =
     (let d = takeWhile is_digit s; r = dropWhile is_digit s
      in if d = [] then None
         else if r \<noteq> [] \<and> hd r = CHR ''.'' \<and> tl r \<noteq> [] \<and> is_digit (hd (tl r))
         then Some (d, dropWhile is_digit (tl r))
         else Some (d, r))"

definition is_x :: "char \<Rightarrow> bool" where
  "is_x c \<longleftrightarrow> c = CHR ''x'' \<or> c = CHR ''X''"

definition is_y :: "char \<Rightarrow> bool" where
  "is_y c \<longleftrightarrow> c = CHR ''y'' \<or> c = CHR ''Y''"

text \<open>\<open>y:\s*(\d+(?:\.\d+)?)\<close> after the comma (with the whitespace before it skipped).\<close>

definition match_y :: "string \<Rightarrow> nat option" where
  "match_y s =
     (case s of
        c1 # c2 # r \<Rightarrow>
          if is_y c1 \<and> c2 = CHR '':'' then map_option (digits_val \<circ> fst) (num_token (dropWhile py_isspace r))
          else None
      | _ \<Rightarrow> None)"

text \<open>The pattern \<open>x:\s*(\d+(?:\.\d+)?),\s*y:\s*(\d+(?:\.\d+)?)\<close> (ignoring case) at the start of a string.\<close>

definition match_xy_at :: "string \<Rightarrow> (nat \<times> nat) option" where
  "match_xy_at s =
     (case s of
        c1 # c2 # r \<Rightarrow>
          if is_x c1 \<and> c2 = CHR '':'' then
            (case num_token (dropWhile py_isspace r) of
               None \<Rightarrow> None
             | Some (xd, r1) \<Rightarrow>
                 (case r1 of
                    c # r2 \<Rightarrow> if c = CHR '','' then map_option (Pair (digits_val xd)) (match_y (dropWhile py_isspace r2)) else None
                  | [] \<Rightarrow> None))
          else None
      | _ \<Rightarrow> None)"

text \<open>\<open>re.search\<close> of that pattern: the first position where it matches.\<close>

fun search_xy :: "string \<Rightarrow> (nat \<times> nat) option" where
  "search_xy [] = None"
| "search_xy (c # cs) = (case match_xy_at (c # cs) of Some v \<Rightarrow> Some v | None \<Rightarrow> search_xy cs)"

text \<open>\<open>re.findall(r'\d+(?:\.\d+)?', result)\<close>, each token by its integer digits.\<close>

function number_tokens :: "string \<Rightarrow> string list" where
  "number_tokens [] = []"
| "number_tokens (c # cs) =
     (case num_token (c # cs) of
        Some (d, r) \<Rightarrow> d # number_tokens r
      | None \<Rightarrow> number_tokens cs)"
  by pat_completeness auto
termination
proof (relation "measure length", goal_cases)
  case 1
  then show ?case by simp
next
  case (2 c cs)
  then show ?case by simp
next
  case (3 c cs x d r)
  then have a: "num_token (c # cs) = Some (d, r)" by simp
  define s where "s = c # cs"
  have ne: "takeWhile is_digit s \<noteq> []" using a by (auto simp: num_token_def Let_def s_def split: if_splits)
  have "length (takeWhile is_digit s) + length (dropWhile is_digit s) = length s"
    by (metis length_append takeWhile_dropWhile_id)
  then have lt: "length (dropWhile is_digit s) < length s" using ne by (cases "takeWhile is_digit s") auto
  have "r = dropWhile is_digit s \<or> r = dropWhile is_digit (tl (dropWhile is_digit s))"
    using a by (auto simp: num_token_def Let_def s_def split: if_splits)
  moreover have "length (dropWhile is_digit (tl (dropWhile is_digit s))) \<le> length (dropWhile is_digit s)"
    using length_dropWhile_le[of is_digit "tl (dropWhile is_digit s)"] by simp
  ultimately show ?case using lt by (auto simp: s_def)
qed

text \<open>The parsing part of \<open>fallback_llm_coordinate_detection\<close>: the coordinate pattern, else the last two numbers.\<close>

definition parse_coordinates :: "string \<Rightarrow> (nat \<times> nat) option" where
  "parse_coordinates result =
     (case search_xy result of
        Some v \<Rightarrow> Some v
      | None \<Rightarrow>
          (let ns = number_tokens result
           in if 2 \<le> length ns then Some (digits_val (ns ! (length ns - 2)), digits_val (last ns)) else None))"

subsection \<open>Module helpers\<close>

text \<open>
  Lines 13-25: \<open>encode_image_to_base64\<close>. A PIL image (any image object is true) is saved as
  JPEG into a buffer (\<open>jpeg\<close>, which may raise); otherwise a non-empty path is read
  (\<open>read\<close>, which raises \<open>OSError\<close> for a missing file); otherwise \<open>ValueError\<close>. \<open>b64\<close> is
  \<open>base64.b64encode(...).decode('utf-8')\<close>.
\<close>

definition encode_image_to_base64 ::
  "('p \<Rightarrow> exn + string) \<Rightarrow> (string \<Rightarrow> exn + string) \<Rightarrow> (string \<Rightarrow> string) \<Rightarrow> string option \<Rightarrow> 'p option \<Rightarrow>
   exn + string" where
  "encode_image_to_base64 jpeg read b64 image_path pil_image =
     (case pil_image of
        Some p \<Rightarrow> (case jpeg p of Inl e \<Rightarrow> Inl e | Inr d \<Rightarrow> Inr (b64 d))
      | None \<Rightarrow>
          (case image_path of
             Some path \<Rightarrow>
               if path = [] then Inl ValueError
               else (case read path of Inl e \<Rightarrow> Inl e | Inr d \<Rightarrow> Inr (b64 d))
           | None \<Rightarrow> Inl ValueError))"

text \<open>Lines 27-30: \<open>_screenshot_cache.get('grid_cells', [])\<close> under the cache lock.\<close>

definition get_grid_cells_from_cache :: "'img screenshot_cache \<Rightarrow> grid_cell list" where
  "get_grid_cells_from_cache c = (case grid_cells c of None \<Rightarrow> [] | Some cells \<Rightarrow> cells)"

subsection \<open>Resolving an element\<close>

text \<open>
  \<open>ensure_grid_screenshot_exists()\<close>: a grid capture when \<open>screenshots/grid.jpg\<close> or
  \<open>fullscreen.jpg\<close> is missing (\<open>age = None\<close>) or the grid file is older than 5 seconds.
\<close>

definition grid_stale :: "timestamp option \<Rightarrow> bool" where
  "grid_stale age = (case age of None \<Rightarrow> True | Some a \<Rightarrow> a > 5)"

definition ensure_grid_screenshot_exists ::
  "nat \<Rightarrow> timestamp option \<Rightarrow> exn + nat \<times> nat \<Rightarrow> timestamp \<Rightarrow> point \<Rightarrow> 'img screenshot_cache \<Rightarrow>
   (exn + unit) \<times> 'img screenshot_cache" where
  "ensure_grid_screenshot_exists n age shot now p c =
     (if grid_stale age
      then (case save_screenshot_with_grid n shot now p c of
              (Inl e, c') \<Rightarrow> (Inl e, c')
            | (Inr _, c') \<Rightarrow> (Inr (), c'))
      else (Inr (), c))"

text \<open>
  \<open>get_ui_element_coordinates(element_description)\<close> (without a \<open>screenshot_path\<close>, as
  every caller in the repository passes none): \<open>reply\<close> is the answer of
  \<open>llm_choose_best_grid_cell\<close>, \<open>fb_reply\<close> that of the fallback's coordinate question.
  \<open>if cell_number:\<close> treats cell number 0 as missing.
\<close>

definition get_ui_element_coordinates ::
  "nat \<Rightarrow> timestamp option \<Rightarrow> exn + nat \<times> nat \<Rightarrow> timestamp \<Rightarrow> point \<Rightarrow> string \<Rightarrow> string \<Rightarrow>
   'img screenshot_cache \<Rightarrow> (exn + (nat \<times> nat) option) \<times> 'img screenshot_cache" where
  "get_ui_element_coordinates n age shot now p reply fb_reply c =
     (case ensure_grid_screenshot_exists n age shot now p c of
        (Inl e, c1) \<Rightarrow> (Inl e, c1)
      | (Inr _, c1) \<Rightarrow>
          (case extract_cell_number reply of
             Some k \<Rightarrow>
               if k \<noteq> 0 then
                 (case cell_center (get_grid_cells_from_cache c1) k of
                    Some xy \<Rightarrow> (Inr (Some xy), c1)
                  | None \<Rightarrow> (Inr (parse_coordinates fb_reply), c1))
               else (Inr (parse_coordinates fb_reply), c1)
           | None \<Rightarrow> (Inr (parse_coordinates fb_reply), c1)))"

text \<open>\<open>move_mouse_to_ui_element(element_description)\<close>: \<open>pyautogui.moveTo(x, y, duration=0.5)\<close> on success.\<close>

definition move_mouse_to_ui_element ::
  "'d desktop_api \<Rightarrow> nat \<Rightarrow> timestamp option \<Rightarrow> exn + nat \<times> nat \<Rightarrow> timestamp \<Rightarrow> point \<Rightarrow> string \<Rightarrow> string \<Rightarrow>
   'img screenshot_cache \<Rightarrow> 'd exec_state \<Rightarrow>
   (exn + (nat \<times> nat) option) \<times> 'img screenshot_cache \<times> 'd exec_state" where
  "move_mouse_to_ui_element api n age shot now p reply fb_reply c st =
     (case get_ui_element_coordinates n age shot now p reply fb_reply c of
        (Inl e, c1) \<Rightarrow> (Inl e, c1, st)
      | (Inr None, c1) \<Rightarrow> (Inr None, c1, st)
      | (Inr (Some (x, y)), c1) \<Rightarrow>
          (case invoke api (MoveTo (of_nat x) (of_nat y)) st of
             (Inl e, st') \<Rightarrow> (Inl e, c1, st')
           | (Inr _, st') \<Rightarrow> (Inr (Some (x, y)), c1, st')))"

text \<open>
  \<open>move_mouse_to_grid_cell(cell_number)\<close>: the same lookup as \<open>move_cursor_to_cell\<close> of
  screenshot_module.py, returning the coordinates; an exception of \<open>pyautogui.moveTo\<close>
  propagates to the caller.
\<close>

definition move_mouse_to_grid_cell ::
  "'d desktop_api \<Rightarrow> 'img screenshot_cache \<Rightarrow> nat \<Rightarrow> 'd exec_state \<Rightarrow> (exn + (nat \<times> nat) option) \<times> 'd exec_state" where
  "move_mouse_to_grid_cell api c k st =
     (case cell_center (get_grid_cells_from_cache c) k of
        None \<Rightarrow> (Inr None, st)
      | Some (x, y) \<Rightarrow>
          (case invoke api (MoveTo (of_nat x) (of_nat y)) st of
             (Inl e, st') \<Rightarrow> (Inl e, st')
           | (Inr u, st') \<Rightarrow> (Inr (Some (x, y)), st')))"

text \<open>\<open>str(n)\<close> for a natural number: the form in which a reply names a cell or a pixel.\<close>

function show_nat :: "nat \<Rightarrow> string" where
  "show_nat n = (if n < 10 then [char_of (48 + n)] else show_nat (n div 10) @ [char_of (48 + n mod 10)])"
  by pat_completeness auto
termination
  by (relation "measure id") auto

subsection \<open>Properties\<close>

text \<open>find_ui.py reads the grid through its own copy of screenshot_module.py's \<open>get_grid_cells\<close>.\<close>

lemma get_grid_cells_from_cache_eq [simp]: "get_grid_cells_from_cache c = get_grid_cells c"
  by (simp add: get_grid_cells_from_cache_def get_grid_cells_def)


declare show_nat.simps [simp del]

lemma is_digit_code: "is_digit c \<longleftrightarrow> 48 \<le> (of_char c :: nat) \<and> (of_char c :: nat) \<le> 57"
  by (simp add: is_digit_def less_eq_char_def)

lemma digit_char: "d < 10 \<Longrightarrow> is_digit (char_of (48 + d)) \<and> (of_char (char_of (48 + d)) :: nat) = 48 + d"
  by (simp add: is_digit_code of_char_of)

lemma show_nat_digits: "\<forall>c\<in>set (show_nat n). is_digit c"
proof (induction n rule: show_nat.induct)
  case (1 n)
  then show ?case by (subst show_nat.simps) (auto simp: digit_char)
qed

lemma show_nat_ne: "show_nat n \<noteq> []"
  by (subst show_nat.simps) simp

lemma digits_val_snoc: "digits_val (xs @ [c]) = 10 * digits_val xs + (of_char c - 48)"
  by (simp add: digits_val_def)

lemma digits_val_show: "digits_val (show_nat n) = n"
proof (induction n rule: show_nat.induct)
  case (1 n)
  show ?case
  proof (cases "n < 10")
    case True
    then show ?thesis using digit_char[of n] by (subst show_nat.simps) (simp add: digits_val_def)
  next
    case False
    then have "digits_val (show_nat n) = 10 * (n div 10) + n mod 10"
      using "1.IH" digit_char[of "n mod 10"] by (subst show_nat.simps) (simp add: digits_val_snoc)
    then show ?thesis by simp
  qed
qed

lemma takeWhile_all_end:
  "\<forall>c\<in>set xs. P c \<Longrightarrow> rest = [] \<or> \<not> P (hd rest) \<Longrightarrow> takeWhile P (xs @ rest) = xs"
  by (cases rest) (auto simp: takeWhile_append2)

lemma dropWhile_all_end:
  "\<forall>c\<in>set xs. P c \<Longrightarrow> rest = [] \<or> \<not> P (hd rest) \<Longrightarrow> dropWhile P (xs @ rest) = rest"
  by (cases rest) (auto simp: dropWhile_append2)

lemma show_nat_split: "\<exists>c cs. show_nat n = c # cs \<and> is_digit c \<and> (\<forall>d\<in>set cs. is_digit d)"
  using show_nat_ne[of n] show_nat_digits[of n] by (cases "show_nat n") auto

lemma hash_number_append:
  "hash_number p = None \<Longrightarrow>
   hash_number (p @ q) =
     (if p \<noteq> [] \<and> last p = CHR ''#'' \<and> q \<noteq> [] \<and> is_digit (hd q)
      then Some (digits_val (takeWhile is_digit q)) else hash_number q)"
proof (induction p)
  case Nil
  then show ?case by simp
next
  case (Cons c p)
  then show ?case by (cases p) (auto split: if_splits)
qed

lemma not_digit_lits [simp]:
  "\<not> is_digit CHR ''#''" "\<not> is_digit CHR '',''" "\<not> is_digit CHR '' ''" "\<not> is_digit CHR ''.''"
  "\<not> is_digit CHR ''x''" "\<not> is_digit CHR ''y''"
  by (simp_all add: is_digit_code)

lemma digit_not_space: "is_digit c \<Longrightarrow> \<not> py_isspace c"
  by (auto simp: is_digit_code py_isspace_def)

lemma digit_runs_skip: "\<forall>c\<in>set p. \<not> is_digit c \<Longrightarrow> digit_runs (p @ q) = digit_runs q"
  by (induction p) auto

lemma digit_runs_show:
  "rest = [] \<or> \<not> is_digit (hd rest) \<Longrightarrow> \<exists>ds. digit_runs (show_nat n @ rest) = show_nat n # ds"
proof -
  assume r: "rest = [] \<or> \<not> is_digit (hd rest)"
  obtain c cs where s: "show_nat n = c # cs" "is_digit c" "\<forall>d\<in>set cs. is_digit d" using show_nat_split by blast
  have "takeWhile is_digit (c # cs @ rest) = c # cs"
    using takeWhile_all_end[of "c # cs" is_digit rest] s r by simp
  then show ?thesis using s by simp
qed

lemma search_xy_skip: "\<forall>c\<in>set p. \<not> is_x c \<Longrightarrow> search_xy (p @ q) = search_xy q"
proof (induction p)
  case Nil
  then show ?case by simp
next
  case (Cons c p)
  then have "match_xy_at (c # p @ q) = None" by (cases "p @ q") (simp_all add: match_xy_at_def)
  then show ?case using Cons by simp
qed

lemma num_token_show:
  "rest = [] \<or> \<not> is_digit (hd rest) \<Longrightarrow> rest = [] \<or> hd rest \<noteq> CHR ''.'' \<Longrightarrow>
   num_token (show_nat n @ rest) = Some (show_nat n, rest)"
  using takeWhile_all_end[OF show_nat_digits, of rest n] dropWhile_all_end[OF show_nat_digits, of rest n]
    show_nat_ne[of n]
  by (auto simp: num_token_def Let_def)

lemma num_token_show_any:
  "rest = [] \<or> \<not> is_digit (hd rest) \<Longrightarrow> \<exists>r. num_token (show_nat n @ rest) = Some (show_nat n, r)"
  using takeWhile_all_end[OF show_nat_digits, of rest n] show_nat_ne[of n]
  by (auto simp: num_token_def Let_def)

lemma dropWhile_space_show: "dropWhile py_isspace (show_nat n @ rest) = show_nat n @ rest"
  using show_nat_split[of n] digit_not_space by auto

lemma match_y_show:
  "rest = [] \<or> \<not> is_digit (hd rest) \<Longrightarrow> match_y (CHR ''y'' # CHR '':'' # CHR '' '' # show_nat y @ rest) = Some y"
  using num_token_show_any[of rest y] digits_val_show[of y]
  by (auto simp: match_y_def is_y_def dropWhile_space_show py_isspace_def)

lemma match_xy_show:
  "rest = [] \<or> \<not> is_digit (hd rest) \<Longrightarrow>
   match_xy_at (''x: '' @ show_nat x @ '', y: '' @ show_nat y @ rest) = Some (x, y)"
proof -
  assume r: "rest = [] \<or> \<not> is_digit (hd rest)"
  have "num_token (show_nat x @ '', y: '' @ show_nat y @ rest) = Some (show_nat x, '', y: '' @ show_nat y @ rest)"
    by (rule num_token_show) simp_all
  moreover have "dropWhile py_isspace (CHR '' '' # CHR ''y'' # CHR '':'' # CHR '' '' # show_nat y @ rest) =
      CHR ''y'' # CHR '':'' # CHR '' '' # show_nat y @ rest"
    by (simp add: py_isspace_def)
  ultimately show ?thesis
    using match_y_show[OF r, of y] digits_val_show[of x]
    by (simp add: match_xy_at_def is_x_def dropWhile_space_show py_isspace_def)
qed

text \<open>
  C24. A reply that names cell \<open>n\<close> as \<open>#n\<close>, after text with no earlier \<open>#\<close> followed by a
  digit, is parsed back to \<open>n\<close> by \<open>extract_cell_number_from_llm_response\<close>.
\<close>

theorem extract_cell_number_roundtrip:
  assumes "hash_number p = None" "rest = [] \<or> \<not> is_digit (hd rest)"
  shows "extract_cell_number (p @ CHR ''#'' # show_nat n @ rest) = Some n"
proof -
  obtain c cs where s: "show_nat n = c # cs" "is_digit c" using show_nat_split by blast
  have "hash_number (CHR ''#'' # show_nat n @ rest) = Some (digits_val (takeWhile is_digit (show_nat n @ rest)))"
    using s by simp
  then have "hash_number (CHR ''#'' # show_nat n @ rest) = Some n"
    using takeWhile_all_end[OF show_nat_digits assms(2)] digits_val_show[of n] by simp
  then show ?thesis using hash_number_append[OF assms(1), of "CHR ''#'' # show_nat n @ rest"]
    by (simp add: extract_cell_number_def)
qed

lemma extract_cell_number_roundtrip_witness:
  "extract_cell_number (''The element is in cell '' @ CHR ''#'' # show_nat 417 @ ''.'') = Some 417"
  by (rule extract_cell_number_roundtrip) simp_all

text \<open>
  A reply without any \<open>#\<close>-number is read as its first run of digits: after text without
  digits, the number printed there is parsed back.
\<close>

theorem extract_cell_number_first_run:
  assumes "hash_number (p @ show_nat n @ rest) = None" "\<forall>c\<in>set p. \<not> is_digit c"
    and "rest = [] \<or> \<not> is_digit (hd rest)"
  shows "extract_cell_number (p @ show_nat n @ rest) = Some n"
  using assms digit_runs_skip[OF assms(2), of "show_nat n @ rest"] digit_runs_show[OF assms(3), of n]
    digits_val_show[of n]
  by (auto simp: extract_cell_number_def)

lemma extract_cell_number_first_run_witness:
  "extract_cell_number (''Cell '' @ show_nat 417 @ '' holds the button'') = Some 417"
  by (rule extract_cell_number_first_run) (simp_all add: show_nat.simps char_of_def bit_0 is_digit_def)

text \<open>
  C25. A reply \<open>x: X, y: Y\<close> after text without the letter x is parsed back to \<open>(X, Y)\<close> by the
  coordinate pattern of \<open>fallback_llm_coordinate_detection\<close>.
\<close>

theorem parse_coordinates_roundtrip:
  assumes "\<forall>c\<in>set p. \<not> is_x c" "rest = [] \<or> \<not> is_digit (hd rest)"
  shows "parse_coordinates (p @ ''x: '' @ show_nat x @ '', y: '' @ show_nat y @ rest) = Some (x, y)"
  using search_xy_skip[OF assms(1), of "''x: '' @ show_nat x @ '', y: '' @ show_nat y @ rest"]
    match_xy_show[OF assms(2), of x y]
  by (simp add: parse_coordinates_def)

lemma parse_coordinates_roundtrip_witness:
  "parse_coordinates (''The centre is at '' @ ''x: '' @ show_nat 640 @ '', y: '' @ show_nat 360 @ ''.'') = Some (640, 360)"
  by (rule parse_coordinates_roundtrip) (simp_all add: is_x_def)

lemma ensure_grid_stale:
  "grid_stale age \<Longrightarrow> grid_dims w h n = Some (rows, cols) \<Longrightarrow>
   ensure_grid_screenshot_exists n age (Inr (w, h)) now p c = (Inr (), snd (save_screenshot_with_grid n (Inr (w, h)) now p c))"
  by (simp add: ensure_grid_screenshot_exists_def save_grid_Some)


lemma saved_grid_cells:
  "grid_dims w h n = Some (rows, cols) \<Longrightarrow>
   get_grid_cells (snd (save_screenshot_with_grid n (Inr (w, h)) now p c)) = grid_cells_of rows cols (w div cols) (h div rows)"
  by (simp add: save_grid_Some get_grid_cells_def)

text \<open>
  With a missing or stale grid screenshot, \<open>get_ui_element_coordinates\<close> captures a new
  grid and resolves the cell named in the reply to its centre on that grid when it is in range,
  and otherwise falls back to the coordinates parsed from the second reply.
\<close>

theorem get_ui_element_coordinates_grid:
  assumes "grid_stale age" "grid_dims w h n = Some (rows, cols)" "extract_cell_number reply = Some k"
  shows "get_ui_element_coordinates n age (Inr (w, h)) now p reply fb_reply c =
           (Inr (if 1 \<le> k \<and> k \<le> rows * cols
                 then Some ((k - 1) mod cols * (w div cols) + w div cols div 2, (k - 1) div cols * (h div rows) + h div rows div 2)
                 else parse_coordinates fb_reply),
            snd (save_screenshot_with_grid n (Inr (w, h)) now p c))"
  using assms by (simp add: get_ui_element_coordinates_def ensure_grid_stale saved_grid_cells cell_center_grid)

lemma get_ui_element_coordinates_grid_witness:
  "get_ui_element_coordinates 1000 None (Inr (1920, 1080)) 1 (0, 0) ''Cell #41'' ''no idea'' (cache_init :: string screenshot_cache) =
     (Inr (Some (24, 69)), snd (save_screenshot_with_grid 1000 (Inr (1920, 1080)) 1 (0, 0) (cache_init :: string screenshot_cache)))"
  using get_ui_element_coordinates_grid[of None 1920 1080 1000 23 40 "''Cell #41''" 41 1 "(0, 0)" "''no idea''" cache_init]
    grid_dims_example
  by (simp add: grid_stale_def extract_cell_number_def is_digit_def digits_val_def)

text \<open>
  When the reply names a cell of the freshly captured grid, \<open>move_mouse_to_ui_element\<close>
  issues exactly one move, to that cell's centre.
\<close>

theorem move_mouse_to_ui_element_grid:
  assumes "grid_stale age" "grid_dims w h n = Some (rows, cols)" "extract_cell_number reply = Some k"
    and "1 \<le> k" "k \<le> rows * cols"
  shows "log (snd (snd (move_mouse_to_ui_element api n age (Inr (w, h)) now p reply fb_reply c st))) =
           log st @ [MoveTo (of_nat ((k - 1) mod cols * (w div cols) + w div cols div 2))
                            (of_nat ((k - 1) div cols * (h div rows) + h div rows div 2))]"
  using get_ui_element_coordinates_grid[OF assms(1-3), of now p fb_reply c] assms(4,5)
  by (simp add: move_mouse_to_ui_element_def invoke_def split: sum.splits)

lemma move_mouse_to_ui_element_grid_witness:
  "log (snd (snd (move_mouse_to_ui_element \<lparr>prim = \<lambda>a d. Inr d, screen_size = \<lambda>d. (1920, 1080), cursor_pos = \<lambda>d. (0, 0)\<rparr>
      1000 None (Inr (1920, 1080)) 1 (0, 0) ''#41'' [] (cache_init :: string screenshot_cache)
      \<lparr>listening = False, desk = (), log = []\<rparr>))) = [MoveTo 24 69]"
  using move_mouse_to_ui_element_grid[of None 1920 1080 1000 23 40 "''#41''" 41
      "\<lparr>prim = \<lambda>a d. Inr d, screen_size = \<lambda>d. (1920, 1080), cursor_pos = \<lambda>d. (0, 0)\<rparr>" 1 "(0, 0)" "[]"
      "cache_init :: string screenshot_cache" "\<lparr>listening = False, desk = (), log = []\<rparr>"]
    grid_dims_example
  by (simp add: grid_stale_def extract_cell_number_def is_digit_def digits_val_def)



text \<open>
  \<open>move_mouse_to_grid_cell\<close> (find_ui.py) and \<open>move_cursor_to_cell\<close> (screenshot_module.py)
  perform the same actions on the desktop; the first reports the coordinates it moved to
  where the second reports \<open>True\<close>, and a failing move is an exception of the first and
  \<open>False\<close> from the second.
\<close>

theorem move_mouse_to_grid_cell_equiv:
  "snd (move_mouse_to_grid_cell api c k st) = snd (move_cursor_to_cell api c k st) \<and>
   fst (move_cursor_to_cell api c k st) =
     (case fst (move_mouse_to_grid_cell api c k st) of Inr (Some xy) \<Rightarrow> True | _ \<Rightarrow> False)"
  by (auto simp: move_mouse_to_grid_cell_def move_cursor_to_cell_def split: option.splits sum.splits prod.splits)

end
