(* ===== verification/Voice.thy ===== *)
theory Voice
  imports Python
begin

text \<open>
  The voice pipeline of src/services/voice_input.py (\<open>VoiceInputProcessor\<close>). Its state,
  the attributes the methods read and write, is the record \<open>voice_state\<close>; the executor's
  futures are a pool of tasks in submission order, \<open>futures\<close> holds the indices of the
  tasks in \<open>self.futures\<close>. Three threads act on the state: the audio callback
  (\<open>audio_callback\<close>, one frame per call), the processing thread (one iteration of
  \<open>process_audio_queue\<close>: a segment taken from the queue, or a poll after the 0.2 s
  timeout), and the two workers of the \<open>ThreadPoolExecutor\<close> (a task starts, a task
  finishes with the text Whisper returned or the exception it raised). Each of these is an
  event (\<open>voice_event\<close>) and \<open>voice_step\<close> applies one; any interleaving of the threads
  is a sequence of events, and \<open>voice_reach\<close> is the set of states they reach. Audio
  samples are rationals; Whisper and the clock are the events' arguments.

  The lemmas show the invariant of the futures list, that a recording always ends at the
  maximum duration, that the buffer takes every frame while silent, that a finished
  transcription is lost when a new segment arrives before it is collected, and that a
  superseded transcription clears the processing indicator while a newer one is pending.
\<close>

record vad_config =
  vad_threshold :: rat
  silence_duration :: rat
  max_record_duration :: rat
  min_speech_duration :: rat

text \<open>The values \<open>__init__\<close> sets (\<open>vad_threshold=0.05\<close> by default).\<close>

definition default_vad :: vad_config where
  "default_vad = \<lparr>vad_threshold = 1 / 20, silence_duration = 3 / 10, max_record_duration = 3,
                  min_speech_duration = 1 / 5\<rparr>"

text \<open>
  A future of the executor: queued, running on a worker, finished with the value of
  \<open>_transcribe_audio\<close> (or its exception), or cancelled.
\<close>

datatype task_status = Queued | Running | Finished "exn + string option" | Cancelled

record voice_state =
  audio_queue :: "rat list list"
  text_queue :: "string list"
  is_running :: bool
  audio_buffer :: "rat list"
  last_speech_time :: timestamp
  recording_start_time :: timestamp
  is_recording :: bool
  pool :: "(rat list \<times> task_status) list"
  futures :: "nat list"
  processing_indicator :: bool
  callback_log :: "string list"    \<comment> \<open>the texts passed to \<open>self.callback\<close>\<close>

definition voice_init :: voice_state where
  "voice_init = \<lparr>audio_queue = [], text_queue = [], is_running = False, audio_buffer = [],
                 last_speech_time = 0, recording_start_time = 0, is_recording = False, pool = [],
                 futures = [], processing_indicator = False, callback_log = []\<rparr>"

subsection \<open>audio_callback\<close>

text \<open>\<open>np.mean(audio_data, axis=1)\<close> for several channels, \<open>flatten()\<close> for one.\<close>

definition mono :: "nat \<Rightarrow> rat list list \<Rightarrow> rat list" where
  "mono channels rows =
     (if 1 < channels then map (\<lambda>r. sum_list r / of_nat (length r)) rows else concat rows)"

text \<open>\<open>np.mean(np.abs(audio_data))\<close>; the mean of no samples is NaN, which exceeds no threshold.\<close>

definition frame_energy :: "rat list \<Rightarrow> rat option" where
  "frame_energy xs = (if xs = [] then None else Some (sum_list (map abs xs) / of_nat (length xs)))"

definition is_speech :: "vad_config \<Rightarrow> rat list \<Rightarrow> bool" where
  "is_speech cfg xs = (case frame_energy xs of None \<Rightarrow> False | Some e \<Rightarrow> vad_threshold cfg < e)"

text \<open>The end of a recording: the buffer is queued when long enough, and cleared in any case.\<close>

definition end_recording :: "vad_config \<Rightarrow> timestamp \<Rightarrow> voice_state \<Rightarrow> voice_state" where
  "end_recording cfg now s =
     (if min_speech_duration cfg \<le> now - recording_start_time s
      then s\<lparr>audio_queue := audio_queue s @ [audio_buffer s], processing_indicator := True\<rparr>
      else s)\<lparr>audio_buffer := [], is_recording := False\<rparr>"

definition audio_callback :: "vad_config \<Rightarrow> timestamp \<Rightarrow> nat \<Rightarrow> rat list list \<Rightarrow> voice_state \<Rightarrow> voice_state" where
  "audio_callback cfg now channels rows s =
     (let xs = mono channels rows;
          s1 = s\<lparr>audio_buffer := audio_buffer s @ xs\<rparr>;
          s2 = (if is_speech cfg xs
                then (if is_recording s1 then s1 else s1\<lparr>is_recording := True, recording_start_time := now\<rparr>)
                       \<lparr>last_speech_time := now\<rparr>
                else s1)
      in if is_recording s2 \<and>
            (silence_duration cfg \<le> now - last_speech_time s2 \<or> max_record_duration cfg \<le> now - recording_start_time s2)
         then end_recording cfg now s2
         else s2)"

subsection \<open>process_audio_queue and the executor\<close>

text \<open>\<open>audio_data / np.max(np.abs(audio_data))\<close>; \<open>np.max\<close> of an empty array raises.\<close>

definition normalize :: "rat list \<Rightarrow> exn + rat list" where
  "normalize xs =
     (if xs = [] then Inl ValueError
      else let m = fold max (map abs xs) 0 in Inr (if 0 < m then map (\<lambda>x. x / m) xs else xs))"

text \<open>\<open>future.cancel()\<close> for every future of \<open>self.futures\<close>: only a queued one can be cancelled.\<close>

definition cancel_pending :: "nat list \<Rightarrow> (rat list \<times> task_status) list \<Rightarrow> (rat list \<times> task_status) list" where
  "cancel_pending ids ts =
     map (\<lambda>(i, (a, st)). (a, if i \<in> set ids \<and> st = Queued then Cancelled else st)) (zip [0..<length ts] ts)"

definition task_done :: "task_status \<Rightarrow> bool" where
  "task_done st = (case st of Finished r \<Rightarrow> True | Cancelled \<Rightarrow> True | _ \<Rightarrow> False)"

text \<open>
  The collecting loop: every done future of \<open>self.futures\<close> is removed; a non-empty
  transcription goes to \<open>text_queue\<close> and to the callback, an exception (also the
  \<open>CancelledError\<close> of a cancelled future) is printed.
\<close>

definition delivered :: "(rat list \<times> task_status) list \<Rightarrow> nat list \<Rightarrow> string list" where
  "delivered ts ids =
     List.map_filter (\<lambda>i. case snd (ts ! i) of Finished (Inr (Some t)) \<Rightarrow> Some t | _ \<Rightarrow> None) ids"

definition collect :: "bool \<Rightarrow> voice_state \<Rightarrow> voice_state" where
  "collect has_cb s =
     (let ts = delivered (pool s) (futures s)
      in s\<lparr>text_queue := text_queue s @ ts,
           callback_log := (if has_cb then callback_log s @ ts else callback_log s),
           futures := filter (\<lambda>i. \<not> task_done (snd (pool s ! i))) (futures s)\<rparr>)"

text \<open>
  One iteration with a segment: it is taken from the queue and normalized, the pending
  futures are cancelled, a new task is submitted and \<open>self.futures\<close> becomes that task
  alone; the collecting loop then finds it not done yet.
\<close>

definition take_segment :: "voice_state \<Rightarrow> voice_state" where
  "take_segment s =
     (case audio_queue s of
        [] \<Rightarrow> s
      | a # q \<Rightarrow>
          (case normalize a of
             Inl e \<Rightarrow> s\<lparr>audio_queue := q\<rparr>
           | Inr a' \<Rightarrow>
               let ts = cancel_pending (futures s) (pool s)
               in s\<lparr>audio_queue := q, pool := ts @ [(a', Queued)], futures := [length ts]\<rparr>))"

text \<open>\<open>_transcribe_audio\<close> after \<open>model.transcribe\<close>: the stripped text, \<open>None\<close> when empty.\<close>

definition transcription_of :: "exn + string \<Rightarrow> exn + string option" where
  "transcription_of r = (case r of Inl e \<Rightarrow> Inl e | Inr t \<Rightarrow> Inr (if py_strip t = [] then None else Some (py_strip t)))"

definition running_count :: "(rat list \<times> task_status) list \<Rightarrow> nat" where
  "running_count ts = length (filter (\<lambda>(a, st). st = Running) ts)"

text \<open>A worker of the pool (\<open>max_workers=2\<close>) takes a queued task.\<close>

definition worker_start :: "nat \<Rightarrow> voice_state \<Rightarrow> voice_state" where
  "worker_start i s =
     (if i < length (pool s) \<and> snd (pool s ! i) = Queued \<and> running_count (pool s) < 2
      then s\<lparr>pool := (pool s)[i := (fst (pool s ! i), Running)]\<rparr> else s)"

text \<open>
  A running task ends; \<open>processing_indicator = False\<close> is reached only when
  \<open>model.transcribe\<close> returned.
\<close>

definition worker_finish :: "nat \<Rightarrow> exn + string \<Rightarrow> voice_state \<Rightarrow> voice_state" where
  "worker_finish i r s =
     (if i < length (pool s) \<and> snd (pool s ! i) = Running
      then s\<lparr>pool := (pool s)[i := (fst (pool s ! i), Finished (transcription_of r))],
             processing_indicator := (case r of Inl e \<Rightarrow> processing_indicator s | Inr t \<Rightarrow> False)\<rparr>
      else s)"

text \<open>\<open>start()\<close> and \<open>stop()\<close> (the stream is started and stopped with them).\<close>

definition voice_start :: "voice_state \<Rightarrow> voice_state" where
  "voice_start s = (if is_running s then s else s\<lparr>is_running := True, futures := []\<rparr>)"

definition voice_stop :: "voice_state \<Rightarrow> voice_state" where
  "voice_stop s = (if is_running s then s\<lparr>is_running := False, pool := cancel_pending (futures s) (pool s)\<rparr> else s)"

text \<open>\<open>get_all_transcriptions()\<close>: the whole delivery queue, emptied.\<close>

definition get_all_transcriptions :: "voice_state \<Rightarrow> string list \<times> voice_state" where
  "get_all_transcriptions s = (text_queue s, s\<lparr>text_queue := []\<rparr>)"

text \<open>\<open>get_transcription()\<close> without blocking.\<close>

definition get_transcription :: "voice_state \<Rightarrow> string option \<times> voice_state" where
  "get_transcription s = (case text_queue s of [] \<Rightarrow> (None, s) | t # q \<Rightarrow> (Some t, s\<lparr>text_queue := q\<rparr>))"

subsection \<open>Interleavings\<close>

datatype voice_event =
    Frame timestamp nat "rat list list"     \<comment> \<open>\<open>audio_callback\<close> with a block of samples\<close>
  | Segment                                 \<comment> \<open>the processing thread takes a segment\<close>
  | Poll                                    \<comment> \<open>the processing thread after \<open>queue.Empty\<close>\<close>
  | WorkerStart nat
  | WorkerFinish nat "exn + string"
  | VStart
  | VStop
  | TakeAll                                 \<comment> \<open>\<open>get_all_transcriptions()\<close> by the agent loop\<close>

fun voice_step :: "vad_config \<Rightarrow> bool \<Rightarrow> voice_event \<Rightarrow> voice_state \<Rightarrow> voice_state" where
  "voice_step cfg cb (Frame now ch rows) s = audio_callback cfg now ch rows s"
| "voice_step cfg cb Segment s =
     (if is_running s \<and> audio_queue s \<noteq> [] then collect cb (take_segment s) else s)"
| "voice_step cfg cb Poll s = (if is_running s \<and> audio_queue s = [] then collect cb s else s)"
| "voice_step cfg cb (WorkerStart i) s = worker_start i s"
| "voice_step cfg cb (WorkerFinish i r) s = worker_finish i r s"
| "voice_step cfg cb VStart s = voice_start s"
| "voice_step cfg cb VStop s = voice_stop s"
| "voice_step cfg cb TakeAll s = snd (get_all_transcriptions s)"

inductive voice_reach :: "vad_config \<Rightarrow> bool \<Rightarrow> voice_state \<Rightarrow> bool" for cfg cb where
  init: "voice_reach cfg cb voice_init"
| step: "voice_reach cfg cb s \<Longrightarrow> voice_reach cfg cb (voice_step cfg cb e s)"

text \<open>The invariant: \<open>self.futures\<close> is empty or holds the last task submitted; at most two tasks run.\<close>

definition voice_inv :: "voice_state \<Rightarrow> bool" where
  "voice_inv s \<longleftrightarrow>
     (futures s = [] \<or> (pool s \<noteq> [] \<and> futures s = [length (pool s) - 1])) \<and> running_count (pool s) \<le> 2"

subsection \<open>Properties\<close>


lemma running_count_conv: "running_count ts = card {i. i < length ts \<and> snd (ts ! i) = Running}"
  by (simp add: running_count_def length_filter_conv_card case_prod_beta)

lemma cancel_pending_length [simp]: "length (cancel_pending ids ts) = length ts"
  by (simp add: cancel_pending_def)

lemma cancel_pending_nth:
  "i < length ts \<Longrightarrow>
   cancel_pending ids ts ! i = (fst (ts ! i), if i \<in> set ids \<and> snd (ts ! i) = Queued then Cancelled else snd (ts ! i))"
  by (simp add: cancel_pending_def case_prod_beta)

lemma cancel_pending_Nil [simp]: "cancel_pending ids ts = [] \<longleftrightarrow> ts = []"
  by (metis cancel_pending_length length_0_conv)

lemma running_count_cancel [simp]: "running_count (cancel_pending ids ts) = running_count ts"
  unfolding running_count_conv by (rule arg_cong[where f = card]) (auto simp: cancel_pending_nth split: if_splits)

lemma running_count_snoc_queued [simp]: "running_count (ts @ [(a, Queued)]) = running_count ts"
  by (simp add: running_count_def)

lemma running_count_upd:
  "i < length ts \<Longrightarrow>
   running_count (ts[i := x]) + (if snd (ts ! i) = Running then 1 else 0) =
   running_count ts + (if snd x = Running then 1 else 0)"
proof (induction ts arbitrary: i)
  case Nil
  then show ?case by simp
next
  case (Cons t ts)
  show ?case
  proof (cases i)
    case 0
    then show ?thesis by (auto simp: running_count_def case_prod_beta)
  next
    case (Suc j)
    then have "j < length ts" using Cons.prems by simp
    from Cons.IH[OF this] Suc show ?thesis by (auto simp: running_count_def case_prod_beta)
  qed
qed

lemma running_count_update:
  "i < length ts \<Longrightarrow> snd (ts ! i) \<noteq> Running \<Longrightarrow> st \<noteq> Running \<Longrightarrow> running_count (ts[i := (a, st)]) = running_count ts"
  "i < length ts \<Longrightarrow> snd (ts ! i) \<noteq> Running \<Longrightarrow> running_count (ts[i := (a, Running)]) = Suc (running_count ts)"
  "i < length ts \<Longrightarrow> snd (ts ! i) = Running \<Longrightarrow> st \<noteq> Running \<Longrightarrow> Suc (running_count (ts[i := (a, st)])) = running_count ts"
  using running_count_upd[of i ts] by auto

lemma audio_callback_tasks:
  "pool (audio_callback cfg now ch rows s) = pool s \<and> futures (audio_callback cfg now ch rows s) = futures s \<and>
   text_queue (audio_callback cfg now ch rows s) = text_queue s \<and> is_running (audio_callback cfg now ch rows s) = is_running s"
  by (simp add: audio_callback_def end_recording_def Let_def)

lemma collect_tasks:
  "pool (collect cb s) = pool s \<and> set (futures (collect cb s)) \<subseteq> set (futures s) \<and> length (futures (collect cb s)) \<le> length (futures s)"
  by (auto simp: collect_def Let_def)

lemma take_segment_tasks:
  "take_segment s = s \<or> (futures (take_segment s) = futures s \<and> pool (take_segment s) = pool s) \<or>
   (\<exists>a. pool (take_segment s) = cancel_pending (futures s) (pool s) @ [(a, Queued)] \<and>
        futures (take_segment s) = [length (pool s)])"
  by (auto simp: take_segment_def split: list.splits sum.splits)

lemma futures_sub_inv:
  "voice_inv s \<Longrightarrow> pool s' = pool s \<Longrightarrow> set (futures s') \<subseteq> set (futures s) \<Longrightarrow> length (futures s') \<le> length (futures s) \<Longrightarrow>
   voice_inv s'"
  by (cases "futures s'") (auto simp: voice_inv_def)

lemma voice_step_inv:
  assumes inv: "voice_inv s"
  shows "voice_inv (voice_step cfg cb e s)"
proof (cases e)
  case (Frame now ch rows)
  then show ?thesis
    using inv audio_callback_tasks[of cfg now ch rows s] by (simp add: voice_inv_def)
next
  case Segment
  have ts: "voice_inv (take_segment s)"
    using take_segment_tasks[of s] inv by (auto simp: voice_inv_def)
  show ?thesis using Segment inv futures_sub_inv[OF ts collect_tasks[THEN conjunct1]] collect_tasks by auto
next
  case Poll
  then show ?thesis using inv futures_sub_inv[of s "collect cb s"] collect_tasks by auto
next
  case (WorkerStart i)
  then show ?thesis using inv running_count_update(2)[of i "pool s" "fst (pool s ! i)"]
    by (auto simp: voice_inv_def worker_start_def)
next
  case (WorkerFinish i r)
  then show ?thesis using inv running_count_update(3)[of i "pool s" "Finished (transcription_of r)" "fst (pool s ! i)"]
    by (auto simp: voice_inv_def worker_finish_def)
next
  case VStart
  then show ?thesis using inv by (auto simp: voice_inv_def voice_start_def)
next
  case VStop
  then show ?thesis using inv by (auto simp: voice_inv_def voice_stop_def)
next
  case TakeAll
  then show ?thesis using inv by (simp add: voice_inv_def get_all_transcriptions_def)
qed

lemma voice_reach_inv: "voice_reach cfg cb s \<Longrightarrow> voice_inv s"
proof (induction rule: voice_reach.induct)
  case init
  then show ?case by (simp add: voice_inv_def voice_init_def running_count_def)
next
  case (step s e)
  then show ?case by (simp add: voice_step_inv)
qed

lemma voice_step_pool_mono: "length (pool s) \<le> length (pool (voice_step cfg cb e s))"
proof (cases e)
  case Segment
  then show ?thesis using take_segment_tasks[of s] collect_tasks[of cb "take_segment s"] by auto
next
  case Poll
  then show ?thesis using collect_tasks[of cb s] by auto
qed (auto simp: audio_callback_tasks worker_start_def worker_finish_def voice_start_def voice_stop_def
    get_all_transcriptions_def)

lemma voice_reach_fold: "voice_reach cfg cb s \<Longrightarrow> voice_reach cfg cb (fold (voice_step cfg cb) evs s)"
  by (induction evs arbitrary: s) (auto intro: voice_reach.step)

lemma voice_pool_fold_mono: "length (pool s) \<le> length (pool (fold (voice_step cfg cb) evs s))"
  by (induction evs arbitrary: s) (auto intro: order_trans[OF voice_step_pool_mono])

text \<open>
  C29. In every state the three threads can reach, at most one future is kept in
  \<open>self.futures\<close>, and it is the task submitted last; at most two tasks run at a time.
\<close>

theorem voice_single_future:
  assumes "voice_reach cfg cb s"
  shows "length (futures s) \<le> 1 \<and> (\<forall>i\<in>set (futures s). Suc i = length (pool s)) \<and> running_count (pool s) \<le> 2"
  using voice_reach_inv[OF assms] by (auto simp: voice_inv_def)

lemma voice_single_future_witness:
  "futures (fold (voice_step default_vad True) [VStart, Frame 0 1 [[1]], Frame 1 1 [[0]], Segment] voice_init) = [0] \<and>
   length (pool (fold (voice_step default_vad True) [VStart, Frame 0 1 [[1]], Frame 1 1 [[0]], Segment] voice_init)) = 1"
proof -
  let ?s = "fold (voice_step default_vad True) [VStart, Frame 0 1 [[1]], Frame 1 1 [[0]], Segment] voice_init"
  have "futures ?s = [0]"
    by (simp add: voice_init_def voice_start_def audio_callback_def end_recording_def is_speech_def
        frame_energy_def mono_def default_vad_def take_segment_def normalize_def cancel_pending_def collect_def
        delivered_def task_done_def Let_def List.map_filter_simps)
  note f0 = this
  have "\<forall>i\<in>set (futures ?s). Suc i = length (pool ?s)"
    using voice_single_future[OF voice_reach_fold[OF voice_reach.init]] by (rule conjunct1[OF conjunct2])
  then have "Suc 0 = length (pool ?s)" using f0 by (metis list.set_intros(1))
  then show ?thesis using f0 by (simp only: One_nat_def)
qed

lemma take_segment_submit:
  assumes "audio_queue s = a # q" "a \<noteq> []"
  shows "\<exists>a'. take_segment s = s\<lparr>audio_queue := q, pool := cancel_pending (futures s) (pool s) @ [(a', Queued)],
                                   futures := [length (pool s)]\<rparr>"
  using assms by (auto simp: take_segment_def normalize_def Let_def)

text \<open>
  C30. When a segment arrives before the processing thread has collected a finished
  transcription, \<open>self.futures\<close> is replaced by the new task: the finished text is not
  delivered then, and its task never returns to \<open>self.futures\<close>, so it is never delivered.
\<close>

theorem segment_drops_finished:
  assumes "voice_reach cfg cb s" "is_running s" "audio_queue s = a # q" "a \<noteq> []"
    and "futures s = [i]" "snd (pool s ! i) = Finished (Inr (Some t))"
  shows "text_queue (voice_step cfg cb Segment s) = text_queue s \<and>
         (\<forall>evs. i \<notin> set (futures (fold (voice_step cfg cb) evs (voice_step cfg cb Segment s))))"
proof -
  obtain a' where ts: "take_segment s = s\<lparr>audio_queue := q, pool := cancel_pending (futures s) (pool s) @ [(a', Queued)],
                                   futures := [length (pool s)]\<rparr>"
    using take_segment_submit[OF assms(3,4)] by blast
  let ?s1 = "voice_step cfg cb Segment s"
  have s1: "?s1 = collect cb (take_segment s)" using assms(2,3) by simp
  have n: "(cancel_pending (futures s) (pool s) @ [(a', Queued)]) ! length (pool s) = (a', Queued)"
    by (metis cancel_pending_length nth_append_length)
  have tq: "text_queue ?s1 = text_queue s" and pl: "length (pool ?s1) = Suc (length (pool s))"
    using s1 ts n by (simp_all add: collect_def delivered_def List.map_filter_simps)
  have i: "i < length (pool s)" using voice_reach_inv[OF assms(1)] assms(5) by (auto simp: voice_inv_def)
  have "i \<notin> set (futures (fold (voice_step cfg cb) evs ?s1))" for evs
  proof -
    let ?s2 = "fold (voice_step cfg cb) evs ?s1"
    have "voice_inv ?s2" using voice_reach_inv voice_reach_fold voice_reach.step[OF assms(1)] by blast
    moreover have "length (pool ?s1) \<le> length (pool ?s2)" by (rule voice_pool_fold_mono)
    ultimately show ?thesis using pl i by (auto simp: voice_inv_def)
  qed
  then show ?thesis using tq by blast
qed

lemma segment_drops_finished_witness:
  "text_queue (voice_step default_vad True Segment
      (fold (voice_step default_vad True)
        [VStart, Frame 0 1 [[1]], Frame 1 1 [[0]], Segment, WorkerStart 0, WorkerFinish 0 (Inr ''hello''),
         Frame 2 1 [[1]], Frame 3 1 [[0]]] voice_init)) = [] \<and>
   0 \<notin> set (futures (fold (voice_step default_vad True) [Poll]
      (voice_step default_vad True Segment
        (fold (voice_step default_vad True)
          [VStart, Frame 0 1 [[1]], Frame 1 1 [[0]], Segment, WorkerStart 0, WorkerFinish 0 (Inr ''hello''),
           Frame 2 1 [[1]], Frame 3 1 [[0]]] voice_init))))"
proof -
  let ?s = "fold (voice_step default_vad True)
        [VStart, Frame 0 1 [[1]], Frame 1 1 [[0]], Segment, WorkerStart 0, WorkerFinish 0 (Inr ''hello''),
         Frame 2 1 [[1]], Frame 3 1 [[0]]] voice_init"
  have r: "voice_reach default_vad True ?s" by (rule voice_reach_fold[OF voice_reach.init])
  have f: "is_running ?s" "audio_queue ?s = [[1, 0]]" "futures ?s = [0]"
      "snd (pool ?s ! 0) = Finished (Inr (Some ''hello''))" "text_queue ?s = []"
    by (simp_all add: voice_init_def voice_start_def audio_callback_def end_recording_def is_speech_def
        frame_energy_def mono_def default_vad_def take_segment_def normalize_def cancel_pending_def collect_def
        delivered_def task_done_def worker_start_def worker_finish_def running_count_def transcription_of_def
        py_strip_def py_isspace_def Let_def List.map_filter_simps)
  have c: "text_queue (voice_step default_vad True Segment ?s) = text_queue ?s \<and>
      (\<forall>evs. 0 \<notin> set (futures (fold (voice_step default_vad True) evs (voice_step default_vad True Segment ?s))))"
    by (rule segment_drops_finished[OF r f(1,2) _ f(3,4)]) simp
  show ?thesis
  proof
    show "text_queue (voice_step default_vad True Segment ?s) = []" using c f(5) by (simp only:)
  next
    show "0 \<notin> set (futures (fold (voice_step default_vad True) [Poll] (voice_step default_vad True Segment ?s)))"
      using c by (rule conjunct2[THEN spec])
  qed
qed

text \<open>
  C31. A superseded transcription that finishes sets \<open>processing_indicator\<close> to False while
  the task that replaced it is still queued, so \<open>is_processing()\<close> reports no work in flight.
\<close>

theorem superseded_clears_indicator:
  assumes "i < length (pool s)" "snd (pool s ! i) = Running" "j < length (pool s)" "j \<noteq> i"
    and "snd (pool s ! j) = Queued" "futures s = [j]"
  shows "\<not> processing_indicator (voice_step cfg cb (WorkerFinish i (Inr r)) s) \<and>
         snd (pool (voice_step cfg cb (WorkerFinish i (Inr r)) s) ! j) = Queued \<and>
         futures (voice_step cfg cb (WorkerFinish i (Inr r)) s) = [j]"
  using assms by (simp add: worker_finish_def)

lemma superseded_clears_indicator_witness:
  "\<not> processing_indicator (voice_step default_vad True (WorkerFinish 0 (Inr ''old'')) 
       (voice_init\<lparr>is_running := True, pool := [([1], Running), ([1], Queued)], futures := [1],
                   processing_indicator := True\<rparr>))"
  using superseded_clears_indicator[of 0 "voice_init\<lparr>is_running := True, pool := [([1], Running), ([1], Queued)],
      futures := [1], processing_indicator := True\<rparr>" 1 default_vad True "''old''"]
  by simp

text \<open>
  C32. A recording always ends at the first audio frame at least \<open>max_record_duration\<close> after
  it started: the buffer is cleared, and queued when the recording was long enough.
\<close>

theorem recording_ends:
  assumes "is_recording s" "max_record_duration cfg \<le> now - recording_start_time s"
  shows "\<not> is_recording (audio_callback cfg now ch rows s) \<and> audio_buffer (audio_callback cfg now ch rows s) = [] \<and>
         audio_queue (audio_callback cfg now ch rows s) =
           (if min_speech_duration cfg \<le> now - recording_start_time s
            then audio_queue s @ [audio_buffer s @ mono ch rows] else audio_queue s)"
  using assms by (simp add: audio_callback_def end_recording_def Let_def)

lemma recording_ends_witness:
  "audio_queue (audio_callback default_vad 4 1 [[0], [0]]
     (voice_init\<lparr>is_recording := True, recording_start_time := 1, audio_buffer := [1, 1]\<rparr>)) = [[1, 1, 0, 0]]"
  using recording_ends[of "voice_init\<lparr>is_recording := True, recording_start_time := 1, audio_buffer := [1, 1]\<rparr>"
      default_vad 4 1 "[[0], [0]]"]
  by (simp add: default_vad_def voice_init_def mono_def)

text \<open>
  While no speech is detected, every frame is appended to the audio buffer and nothing is
  queued: the buffer grows without bound, and the next segment starts with all that silence.
\<close>

theorem silent_frames_accumulate:
  assumes "\<not> is_recording s" "\<forall>(t, ch, rows)\<in>set frames. \<not> is_speech cfg (mono ch rows)"
  shows "audio_buffer (fold (\<lambda>(t, ch, rows). audio_callback cfg t ch rows) frames s) =
           audio_buffer s @ concat (map (\<lambda>(t, ch, rows). mono ch rows) frames) \<and>
         \<not> is_recording (fold (\<lambda>(t, ch, rows). audio_callback cfg t ch rows) frames s) \<and>
         audio_queue (fold (\<lambda>(t, ch, rows). audio_callback cfg t ch rows) frames s) = audio_queue s"
  using assms
proof (induction frames arbitrary: s)
  case Nil
  then show ?case by simp
next
  case (Cons f frames)
  obtain t ch rows where f: "f = (t, ch, rows)" by (cases f) auto
  let ?s1 = "audio_callback cfg t ch rows s"
  have "audio_buffer ?s1 = audio_buffer s @ mono ch rows \<and> \<not> is_recording ?s1 \<and> audio_queue ?s1 = audio_queue s"
    using Cons.prems f by (simp add: audio_callback_def Let_def)
  then show ?case using Cons.IH[of ?s1] Cons.prems f by simp
qed

lemma silent_frames_accumulate_witness:
  "audio_buffer (fold (\<lambda>(t, ch, rows). audio_callback default_vad t ch rows) [(1, 1, [[0], [0]]), (2, 1, [[0]])] voice_init) =
     [0, 0, 0]"
  using silent_frames_accumulate[of voice_init "[(1, 1, [[0], [0]]), (2, 1, [[0]])]" default_vad]
  by (simp add: voice_init_def default_vad_def is_speech_def frame_energy_def mono_def)

end
