(* ===== verification/AgentLoop.thy ===== *)
theory AgentLoop
  imports Python
begin

text \<open>
  The agent iteration loop of src/main.py (\<open>run_desktop_agent\<close>): the voice commands of
  \<open>process_voice_input\<close>, the construction of each turn's messages, the history policy,
  and the loop's control flow. Transcriptions are Python \<open>str\<close> values with Cyrillic
  text, so they are lists of code points (\<open>ustr\<close>); \<open>str.lower\<close> is modelled on the ASCII
  and Cyrillic letters, \<open>str.strip\<close> on the whitespace of \<open>str.isspace\<close> below U+3001.

  The conversation is a list of references to message dicts: \<open>temp_messages =
  list(messages)\<close> copies the references, not the dicts, so the model keeps the dicts in a
  store (\<open>heap\<close>, a list indexed by address) and the lists of references apart
  (\<open>prepare_turn\<close>). The loop's environment (the stop signal, \<open>is_processing()\<close>, the
  transcriptions polled, the pause gate after the commands) is one observation per pass,
  and the loop runs on fuel: \<open>None\<close> is a loop that has not ended. The sensing, the call
  of the language model and the command executor are the components modelled in
  ScreenCache, JsonExtract and Executor.
\<close>

type_synonym ustr = "nat list"

subsection \<open>process_voice_input\<close>

definition u_isspace :: "nat \<Rightarrow> bool" where
  "u_isspace c \<longleftrightarrow> c \<in> {9..13} \<or> c \<in> {28..32} \<or> c = 133 \<or> c = 160 \<or> c = 5760 \<or> c \<in> {8192..8202} \<or>
                 c = 8232 \<or> c = 8233 \<or> c = 8239 \<or> c = 8287 \<or> c = 12288"

definition u_strip :: "ustr \<Rightarrow> ustr" where
  "u_strip s = rev (dropWhile u_isspace (rev (dropWhile u_isspace s)))"

text \<open>\<open>str.lower()\<close> on A-Z and on the Cyrillic capitals U+0410-U+042F and U+0400-U+040F.\<close>

definition u_lower_char :: "nat \<Rightarrow> nat" where
  "u_lower_char c =
     (if 65 \<le> c \<and> c \<le> 90 then c + 32
      else if 1040 \<le> c \<and> c \<le> 1071 then c + 32
      else if 1024 \<le> c \<and> c \<le> 1039 then c + 80
      else c)"

definition u_lower :: "ustr \<Rightarrow> ustr" where
  "u_lower s = map u_lower_char s"

text \<open>\<open>sub in s\<close> for strings.\<close>

fun u_contains :: "ustr \<Rightarrow> ustr \<Rightarrow> bool" where
  "u_contains sub [] \<longleftrightarrow> sub = []"
| "u_contains sub (c # cs) \<longleftrightarrow> take (length sub) (c # cs) = sub \<or> u_contains sub cs"

definition stop_phrases :: "ustr list" where
  "stop_phrases = [[1089, 1090, 1086, 1087], [1086, 1089, 1090, 1072, 1085, 1086, 1074, 1080],
                   [1087, 1088, 1077, 1082, 1088, 1072, 1090, 1080]]"
  \<comment> \<open>stop, ostanovi, prekrati (Cyrillic)\<close>

definition pause_phrases :: "ustr list" where
  "pause_phrases = [[1087, 1072, 1091, 1079, 1072], [1087, 1086, 1076, 1086, 1078, 1076, 1080]]"
  \<comment> \<open>pauza, podozhdi\<close>

definition resume_phrases :: "ustr list" where
  "resume_phrases = [[1087, 1088, 1086, 1076, 1086, 1083, 1078, 1072, 1081],
                     [1087, 1088, 1086, 1076, 1086, 1083, 1078, 1080, 1090, 1100],
                     [1076, 1072, 1083, 1100, 1096, 1077]]"
  \<comment> \<open>prodolzhai, prodolzhit', dal'she\<close>

text \<open>The transcriptions the loop ignores: empty, or containing MUZYKA (upper case), Subtit or subtit (Cyrillic, line 242).\<close>

definition accepted :: "ustr \<Rightarrow> bool" where
  "accepted t \<longleftrightarrow> t \<noteq> [] \<and> \<not> u_contains [1052, 1059, 1047, 1067, 1050, 1040] t \<and>
                  \<not> u_contains [1057, 1091, 1073, 1090, 1080, 1090] t \<and> \<not> u_contains [1089, 1091, 1073, 1090, 1080, 1090] t"

datatype voice_result = VoiceStop | VoicePause | VoiceResume | VoiceText ustr | VoiceNone

definition classify :: "ustr \<Rightarrow> voice_result" where
  "classify f =
     (let l = u_lower f
      in if l \<in> set stop_phrases then VoiceStop
         else if l \<in> set pause_phrases then VoicePause
         else if l \<in> set resume_phrases then VoiceResume
         else VoiceText f)"

text \<open>
  One batch of \<open>get_all_transcriptions()\<close>: the first accepted transcription decides, the
  rest of the batch, already taken from the queue, is dropped.
\<close>

fun voice_feedback_of :: "ustr list \<Rightarrow> voice_result" where
  "voice_feedback_of [] = VoiceNone"
| "voice_feedback_of (t # ts) = (if accepted t then classify (u_strip t) else voice_feedback_of ts)"

text \<open>The polling window: batch after batch until one decides.\<close>

fun poll_voice :: "ustr list list \<Rightarrow> voice_result" where
  "poll_voice [] = VoiceNone"
| "poll_voice (b # bs) = (case voice_feedback_of b of VoiceNone \<Rightarrow> poll_voice bs | r \<Rightarrow> r)"

text \<open>The pause gate after \<open>process_voice_input\<close>: \<open>set_listening\<close> for pause, resume and text.\<close>

definition gate_after_voice :: "voice_result \<Rightarrow> bool \<Rightarrow> bool" where
  "gate_after_voice r g =
     (case r of VoicePause \<Rightarrow> True | VoiceResume \<Rightarrow> False | VoiceText t \<Rightarrow> False | _ \<Rightarrow> g)"

text \<open>The text \<open>"STOP_COMMAND"\<close>, which \<open>process_voice_input\<close> also returns for a stop phrase.\<close>

definition stop_command :: ustr where
  "stop_command = [83, 84, 79, 80, 95, 67, 79, 77, 77, 65, 78, 68]"

definition is_stop_command :: "voice_result \<Rightarrow> bool" where
  "is_stop_command r = (case r of VoiceStop \<Rightarrow> True | VoiceText t \<Rightarrow> t = stop_command | _ \<Rightarrow> False)"

text \<open>The truth of \<open>voice_feedback\<close>: a non-empty text (a stripped blank transcription is \<open>''\<close>).\<close>

definition has_feedback :: "voice_result \<Rightarrow> bool" where
  "has_feedback r = (case r of VoiceText t \<Rightarrow> t \<noteq> [] | _ \<Rightarrow> False)"

subsection \<open>Messages\<close>

datatype part =
    TextPart string
  | ImagePart string            \<comment> \<open>a base64 JPEG payload\<close>
  | VoicePart ustr              \<comment> \<open>\<open>f"Voice feedback: {voice_feedback}"\<close>\<close>
  | TurnPart string "part list" \<comment> \<open>a whole message dict used as a content item\<close>

record message =
  mrole :: string
  mcontent :: "part list"

type_synonym heap = "message list"

definition message_content :: "string \<Rightarrow> ustr option \<Rightarrow> part list" where
  "message_content img vf =
     [TextPart ''Fullscreen screenshot:'', ImagePart img] @ (case vf of Some t \<Rightarrow> [VoicePart t] | None \<Rightarrow> [])"

definition placeholder :: part where
  "placeholder = TextPart (CHR 0x27 # ''*Screenshots hidden by system*'' @ [CHR 0x27])"

text \<open>\<open>xs[-1]['content'].extend(items)\<close> on the dict at the last reference of \<open>xs\<close>.\<close>

definition extend_last :: "heap \<Rightarrow> nat list \<Rightarrow> part list \<Rightarrow> heap" where
  "extend_last h xs items = h[last xs := (h ! last xs)\<lparr>mcontent := mcontent (h ! last xs) @ items\<rparr>]"

text \<open>
  Lines 330-350 of one iteration: the temporary list sent to the model and the persisted
  history. Result: the store, the persisted references, the temporary references.
\<close>

definition prepare_turn :: "heap \<Rightarrow> nat list \<Rightarrow> string \<Rightarrow> ustr option \<Rightarrow> heap \<times> nat list \<times> nat list" where
  "prepare_turn h ms img vf =
     (let mc = message_content img vf;
          (h1, temp) = (if mrole (h ! last ms) = ''user'' then (extend_last h ms mc, ms)
                        else (h @ [\<lparr>mrole = ''user'', mcontent = mc\<rparr>], ms @ [length h]))
      in if mrole (h1 ! last ms) = ''user'' then (extend_last h1 ms [placeholder], ms, temp)
         else (h1 @ [\<lparr>mrole = ''user'', mcontent = [TurnPart ''user'' [placeholder]]\<rparr>], ms @ [length h1], temp))"

text \<open>Lines 381-385: the first message and the 14 most recent once there are more than 15.\<close>

definition window :: "'a list \<Rightarrow> 'a list" where
  "window xs = (if 15 < length xs then hd xs # drop (length xs - 14) xs else xs)"

text \<open>Lines 375-385: the results summary as the next turn, then the history window.\<close>

definition record_results :: "heap \<Rightarrow> nat list \<Rightarrow> string \<Rightarrow> heap \<times> nat list" where
  "record_results h ms results =
     (let (h1, ms1) = (if mrole (h ! last ms) = ''user''
                       then (h @ [\<lparr>mrole = ''assistant'', mcontent = [TextPart results]\<rparr>], ms @ [length h])
                       else (extend_last h ms [TurnPart ''text'' [TextPart results]], ms))
      in (h1, window ms1))"

text \<open>
  One iteration's effect on the history: the screenshot, the voice feedback if any, and the
  results summary when the reply had commands. The history starts as the task message.
\<close>

datatype turn = Turn string "ustr option" "string option"

fun run_turns :: "heap \<Rightarrow> nat list \<Rightarrow> turn list \<Rightarrow> heap \<times> nat list" where
  "run_turns h ms [] = (h, ms)"
| "run_turns h ms (Turn img vf res # ts) =
     (let (h1, ms1, temp) = prepare_turn h ms img vf;
          (h2, ms2) = (case res of None \<Rightarrow> (h1, ms1) | Some r \<Rightarrow> record_results h1 ms1 r)
      in run_turns h2 ms2 ts)"

definition task_history :: "string \<Rightarrow> heap" where
  "task_history task = [\<lparr>mrole = ''user'', mcontent = [TextPart (''New task: '' @ task)]\<rparr>]"

subsection \<open>The history as values\<close>

text \<open>
  A well-formed history refers to distinct dicts of the store; reading it through the store
  gives the list of message values the code sees.
\<close>

definition hist_wf :: "heap \<Rightarrow> nat list \<Rightarrow> bool" where
  "hist_wf h ms \<longleftrightarrow> ms \<noteq> [] \<and> distinct ms \<and> (\<forall>a \<in> set ms. a < length h)"

definition deref :: "heap \<Rightarrow> nat list \<Rightarrow> message list" where
  "deref h ms = map (nth h) ms"

definition add_to_last :: "message list \<Rightarrow> part list \<Rightarrow> message list" where
  "add_to_last xs items = butlast xs @ [(last xs)\<lparr>mcontent := mcontent (last xs) @ items\<rparr>]"

text \<open>
  The value semantics of lines 330-350, aliasing resolved: the persisted history and the
  list handed to \<open>generate\<close> (after the placeholder is appended, as in the code).
\<close>

definition turn_values :: "message list \<Rightarrow> string \<Rightarrow> ustr option \<Rightarrow> message list \<times> message list" where
  "turn_values xs img vf =
     (let mc = message_content img vf
      in if mrole (last xs) = ''user'' then (add_to_last xs (mc @ [placeholder]), add_to_last xs (mc @ [placeholder]))
         else (xs @ [\<lparr>mrole = ''user'', mcontent = [TurnPart ''user'' [placeholder]]\<rparr>],
               xs @ [\<lparr>mrole = ''user'', mcontent = mc\<rparr>]))"

definition results_values :: "message list \<Rightarrow> string \<Rightarrow> message list" where
  "results_values xs r =
     window (if mrole (last xs) = ''user'' then xs @ [\<lparr>mrole = ''assistant'', mcontent = [TextPart r]\<rparr>]
             else add_to_last xs [TurnPart ''text'' [TextPart r]])"

subsection \<open>The loop\<close>

record loop_state =
  it :: nat                \<comment> \<open>the counter \<open>i\<close>\<close>
  agent_running :: bool
  listening_gate :: bool   \<comment> \<open>the \<open>listening\<close> global of execute_funcs.py\<close>

text \<open>What one pass of the loop observes.\<close>

record loop_obs =
  stop_requested :: bool                \<comment> \<open>\<open>stop_event.is_set()\<close>\<close>
  voice_busy :: bool                    \<comment> \<open>\<open>voice_processor.is_processing()\<close>\<close>
  voice_batches :: "ustr list list"     \<comment> \<open>what \<open>get_all_transcriptions()\<close> returns in the window\<close>
  gate_after_commands :: "bool option"  \<comment> \<open>the gate after \<open>process_commands\<close>, if it ran\<close>

datatype loop_exit = LoopEnded | StopSignal | VoiceStopExit

text \<open>
  One pass of \<open>while i < max_iterations and agent_running\<close>: a \<open>break\<close> is \<open>Inl\<close> with
  the state it leaves, the next pass \<open>Inr\<close>. \<open>voice_feedback == "STOP_COMMAND"\<close> (line 290)
  holds for a stop phrase and for a transcription that is that text, after which the gate
  has been cleared. The two \<open>continue\<close> statements leave \<open>i\<close> unchanged. Without voice the
  paused loop reads a manual prompt (\<open>input('>> ')\<close>) and goes on.
\<close>

definition loop_pass :: "bool \<Rightarrow> loop_obs \<Rightarrow> loop_state \<Rightarrow> (loop_exit \<times> loop_state) + loop_state" where
  "loop_pass use_voice ob st =
     (if stop_requested ob then Inl (StopSignal, st)
      else if use_voice \<and> voice_busy ob then Inr st
      else
        let r = (if use_voice then poll_voice (voice_batches ob) else VoiceNone);
            st1 = st\<lparr>listening_gate := gate_after_voice r (listening_gate st)\<rparr>
        in if is_stop_command r then Inl (VoiceStopExit, st1)
           else
             let st2 = (if listening_gate st1 \<and> has_feedback r then st1\<lparr>listening_gate := False\<rparr> else st1)
             in if listening_gate st2 \<and> \<not> has_feedback r \<and> use_voice then Inr st2
                else Inr (st2\<lparr>listening_gate := (case gate_after_commands ob of Some g \<Rightarrow> g | None \<Rightarrow> listening_gate st2),
                              it := Suc (it st2)\<rparr>))"

fun agent_loop :: "nat \<Rightarrow> nat \<Rightarrow> bool \<Rightarrow> (nat \<Rightarrow> loop_obs) \<Rightarrow> nat \<Rightarrow> loop_state \<Rightarrow> (loop_exit \<times> loop_state) option" where
  "agent_loop 0 mx use_voice env k st = None"
| "agent_loop (Suc f) mx use_voice env k st =
     (if \<not> (it st < mx \<and> agent_running st) then Some (LoopEnded, st)
      else case loop_pass use_voice (env k) st of
             Inl (r, st') \<Rightarrow> Some (r, st')
           | Inr st' \<Rightarrow> agent_loop f mx use_voice env (Suc k) st')"

subsection \<open>The history model\<close>

lemma extend_last_length [simp]: "length (extend_last h xs items) = length h"
  by (simp add: extend_last_def)

lemma extend_last_nth:
  "extend_last h xs items ! a = (if a = last xs \<and> a < length h then (h ! a)\<lparr>mcontent := mcontent (h ! a) @ items\<rparr> else h ! a)"
  by (cases "last xs < length h") (auto simp: extend_last_def nth_list_update list_update_beyond)

lemma extend_last_role [simp]: "mrole (extend_last h xs items ! a) = mrole (h ! a)"
  by (simp add: extend_last_nth)

lemma hist_wf_last: "hist_wf h ms \<Longrightarrow> last ms < length h"
  by (simp add: hist_wf_def)

lemma prepare_turn_user:
  assumes "hist_wf h ms" "mrole (h ! last ms) = ''user''"
  shows "prepare_turn h ms img vf = (extend_last (extend_last h ms (message_content img vf)) ms [placeholder], ms, ms)"
  using assms by (simp add: prepare_turn_def)

lemma prepare_turn_other:
  assumes "hist_wf h ms" "mrole (h ! last ms) \<noteq> ''user''"
  shows "prepare_turn h ms img vf =
           (h @ [\<lparr>mrole = ''user'', mcontent = message_content img vf\<rparr>, \<lparr>mrole = ''user'', mcontent = [TurnPart ''user'' [placeholder]]\<rparr>],
            ms @ [Suc (length h)], ms @ [length h])"
  using assms hist_wf_last[OF assms(1)] by (simp add: prepare_turn_def nth_append)

lemma deref_append_heap [simp]: "\<forall>a \<in> set ms. a < length h \<Longrightarrow> deref (h @ hs) ms = deref h ms"
  by (simp add: deref_def nth_append)

lemma deref_snoc [simp]: "deref h (ms @ [a]) = deref h ms @ [h ! a]"
  by (simp add: deref_def)

lemma deref_extend_last:
  assumes "hist_wf h ms"
  shows "deref (extend_last h ms items) ms = add_to_last (deref h ms) items"
proof -
  have ne: "ms \<noteq> []" and lt: "last ms < length h" using assms by (auto simp: hist_wf_def)
  have nd: "last ms \<notin> set (butlast ms)"
    using assms ne by (metis append_butlast_last_id distinct_append hist_wf_def disjoint_iff list.set_intros(1) set_append)
  have "deref (extend_last h ms items) (butlast ms) = deref h (butlast ms)"
    using nd by (auto simp: deref_def extend_last_nth)
  moreover have "deref h' ms = deref h' (butlast ms) @ [h' ! last ms]" for h'
    using ne by (metis append_butlast_last_id deref_def list.simps(8,9) map_append)
  ultimately show ?thesis
    using ne lt by (simp add: add_to_last_def deref_def map_butlast[symmetric] last_map extend_last_nth)
qed

lemma hist_wf_extend_last [simp]: "hist_wf (extend_last h xs items) ms = hist_wf h ms"
  by (simp add: hist_wf_def)

lemma hist_wf_append_heap: "hist_wf h ms \<Longrightarrow> hist_wf (h @ hs) ms"
  by (auto simp: hist_wf_def)

lemma hist_wf_snoc: "hist_wf h ms \<Longrightarrow> a \<notin> set ms \<Longrightarrow> a < length h \<Longrightarrow> hist_wf h (ms @ [a])"
  by (auto simp: hist_wf_def)

lemma window_length [simp]: "length (window xs) = min (length xs) 15"
  by (simp add: window_def)

lemma window_map: "window (map f xs) = map f (window xs)"
  by (cases "xs = []") (simp_all add: window_def drop_map hd_map)

lemma window_hd: "xs \<noteq> [] \<Longrightarrow> hd (window xs) = hd xs"
  by (simp add: window_def)

lemma window_last: "xs \<noteq> [] \<Longrightarrow> last (window xs) = last xs"
proof (cases "15 < length xs")
  case True
  then have "drop (length xs - 14) xs \<noteq> []" by simp
  with True show ?thesis by (simp add: window_def)
qed (simp add: window_def)

lemma add_to_last_twice: "xs \<noteq> [] \<Longrightarrow> add_to_last (add_to_last xs a) b = add_to_last xs (a @ b)"
  by (simp add: add_to_last_def)

lemma window_Cons: "window (a # r) = (if 14 < length r then a # drop (length r - 14) r else a # r)"
proof -
  have "14 < length r \<Longrightarrow> Suc (length r) - 14 = Suc (length r - 14)" by arith
  then show ?thesis by (simp add: window_def)
qed

lemma deref_window: "deref h (window ms) = window (deref h ms)"
  by (simp add: deref_def window_map)

lemma hist_wf_window: "hist_wf h ms \<Longrightarrow> hist_wf h (window ms)"
  by (cases ms) (auto simp: hist_wf_def window_Cons dest: in_set_dropD)

text \<open>
  C37. Refinement of the store model by the value model: reading the persisted history and the
  list sent to \<open>generate\<close> through the store gives \<open>turn_values\<close> of the history read before the
  turn, so aliasing has exactly the effect of writing the new content into the last message.
\<close>

lemma prepare_turn_refines:
  assumes "hist_wf h ms" "prepare_turn h ms img vf = (h2, ms2, temp)"
  shows "(deref h2 ms2, deref h2 temp) = turn_values (deref h ms) img vf"
proof (cases "mrole (h ! last ms) = ''user''")
  case True
  have ne: "ms \<noteq> []" using assms(1) by (simp add: hist_wf_def)
  have "h2 = extend_last (extend_last h ms (message_content img vf)) ms [placeholder]" "ms2 = ms" "temp = ms"
    using assms True by (auto simp: prepare_turn_user)
  moreover have "mrole (last (deref h ms)) = ''user''" "deref h ms \<noteq> []"
    using ne True by (simp_all add: deref_def last_map)
  ultimately show ?thesis
    using assms(1) ne by (simp add: deref_extend_last turn_values_def add_to_last_twice Let_def)
next
  case False
  have ne: "ms \<noteq> []" and bd: "\<forall>a \<in> set ms. a < length h" using assms(1) by (auto simp: hist_wf_def)
  have "h2 = h @ [\<lparr>mrole = ''user'', mcontent = message_content img vf\<rparr>, \<lparr>mrole = ''user'', mcontent = [TurnPart ''user'' [placeholder]]\<rparr>]"
       "ms2 = ms @ [Suc (length h)]" "temp = ms @ [length h]"
    using assms False by (auto simp: prepare_turn_other)
  moreover have "mrole (last (deref h ms)) \<noteq> ''user''" using ne False by (simp add: deref_def last_map)
  ultimately show ?thesis
    using bd by (simp add: deref_snoc turn_values_def nth_append)
qed

lemma prepare_turn_wf:
  assumes "hist_wf h ms" "prepare_turn h ms img vf = (h2, ms2, temp)"
  shows "hist_wf h2 ms2 \<and> hist_wf h2 temp \<and> mrole (h2 ! last ms2) = ''user'' \<and>
         (mrole (h ! last ms) = ''user'' \<longrightarrow> ms2 = ms) \<and> length ms2 \<le> Suc (length ms)"
proof (cases "mrole (h ! last ms) = ''user''")
  case True
  then show ?thesis using assms by (auto simp: prepare_turn_user)
next
  case False
  have "\<forall>a \<in> set ms. a < length h" using assms(1) by (simp add: hist_wf_def)
  then have "length h \<notin> set ms" "Suc (length h) \<notin> set ms" by auto
  then show ?thesis
    using assms False by (auto simp: prepare_turn_other hist_wf_snoc hist_wf_append_heap nth_append)
qed

lemma record_results_user:
  assumes "hist_wf h ms" "mrole (h ! last ms) = ''user''"
  shows "record_results h ms r = (h @ [\<lparr>mrole = ''assistant'', mcontent = [TextPart r]\<rparr>], window (ms @ [length h]))"
  using assms by (simp add: record_results_def)

lemma record_results_wf:
  assumes "hist_wf h ms" "record_results h ms r = (h', ms')"
  shows "hist_wf h' ms' \<and> length ms' \<le> 15"
proof (cases "mrole (h ! last ms) = ''user''")
  case True
  have "length h \<notin> set ms" using assms(1) by (auto simp: hist_wf_def)
  then have "hist_wf (h @ [\<lparr>mrole = ''assistant'', mcontent = [TextPart r]\<rparr>]) (ms @ [length h])"
    using assms(1) by (simp add: hist_wf_snoc hist_wf_append_heap)
  then show ?thesis using assms True by (auto simp: record_results_user hist_wf_window)
next
  case False
  then show ?thesis using assms by (auto simp: record_results_def hist_wf_window)
qed

lemma record_results_refines:
  assumes "hist_wf h ms" "record_results h ms r = (h', ms')"
  shows "deref h' ms' = results_values (deref h ms) r"
proof -
  have ne: "ms \<noteq> []" and bd: "\<forall>a \<in> set ms. a < length h" using assms(1) by (auto simp: hist_wf_def)
  have lr: "mrole (last (deref h ms)) = mrole (h ! last ms)" using ne by (simp add: deref_def last_map)
  show ?thesis
  proof (cases "mrole (h ! last ms) = ''user''")
    case True
    then show ?thesis using assms bd lr by (auto simp: record_results_user results_values_def deref_window)
  next
    case False
    then show ?thesis using assms lr by (auto simp: record_results_def results_values_def deref_window deref_extend_last)
  qed
qed

text \<open>
  C34. Contrary to the specification's step 5, when the history ends with a user message (the
  task message on the first pass, or any pass after one whose reply had no commands) the
  screenshot is stored in the persisted history: \<open>temp_messages = list(messages)\<close> copies
  the references, so \<open>temp_messages[-1]['content'].extend(message_content)\<close> extends the
  history's own last dict, and the history and the list sent to the model are the same.
\<close>

lemma prepare_turn_persists_image:
  assumes "hist_wf h ms" "mrole (h ! last ms) = ''user''" "prepare_turn h ms img vf = (h2, ms2, temp)"
  shows "ImagePart img \<in> set (mcontent (h2 ! last ms2)) \<and> deref h2 ms2 = deref h2 temp"
proof -
  have "h2 = extend_last (extend_last h ms (message_content img vf)) ms [placeholder]" "ms2 = ms" "temp = ms"
    using assms by (auto simp: prepare_turn_user)
  then show ?thesis using hist_wf_last[OF assms(1)] by (simp add: extend_last_nth message_content_def)
qed

text \<open>
  Recording a results summary after a user turn appends it as an assistant message and
  keeps the window: the history has \<open>min (n + 1) 15\<close> entries, starts with the same first
  message, and ends with the summary.
\<close>

lemma record_results_window:
  assumes "hist_wf h ms" "mrole (h ! last ms) = ''user''" "record_results h ms r = (h', ms')"
  shows "length ms' = min (Suc (length ms)) 15 \<and> h' ! hd ms' = h ! hd ms \<and>
         h' ! last ms' = \<lparr>mrole = ''assistant'', mcontent = [TextPart r]\<rparr>"
proof -
  have ne: "ms \<noteq> []" and bd: "\<forall>a \<in> set ms. a < length h" using assms(1) by (auto simp: hist_wf_def)
  have "h' = h @ [\<lparr>mrole = ''assistant'', mcontent = [TextPart r]\<rparr>]" "ms' = window (ms @ [length h])"
    using assms by (auto simp: record_results_user)
  then show ?thesis using ne bd by (simp add: window_hd window_last nth_append)
qed

lemma run_turn_inv:
  assumes "hist_wf h ms" "length ms \<le> 15 \<or> length ms = 16 \<and> mrole (h ! last ms) = ''user''"
    "run_turns h ms ts = (h', ms')"
  shows "hist_wf h' ms' \<and> (length ms' \<le> 15 \<or> length ms' = 16 \<and> mrole (h' ! last ms') = ''user'')"
  using assms
proof (induction ts arbitrary: h ms)
  case Nil
  then show ?case by simp
next
  case (Cons t ts)
  obtain img vf res where t: "t = Turn img vf res" by (cases t)
  obtain h1 ms1 temp where p: "prepare_turn h ms img vf = (h1, ms1, temp)" by (cases "prepare_turn h ms img vf") auto
  have w1: "hist_wf h1 ms1" "mrole (h1 ! last ms1) = ''user''" "length ms1 \<le> 16"
    using prepare_turn_wf[OF Cons.prems(1) p] Cons.prems(2) by auto
  show ?case
  proof (cases res)
    case None
    have "length ms1 \<le> 15 \<or> length ms1 = 16 \<and> mrole (h1 ! last ms1) = ''user''" using w1 by arith
    then show ?thesis using Cons.IH[of h1 ms1] Cons.prems(3) t p w1 None by auto
  next
    case (Some r)
    obtain h2 ms2 where q: "record_results h1 ms1 r = (h2, ms2)" by (cases "record_results h1 ms1 r")
    have "hist_wf h2 ms2 \<and> length ms2 \<le> 15" using record_results_wf[OF w1(1) q] .
    then show ?thesis using Cons.IH[of h2 ms2] Cons.prems(3) t p q Some by auto
  qed
qed

text \<open>
  C39. Over any sequence of iterations from the task message, the history stays well formed
  (distinct references to stored dicts) and never holds more than 16 messages: 15 after a
  truncation, one more when the next turn opens a new user message.
\<close>

lemma run_turns_bounded:
  assumes "run_turns (task_history task) [0] ts = (h, ms)"
  shows "hist_wf h ms \<and> length ms \<le> 16"
  using run_turn_inv[OF _ _ assms] by (auto simp: hist_wf_def task_history_def)

lemma classify_not_none [simp]: "classify f \<noteq> VoiceNone"
  by (simp add: classify_def Let_def)

lemma voice_feedback_first:
  "\<forall>x \<in> set ts1. \<not> accepted x \<Longrightarrow> accepted t \<Longrightarrow> voice_feedback_of (ts1 @ t # ts2) = classify (u_strip t)"
  by (induction ts1) auto

lemma voice_feedback_none: "\<forall>x \<in> set b. \<not> accepted x \<Longrightarrow> voice_feedback_of b = VoiceNone"
  by (induction b) auto

lemma resume_stop_command: "u_lower stop_command \<notin> set resume_phrases"
  by (simp add: stop_command_def u_lower_def u_lower_char_def resume_phrases_def)

lemma poll_voice_first:
  assumes "\<forall>b \<in> set bs1. \<forall>x \<in> set b. \<not> accepted x" "\<forall>x \<in> set ts1. \<not> accepted x" "accepted t"
  shows "poll_voice (bs1 @ (ts1 @ t # ts2) # bs2) = classify (u_strip t)"
  using assms by (induction bs1) (auto simp: voice_feedback_none voice_feedback_first split: voice_result.split)

text \<open>
  C36. In the polling window, the first accepted transcription decides the pass whatever the
  transcriptions after it say (they are taken from the queue and dropped): a stop phrase ends
  the loop, a pause phrase sets the gate and skips the pass without counting it, the text
  \<open>STOP_COMMAND\<close> clears the gate and ends the loop, and anything else clears the gate and runs
  a counted iteration, the commands deciding the final gate.
\<close>

lemma voice_command_pass:
  assumes "\<not> stop_requested ob" "\<not> voice_busy ob" "voice_batches ob = bs1 @ (ts1 @ t # ts2) # bs2"
    "\<forall>b \<in> set bs1. \<forall>x \<in> set b. \<not> accepted x" "\<forall>x \<in> set ts1. \<not> accepted x" "accepted t"
  shows "loop_pass True ob st =
           (if u_lower (u_strip t) \<in> set stop_phrases then Inl (VoiceStopExit, st)
            else if u_lower (u_strip t) \<in> set pause_phrases then Inr (st\<lparr>listening_gate := True\<rparr>)
            else if u_strip t = stop_command then Inl (VoiceStopExit, st\<lparr>listening_gate := False\<rparr>)
            else Inr (st\<lparr>listening_gate := (case gate_after_commands ob of Some g \<Rightarrow> g | None \<Rightarrow> False),
                         it := Suc (it st)\<rparr>))"
  using assms poll_voice_first[OF assms(4-6), of ts2 bs2]
  by (auto simp: loop_pass_def classify_def Let_def gate_after_voice_def has_feedback_def is_stop_command_def
                 resume_stop_command split: option.split)

text \<open>
  C35. While the voice processor reports that it is recognising speech, the loop skips the
  pass without counting it, so if it stays busy and no stop signal comes, the loop does not end
  on any amount of fuel, against the specification's bound by the iteration count.
\<close>

lemma agent_loop_busy:
  assumes "\<forall>k. voice_busy (env k) \<and> \<not> stop_requested (env k)" "it st < mx" "agent_running st"
  shows "agent_loop f mx True env k st = None"
  using assms by (induction f arbitrary: k) (simp_all add: loop_pass_def)

lemma loop_pass_novoice: "loop_pass False ob st = Inr st' \<Longrightarrow> it st' = Suc (it st) \<and> agent_running st' = agent_running st"
  by (auto simp: loop_pass_def Let_def has_feedback_def gate_after_voice_def split: if_splits)

lemma agent_loop_novoice_Some:
  "mx - it st < f \<Longrightarrow> \<exists>r. agent_loop f mx False env k st = Some r"
proof (induction f arbitrary: k st)
  case 0
  then show ?case by simp
next
  case (Suc f)
  show ?case
  proof (cases "loop_pass False (env k) st")
    case (Inr st')
    then have "mx - it st' < f \<or> \<not> it st < mx" using Suc.prems loop_pass_novoice[OF Inr] by auto
    then show ?thesis using Suc.IH[of st' "Suc k"] Inr by auto
  qed simp
qed

text \<open>
  C40. Without voice every pass either ends the loop or counts an iteration (a pause reads a
  manual prompt), so \<open>max_iterations - i + 1\<close> passes suffice for the loop to return.
\<close>

lemma agent_loop_novoice:
  "mx - it st < f \<Longrightarrow> \<exists>r. agent_loop f mx False env k st = Some r"
  by (rule agent_loop_novoice_Some)

subsection \<open>Witnesses\<close>

lemma task_history_wf: "hist_wf (task_history task) [0] \<and> mrole (task_history task ! last [0]) = ''user''"
  by (simp add: hist_wf_def task_history_def)

lemma prepare_turn_persists_image_witness:
  "ImagePart ''img'' \<in> set (mcontent (fst (prepare_turn (task_history ''open notepad'') [0] ''img'' None) !
      last (fst (snd (prepare_turn (task_history ''open notepad'') [0] ''img'' None)))))"
  using prepare_turn_persists_image[of "task_history ''open notepad''" "[0]" "''img''" None] task_history_wf
  by (metis prod.collapse)

lemma agent_loop_busy_witness:
  "agent_loop 100 15 True (\<lambda>k. \<lparr>stop_requested = False, voice_busy = True, voice_batches = [], gate_after_commands = None\<rparr>) 0
     \<lparr>it = 0, agent_running = True, listening_gate = False\<rparr> = None"
  by (rule agent_loop_busy) simp_all

lemma voice_command_pass_witness:
  "loop_pass True \<lparr>stop_requested = False, voice_busy = False,
                   voice_batches = [[[1052, 1059, 1047, 1067, 1050, 1040]], [[32, 1057, 1090, 1086, 1087, 32], [1076, 1072, 1083, 1100, 1096, 1077]]],
                   gate_after_commands = None\<rparr>
     \<lparr>it = 3, agent_running = True, listening_gate = True\<rparr> = Inl (VoiceStopExit, \<lparr>it = 3, agent_running = True, listening_gate = True\<rparr>)"
proof -
  have a: "\<not> accepted [1052, 1059, 1047, 1067, 1050, 1040]" by (simp add: accepted_def)
  have b: "accepted [32, 1057, 1090, 1086, 1087, 32]" by (simp add: accepted_def)
  have c: "u_lower (u_strip [32, 1057, 1090, 1086, 1087, 32]) \<in> set stop_phrases"
    by (simp add: u_strip_def u_isspace_def u_lower_def u_lower_char_def stop_phrases_def)
  show ?thesis
    using voice_command_pass[of _ "[[[1052, 1059, 1047, 1067, 1050, 1040]]]" "[]" "[32, 1057, 1090, 1086, 1087, 32]"
        "[[1076, 1072, 1083, 1100, 1096, 1077]]" "[]"] a b c by simp
qed

lemma prepare_turn_refines_witness:
  "(deref (fst (prepare_turn (task_history ''t'') [0] ''img'' None)) (fst (snd (prepare_turn (task_history ''t'') [0] ''img'' None))),
    deref (fst (prepare_turn (task_history ''t'') [0] ''img'' None)) (snd (snd (prepare_turn (task_history ''t'') [0] ''img'' None))))
   = turn_values (task_history ''t'') ''img'' None"
proof -
  have "deref (task_history ''t'') [0] = task_history ''t''" by (simp add: deref_def task_history_def)
  then show ?thesis
    using prepare_turn_refines[of "task_history ''t''" "[0]" "''img''" None] task_history_wf by (metis prod.collapse)
qed

lemma record_results_window_witness:
  "length (snd (record_results (task_history ''t'') [0] ''ok'')) = 2 \<and>
   fst (record_results (task_history ''t'') [0] ''ok'') ! last (snd (record_results (task_history ''t'') [0] ''ok''))
     = \<lparr>mrole = ''assistant'', mcontent = [TextPart ''ok'']\<rparr>"
proof -
  have e: "record_results (task_history ''t'') [0] ''ok'' =
             (fst (record_results (task_history ''t'') [0] ''ok''), snd (record_results (task_history ''t'') [0] ''ok''))"
    by simp
  have "length [0::nat] = 1" by simp
  then show ?thesis
    using record_results_window[OF conjunct1[OF task_history_wf] conjunct2[OF task_history_wf] e] by simp
qed

lemma run_turns_bounded_witness:
  "hist_wf (fst (run_turns (task_history ''t'') [0] [Turn ''a'' None (Some ''r''), Turn ''b'' None None]))
           (snd (run_turns (task_history ''t'') [0] [Turn ''a'' None (Some ''r''), Turn ''b'' None None])) \<and>
   length (snd (run_turns (task_history ''t'') [0] [Turn ''a'' None (Some ''r''), Turn ''b'' None None])) \<le> 16"
  using run_turns_bounded[of "''t''" "[Turn ''a'' None (Some ''r''), Turn ''b'' None None]"] by (metis prod.collapse)

lemma agent_loop_novoice_witness:
  "\<exists>r. agent_loop 16 15 False (\<lambda>k. \<lparr>stop_requested = False, voice_busy = True, voice_batches = [], gate_after_commands = None\<rparr>) 0
     \<lparr>it = 0, agent_running = True, listening_gate = True\<rparr> = Some r"
  by (rule agent_loop_novoice) simp

end
