(* ===== verification/LLMClient.thy ===== *)
theory LLMClient
  imports AgentLoop JsonExtract "HOL-Library.Sublist"
begin

text \<open>
  The language-model client, \<open>generate\<close> of src/services/openrouter_api.py. The module
  global \<open>_prompt_cache\<close> is a map from prompt paths to prompt texts, threaded through
  the calls. The prompt files are a map from paths to contents, and \<open>open\<close> of a missing
  file raises \<open>FileNotFoundError\<close>, a subclass of \<open>OSError\<close>. The OpenAI client is a
  collaborator \<open>api\<close> that answers a list of messages with a text or an exception. The
  messages are those of AgentLoop.

  The lemmas show what \<open>generate\<close> sends: the system message and a window of at most ten
  messages. They show that the prompt cache is never invalidated, and that a failing call
  gives the fixed error text, from which the extractor takes no command.
\<close>

type_synonym prompt_cache = "string \<rightharpoonup> string"

definition prompt_path :: "string \<Rightarrow> string" where
  "prompt_path prompt = ''./prompts/'' @ prompt @ ''.md''"

text \<open>Lines 23-30: the cached prompt, or the file read and cached; a missing file raises.\<close>

definition load_prompt :: "(string \<rightharpoonup> string) \<Rightarrow> prompt_cache \<Rightarrow> string \<Rightarrow> exn + string \<times> prompt_cache" where
  "load_prompt files cache path =
     (case cache path of
        Some s \<Rightarrow> Inr (s, cache)
      | None \<Rightarrow> (case files path of None \<Rightarrow> Inl (OSError path) | Some s \<Rightarrow> Inr (s, cache(path \<mapsto> s))))"

text \<open>Lines 32-35: the replacements in the dict's order, skipping empty values.\<close>

definition apply_replacements :: "(string \<times> string) list \<Rightarrow> string \<Rightarrow> string" where
  "apply_replacements rd s = fold (\<lambda>(k, v) s. if v \<noteq> [] then py_replace k v s else s) rd s"

text \<open>Lines 38-40: the first message and the last nine once there are more than ten.\<close>

definition gen_window :: "'a list \<Rightarrow> 'a list" where
  "gen_window ms = (if 10 < length ms then hd ms # drop (length ms - 9) ms else ms)"

definition system_msg :: "string \<Rightarrow> message" where
  "system_msg s = \<lparr>mrole = ''system'', mcontent = [TextPart s]\<rparr>"

definition error_text :: string where
  "error_text = ''Error generating response. Please try again.''"

text \<open>
  \<open>generate(messages, prompt, replace_dict)\<close>. Only the prompt read can raise out of the
  function; an exception of the API call is caught and gives \<open>error_text\<close>.
\<close>

definition generate ::
  "(string \<rightharpoonup> string) \<Rightarrow> (message list \<Rightarrow> exn + string) \<Rightarrow> prompt_cache \<Rightarrow>
   message list \<Rightarrow> string \<Rightarrow> (string \<times> string) list \<Rightarrow> (exn + string) \<times> prompt_cache" where
  "generate files api cache messages prompt rd =
     (case load_prompt files cache (prompt_path prompt) of
        Inl e \<Rightarrow> (Inl e, cache)
      | Inr (sm, cache') \<Rightarrow>
          (let sys = apply_replacements rd sm;
               sent = system_msg sys # gen_window messages
           in (Inr (case api sent of Inl e \<Rightarrow> error_text | Inr t \<Rightarrow> t), cache')))"

subsection \<open>Properties\<close>

lemma gen_window_length [simp]: "length (gen_window ms) = min (length ms) 10"
  by (simp add: gen_window_def)

lemma gen_window_Cons: "gen_window (a # r) = (if 9 < length r then a # drop (length r - 9) r else a # r)"
proof -
  have "9 < length r \<Longrightarrow> Suc (length r) - 9 = Suc (length r - 9)" by arith
  then show ?thesis by (simp add: gen_window_def)
qed

lemma load_prompt_cached: "cache path = Some s \<Longrightarrow> load_prompt files cache path = Inr (s, cache)"
  by (simp add: load_prompt_def)

lemma load_prompt_mono:
  "load_prompt files cache path = Inr (s, cache') \<Longrightarrow> cache \<subseteq>\<^sub>m cache' \<and> cache' path = Some s"
  by (auto simp: load_prompt_def map_le_def split: option.splits)

text \<open>
  What is sent: the system message with the prompt after the replacements, then at most ten
  messages of the conversation; with more than ten, its first and its last nine.
\<close>

lemma generate_sends:
  assumes "load_prompt files cache (prompt_path prompt) = Inr (sm, cache')"
  shows "generate files api cache messages prompt rd =
           (Inr (case api (system_msg (apply_replacements rd sm) # gen_window messages) of
                   Inl e \<Rightarrow> error_text | Inr t \<Rightarrow> t), cache')"
  using assms by (simp add: generate_def)

lemma gen_window_shape:
  "ms \<noteq> [] \<Longrightarrow> hd (gen_window ms) = hd ms \<and> last (gen_window ms) = last ms \<and> suffix (tl (gen_window ms)) ms"
proof -
  assume ne: "ms \<noteq> []"
  then obtain a r where ms: "ms = a # r" by (cases ms) auto
  show ?thesis
  proof (cases "9 < length r")
    case True
    then have "drop (length r - 9) r \<noteq> []" by simp
    then show ?thesis using True ms by (auto simp: gen_window_Cons suffix_drop intro: suffix_ConsI)
  qed (auto simp: ms gen_window_Cons suffix_ConsI)
qed

text \<open>
  The prompt cache is never invalidated: once a prompt has been read, a changed or deleted
  file is not read again, and the cache only grows.
\<close>

lemma generate_cache_stale:
  assumes "cache (prompt_path prompt) = Some s"
  shows "generate files' api cache messages prompt rd =
           (Inr (case api (system_msg (apply_replacements rd s) # gen_window messages) of
                   Inl e \<Rightarrow> error_text | Inr t \<Rightarrow> t), cache)"
  using assms by (simp add: generate_def load_prompt_cached)

lemma generate_cache_mono:
  "snd (generate files api cache messages prompt rd) = cache' \<Longrightarrow> cache \<subseteq>\<^sub>m cache'"
  by (auto simp: generate_def map_le_def load_prompt_def split: option.splits sum.splits)

lemma generate_missing_prompt:
  "cache (prompt_path prompt) = None \<Longrightarrow> files (prompt_path prompt) = None \<Longrightarrow>
   generate files api cache messages prompt rd = (Inl (OSError (prompt_path prompt)), cache)"
  by (simp add: generate_def load_prompt_def)

lemma error_text_brace_free: "brace_free error_text"
  by (simp add: brace_free_def error_text_def)

text \<open>
  A failing API call ends in an iteration without commands: the error text has no brace, so
  \<open>extract_json\<close> returns no command and the text itself.
\<close>

lemma generate_error_no_commands:
  assumes "load_prompt files cache (prompt_path prompt) = Inr (sm, cache')"
    "api (system_msg (apply_replacements rd sm) # gen_window messages) = Inl e"
  shows "generate files api cache messages prompt rd = (Inr error_text, cache') \<and>
         extract_json loads error_text = ([], error_text)"
proof -
  have u: "unescape error_text = error_text" by (simp add: unescape_def error_text_def py_simps)
  have "scan loads 0 error_text scan_init = scan_init"
    using error_text_brace_free by (simp add: scan_prose scan_init_def)
  then have "extract_json loads error_text = ([], py_strip error_text)"
    using u by (simp add: extract_json_def scan_init_def remove_spans_def)
  moreover have "py_strip error_text = error_text" by (simp add: py_strip_def py_isspace_def error_text_def)
  ultimately show ?thesis using assms by (simp add: generate_def)
qed

end
