(* ===== verification/ImageCache.thy ===== *)
theory ImageCache
  imports Python
begin

text \<open>
  The image path of an iteration. \<open>save_screenshot\<close> of src/services/screenshot_utils.py
  captures the screen, resizes it to a height of 512, draws the cursor as a red dot, and
  writes screenshots/fullscreen.jpg. \<open>convert_to_base64\<close> of src/services/image_utils.py
  reads the file back as base64, through a cache keyed by path that is valid while the
  file's modification time is unchanged and the entry is younger than \<open>_cache_ttl\<close>.

  The file system is a map from paths to a modification time and a content. The capture,
  the resize, the file write and the two encoders (PIL's re-encoding, and the raw bytes of
  the fallback) are collaborators, with exceptions as values. The float arithmetic of the
  resize is read exactly over \<open>rat\<close>, and \<open>int()\<close> truncates towards zero. The
  lemmas show where the cursor dot lies, which encoder \<open>convert_to_base64\<close> uses, and
  that over any sequence of saves and conversions with increasing save times a cached
  string always encodes the file's current content.
\<close>

type_synonym 'f file_system = "string \<rightharpoonup> timestamp \<times> 'f"

text \<open>\<open>int(r)\<close> for a float: truncation towards zero.\<close>

definition py_int :: "rat \<Rightarrow> int" where
  "py_int r = (if 0 \<le> r then \<lfloor>r\<rfloor> else - \<lfloor>- r\<rfloor>)"

subsection \<open>save_screenshot\<close>

text \<open>The annotated screenshot: the resized image, its size, and the centre of the dot.\<close>

record 'r shot =
  shot_img :: 'r
  shot_size :: "nat \<times> nat"
  shot_dot :: "int \<times> int"

definition fullscreen_path :: string where
  "fullscreen_path = ''screenshots/fullscreen.jpg''"

text \<open>
  Lines 8-32. \<open>capture\<close> is \<open>pyautogui.screenshot()\<close> with the image's size, \<open>resize\<close>
  is \<open>Image.resize\<close>, \<open>cursor\<close> is \<open>pyautogui.position()\<close>, \<open>write_ok\<close> tells whether the
  directory accepts the file (\<open>save\<close> raises \<open>OSError\<close> otherwise); the new file's
  modification time is \<open>now\<close>.
\<close>

definition save_screenshot ::
  "exn + ('s \<times> nat \<times> nat) \<Rightarrow> ('s \<Rightarrow> nat \<times> nat \<Rightarrow> exn + 'r) \<Rightarrow> int \<times> int \<Rightarrow> bool \<Rightarrow> timestamp \<Rightarrow>
   'r shot file_system \<Rightarrow> exn + 'r shot file_system" where
  "save_screenshot capture resize cursor write_ok now fs =
     (case capture of
        Inl e \<Rightarrow> Inl e
      | Inr (img, w, h) \<Rightarrow>
          if h = 0 then Inl ZeroDivisionError
          else
            let nw = nat (py_int (of_nat w * (512 / of_nat h)))
            in case resize img (nw, 512) of
                 Inl e \<Rightarrow> Inl e
               | Inr r \<Rightarrow>
                   if w = 0 then Inl ZeroDivisionError
                   else
                     let rx = py_int (of_int (fst cursor) * (of_nat nw / of_nat w));
                         ry = py_int (of_int (snd cursor) * (512 / of_nat h))
                     in if \<not> write_ok then Inl (OSError fullscreen_path)
                        else Inr (fs(fullscreen_path \<mapsto> (now, \<lparr>shot_img = r, shot_size = (nw, 512), shot_dot = (rx, ry)\<rparr>))))"

subsection \<open>convert_to_base64\<close>

text \<open>\<open>os.path.splitext(path)[1]\<close>: from the last dot of the last component, unless only dots precede it.\<close>

definition path_ext :: "string \<Rightarrow> string" where
  "path_ext p =
     (let base = rev (takeWhile (\<lambda>c. c \<noteq> CHR ''/'') (rev p))
      in if CHR ''.'' \<in> set base then
           (let i = length base - Suc (length (takeWhile (\<lambda>c. c \<noteq> CHR ''.'') (rev base)))
            in if \<exists>c \<in> set (take i base). c \<noteq> CHR ''.'' then drop i base else [])
         else [])"

definition ascii_lower :: "string \<Rightarrow> string" where
  "ascii_lower s = map (\<lambda>c. if CHR ''A'' \<le> c \<and> c \<le> CHR ''Z'' then char_of (of_char c + (32::nat)) else c) s"

text \<open>Lines 42-50: the format PIL saves in; anything but \<open>png\<close> is saved as JPEG.\<close>

definition save_format :: "string \<Rightarrow> string" where
  "save_format p =
     (let f = filter (\<lambda>c. c \<noteq> CHR ''.'') (ascii_lower (path_ext p));
          f' = (if f \<in> {''jpeg'', ''jpg'', ''png''} then f else ''jpeg'')
      in if f' \<in> {''jpeg'', ''jpg''} then ''JPEG'' else ''PNG'')"

text \<open>\<open>_base64_cache\<close>: per path, the time of encoding, the file's mtime, and the string.\<close>

type_synonym b64_cache = "string \<rightharpoonup> timestamp \<times> timestamp \<times> string"

definition b64_ttl :: timestamp where
  "b64_ttl = 1 / 2"

text \<open>Lines 26-33: the cached string, if the mtime is unchanged and the entry is fresh.\<close>

definition b64_hit :: "b64_cache \<Rightarrow> string \<Rightarrow> timestamp \<Rightarrow> timestamp \<Rightarrow> string option" where
  "b64_hit cache path mt now =
     (case cache path of
        Some (ct, cm, s) \<Rightarrow> if mt = cm \<and> now - ct < b64_ttl then Some s else None
      | None \<Rightarrow> None)"

text \<open>
  Lines 13-74. \<open>pil fmt c\<close> is the re-encoding by PIL in format \<open>fmt\<close>, \<open>raw c\<close> the
  fallback's base64 of the file's bytes; \<open>now\<close> is the clock at the cache test and
  \<open>now'\<close> at the cache update. A missing file or two failing encoders give \<open>''\<close>;
  only PIL's result is cached.
\<close>

definition convert_to_base64 ::
  "(string \<Rightarrow> 'f \<Rightarrow> exn + string) \<Rightarrow> ('f \<Rightarrow> exn + string) \<Rightarrow> timestamp \<Rightarrow> timestamp \<Rightarrow>
   'f file_system \<Rightarrow> b64_cache \<Rightarrow> string \<Rightarrow> string \<times> b64_cache" where
  "convert_to_base64 pil raw now now' fs cache path =
     (case fs path of
        None \<Rightarrow> ([], cache)
      | Some (mt, c) \<Rightarrow>
          (case b64_hit cache path mt now of
             Some s \<Rightarrow> (s, cache)
           | None \<Rightarrow>
               (case pil (save_format path) c of
                  Inr s \<Rightarrow> (s, cache(path \<mapsto> (now', mt, s)))
                | Inl e \<Rightarrow> (case raw c of Inr s \<Rightarrow> (s, cache) | Inl e2 \<Rightarrow> ([], cache)))))"

subsection \<open>The conversions over a run\<close>

text \<open>
  The reference: what \<open>convert_to_base64\<close> returns without its cache, from the file as it
  is now. A cache is sound for a file system when every entry whose mtime is the file's
  current mtime holds PIL's encoding of the file's current content.
\<close>

definition b64_reference :: "(string \<Rightarrow> 'f \<Rightarrow> exn + string) \<Rightarrow> ('f \<Rightarrow> exn + string) \<Rightarrow> 'f file_system \<Rightarrow> string \<Rightarrow> string" where
  "b64_reference pil raw fs path =
     (case fs path of
        None \<Rightarrow> []
      | Some (mt, c) \<Rightarrow> (case pil (save_format path) c of Inr s \<Rightarrow> s | Inl e \<Rightarrow> (case raw c of Inr s \<Rightarrow> s | Inl e2 \<Rightarrow> [])))"

definition cache_sound :: "(string \<Rightarrow> 'f \<Rightarrow> exn + string) \<Rightarrow> 'f file_system \<Rightarrow> b64_cache \<Rightarrow> bool" where
  "cache_sound pil fs cache \<longleftrightarrow>
     (\<forall>p ct cm s c. cache p = Some (ct, cm, s) \<longrightarrow> fs p = Some (cm, c) \<longrightarrow> pil (save_format p) c = Inr s)"

text \<open>
  A run of the two operations on the screenshot file, in the order they happen: a save at
  time \<open>t\<close> (the capture, the cursor, whether the write succeeds) and a conversion with the
  clock readings of its cache test and cache update. Each conversion's result is listed with
  the file system it read.
\<close>

datatype 's img_event = SaveShot timestamp "exn + ('s \<times> nat \<times> nat)" "int \<times> int" bool | ConvertShot timestamp timestamp

fun run_images ::
  "('s \<Rightarrow> nat \<times> nat \<Rightarrow> exn + 'r) \<Rightarrow> (string \<Rightarrow> 'r shot \<Rightarrow> exn + string) \<Rightarrow> ('r shot \<Rightarrow> exn + string) \<Rightarrow>
   'r shot file_system \<Rightarrow> b64_cache \<Rightarrow> 's img_event list \<Rightarrow> (string \<times> 'r shot file_system) list" where
  "run_images resize pil raw fs cache [] = []"
| "run_images resize pil raw fs cache (SaveShot t cap cur ok # es) =
     (case save_screenshot cap resize cur ok t fs of
        Inl e \<Rightarrow> run_images resize pil raw fs cache es
      | Inr fs' \<Rightarrow> run_images resize pil raw fs' cache es)"
| "run_images resize pil raw fs cache (ConvertShot n n' # es) =
     (let (s, cache') = convert_to_base64 pil raw n n' fs cache fullscreen_path
      in (s, fs) # run_images resize pil raw fs cache' es)"

fun fresh_saves :: "timestamp \<Rightarrow> 's img_event list \<Rightarrow> bool" where
  "fresh_saves c [] = True"
| "fresh_saves c (SaveShot t cap cur ok # es) = (c < t \<and> fresh_saves t es)"
| "fresh_saves c (ConvertShot n n' # es) = fresh_saves c es"

definition img_inv :: "(string \<Rightarrow> 'f \<Rightarrow> exn + string) \<Rightarrow> timestamp \<Rightarrow> 'f file_system \<Rightarrow> b64_cache \<Rightarrow> bool" where
  "img_inv pil clock fs cache \<longleftrightarrow> cache_sound pil fs cache \<and>
     (\<forall>p m c. fs p = Some (m, c) \<longrightarrow> m \<le> clock) \<and> (\<forall>p ct cm s. cache p = Some (ct, cm, s) \<longrightarrow> cm \<le> clock)"

subsection \<open>Properties\<close>

lemma fresh_saves_mono: "fresh_saves t es \<Longrightarrow> c \<le> t \<Longrightarrow> fresh_saves c es"
  by (induction t es arbitrary: c rule: fresh_saves.induct) auto

lemma save_screenshot_Inr: "save_screenshot cap resize cur ok t fs = Inr fs' \<Longrightarrow> \<exists>sh. fs' = fs(fullscreen_path \<mapsto> (t, sh))"
  by (auto simp: save_screenshot_def Let_def split: sum.splits prod.splits if_splits)

lemma b64_hit_Some: "b64_hit cache p mt now = Some s \<Longrightarrow> \<exists>ct. cache p = Some (ct, mt, s)"
  by (auto simp: b64_hit_def split: option.splits if_splits)

lemma convert_reference:
  assumes "cache_sound pil fs cache"
  shows "fst (convert_to_base64 pil raw now now' fs cache p) = b64_reference pil raw fs p"
proof (cases "fs p")
  case (Some a)
  obtain mt c where a: "a = (mt, c)" by (cases a)
  show ?thesis
  proof (cases "b64_hit cache p mt now")
    case (Some s)
    then obtain ct where "cache p = Some (ct, mt, s)" using b64_hit_Some by blast
    then have "pil (save_format p) c = Inr s" using assms \<open>fs p = Some a\<close> a by (auto simp: cache_sound_def)
    then show ?thesis using Some \<open>fs p = Some a\<close> a by (simp add: convert_to_base64_def b64_reference_def)
  qed (use \<open>fs p = Some a\<close> a in \<open>auto simp: convert_to_base64_def b64_reference_def split: sum.splits\<close>)
qed (simp add: convert_to_base64_def b64_reference_def)

lemma convert_sound:
  assumes "cache_sound pil fs cache"
  shows "cache_sound pil fs (snd (convert_to_base64 pil raw now now' fs cache p))"
  using assms by (auto simp: cache_sound_def convert_to_base64_def split: option.splits sum.splits)

text \<open>
  C15. With a sound cache, \<open>convert_to_base64\<close> returns exactly what the uncached
  reference returns, and the cache it leaves is sound again: a cache hit only ever
  short-cuts the encoding of the same content, so any number of conversions agree with it.
\<close>

lemma convert_cached_equiv:
  assumes "cache_sound pil fs cache"
  shows "fst (convert_to_base64 pil raw now now' fs cache p) = b64_reference pil raw fs p \<and>
         cache_sound pil fs (snd (convert_to_base64 pil raw now now' fs cache p))"
  using convert_reference[OF assms] convert_sound[OF assms] by blast

lemma img_inv_save:
  assumes "img_inv pil clock fs cache" "clock < t" "fs' = fs(fullscreen_path \<mapsto> (t, sh))"
  shows "img_inv pil t fs' cache"
  using assms by (fastforce simp: img_inv_def cache_sound_def)

lemma img_inv_convert:
  assumes "img_inv pil clock fs cache"
  shows "img_inv pil clock fs (snd (convert_to_base64 pil raw n n' fs cache p))"
proof -
  have "cache_sound pil fs (snd (convert_to_base64 pil raw n n' fs cache p))"
    using assms convert_sound by (auto simp: img_inv_def)
  moreover have "\<forall>q ct cm s. snd (convert_to_base64 pil raw n n' fs cache p) q = Some (ct, cm, s) \<longrightarrow> cm \<le> clock"
    using assms by (auto simp: img_inv_def convert_to_base64_def split: option.splits sum.splits)
  ultimately show ?thesis using assms by (simp add: img_inv_def)
qed

text \<open>
  C38. Over any run from a state where the cache is sound and no time lies ahead of the
  clock, if every save happens at a later time than the previous one, every conversion
  returns the encoding of the screenshot file as it is at that moment: the cache never
  serves an older screenshot.
\<close>

lemma run_images_fresh:
  "img_inv pil clock fs cache \<Longrightarrow> fresh_saves clock evs \<Longrightarrow>
   \<forall>(s, fsn) \<in> set (run_images resize pil raw fs cache evs). s = b64_reference pil raw fsn fullscreen_path"
proof (induction evs arbitrary: clock fs cache)
  case (Cons ev evs)
  show ?case
  proof (cases ev)
    case (SaveShot t cap cur ok)
    show ?thesis
    proof (cases "save_screenshot cap resize cur ok t fs")
      case (Inl e)
      have "fresh_saves clock evs" using Cons.prems(2) SaveShot by (cases "clock < t") (auto intro: fresh_saves_mono)
      then show ?thesis using Cons SaveShot Inl by simp
    next
      case (Inr fs')
      then obtain sh where "fs' = fs(fullscreen_path \<mapsto> (t, sh))" using save_screenshot_Inr by blast
      moreover have "clock < t" using Cons.prems(2) SaveShot by simp
      ultimately have "img_inv pil t fs' cache" using img_inv_save[OF Cons.prems(1)] by blast
      then show ?thesis using Cons SaveShot Inr by simp
    qed
  next
    case (ConvertShot n n')
    obtain r c' where cv: "convert_to_base64 pil raw n n' fs cache fullscreen_path = (r, c')" by fastforce
    have "r = b64_reference pil raw fs fullscreen_path"
      using convert_reference[of pil fs cache raw n n' fullscreen_path] Cons.prems(1) cv by (simp add: img_inv_def)
    moreover have "img_inv pil clock fs c'" using img_inv_convert[OF Cons.prems(1), of raw n n' fullscreen_path] cv by simp
    ultimately show ?thesis using Cons.IH[of clock fs c'] Cons.prems(2) ConvertShot cv by simp
  qed
qed simp

lemma py_int_nonneg [simp]: "0 \<le> r \<Longrightarrow> py_int r = \<lfloor>r\<rfloor>"
  by (simp add: py_int_def)

lemma floor_scaled_less:
  fixes x n d :: nat
  assumes "x < d" "0 < n"
  shows "\<lfloor>of_nat x * (of_nat n / of_nat d) :: rat\<rfloor> < int n"
proof -
  have "of_nat x * (of_nat n / of_nat d) < (of_nat n :: rat)"
    using assms by (simp add: field_simps)
  then show ?thesis by (simp add: floor_less_iff)
qed

text \<open>
  C22. For a screen no more than 512 times as tall as it is wide and a cursor on the screen,
  \<open>save_screenshot\<close> writes a 512-pixel-high image of width \<open>\<lfloor>w * 512 / h\<rfloor>\<close> whose
  red dot is centred inside it.
\<close>

lemma save_screenshot_dot:
  assumes "capture = Inr (img, w, h)" "0 < h" "h \<le> 512 * w" "\<forall>sz. \<exists>r. resize img sz = Inr r" "write_ok"
    "cx < w" "cy < h"
  shows "\<exists>sh. save_screenshot capture resize (int cx, int cy) write_ok now fs = Inr (fs(fullscreen_path \<mapsto> (now, sh))) \<and>
              shot_size sh = (nat \<lfloor>of_nat w * (512 / of_nat h) :: rat\<rfloor>, 512) \<and>
              0 \<le> fst (shot_dot sh) \<and> fst (shot_dot sh) < int (fst (shot_size sh)) \<and>
              0 \<le> snd (shot_dot sh) \<and> snd (shot_dot sh) < 512"
proof -
  define nw where "nw = nat (py_int (of_nat w * (512 / of_nat h)))"
  have w: "0 < w" using assms(2,3) by simp
  obtain r where r: "resize img (nw, 512) = Inr r" using assms(4) by blast
  have nwf: "nw = nat \<lfloor>of_nat w * (512 / of_nat h) :: rat\<rfloor>" by (simp add: nw_def)
  have "(1::rat) \<le> of_nat w * (512 / of_nat h)"
    using assms(2,3) by (simp add: field_simps)
  then have nw: "0 < nw" by (simp add: nwf le_floor_iff)
  have n: "nat \<lfloor>of_nat w * 512 / of_nat h :: rat\<rfloor> = nw" by (simp add: nwf)
  have eq: "save_screenshot capture resize (int cx, int cy) write_ok now fs =
      Inr (fs(fullscreen_path \<mapsto> (now, \<lparr>shot_img = r, shot_size = (nw, 512),
        shot_dot = (py_int (of_int (int cx) * (of_nat nw / of_nat w)), py_int (of_int (int cy) * (512 / of_nat h)))\<rparr>)))"
    using assms(1,2,5) w r by (simp add: save_screenshot_def Let_def n)
  have x: "\<lfloor>of_nat cx * (of_nat nw / of_nat w) :: rat\<rfloor> < int nw" using floor_scaled_less[OF assms(6) nw] .
  have y: "\<lfloor>of_nat cy * (of_nat 512 / of_nat h) :: rat\<rfloor> < int 512" using floor_scaled_less[OF assms(7), of 512] by simp
  show ?thesis
    using eq x y n
    by (intro exI[where x = "\<lparr>shot_img = r, shot_size = (nw, 512),
          shot_dot = (\<lfloor>of_nat cx * of_nat nw / of_nat w :: rat\<rfloor>, \<lfloor>of_nat cy * 512 / of_nat h :: rat\<rfloor>)\<rparr>"]) simp
qed

subsection \<open>Witnesses\<close>

definition toy_pil :: "string \<Rightarrow> string shot \<Rightarrow> exn + string" where
  "toy_pil fmt sh = Inr (fmt @ shot_img sh)"

lemma convert_cached_equiv_witness:
  "cache_sound toy_pil [fullscreen_path \<mapsto> (1, \<lparr>shot_img = ''A'', shot_size = (910, 512), shot_dot = (0, 0)\<rparr>)]
     [fullscreen_path \<mapsto> (1, 1, ''JPEGA'')] \<and>
   fst (convert_to_base64 toy_pil (\<lambda>sh. Inl TypeError) (6/5) (6/5)
          [fullscreen_path \<mapsto> (1, \<lparr>shot_img = ''A'', shot_size = (910, 512), shot_dot = (0, 0)\<rparr>)]
          [fullscreen_path \<mapsto> (1, 1, ''JPEGA'')] fullscreen_path) = ''JPEGA''"
proof -
  have f: "save_format fullscreen_path = ''JPEG''" unfolding fullscreen_path_def by code_simp
  have s: "cache_sound toy_pil [fullscreen_path \<mapsto> (1, \<lparr>shot_img = ''A'', shot_size = (910, 512), shot_dot = (0, 0)\<rparr>)]
     [fullscreen_path \<mapsto> (1, 1, ''JPEGA'')]" by (simp add: cache_sound_def toy_pil_def f)
  show ?thesis
    using s convert_cached_equiv[OF s, of "\<lambda>sh. Inl TypeError" "6/5" "6/5" fullscreen_path]
    by (simp add: b64_reference_def toy_pil_def f)
qed

lemma run_images_fresh_witness:
  "list_all (\<lambda>(s, fsn). s = b64_reference toy_pil (\<lambda>sh. Inl TypeError) fsn fullscreen_path)
     (run_images (\<lambda>i sz. Inr i) toy_pil (\<lambda>sh. Inl TypeError) Map.empty Map.empty
        [SaveShot 1 (Inr (''A'', 1920, 1080)) (5, 5) True, ConvertShot 1 1,
         SaveShot 2 (Inr (''B'', 1920, 1080)) (5, 5) True, ConvertShot 2 2])"
proof -
  have "img_inv toy_pil 0 Map.empty Map.empty" by (simp add: img_inv_def cache_sound_def)
  moreover have "fresh_saves 0 [SaveShot 1 (Inr (''A'', 1920, 1080)) (5, 5) True, ConvertShot 1 1,
         SaveShot 2 (Inr (''B'', 1920, 1080)) (5, 5) True, ConvertShot (2::timestamp) 2]" by simp
  ultimately show ?thesis
    unfolding list_all_iff by (rule run_images_fresh)
qed

lemma save_screenshot_dot_witness:
  "\<exists>sh. save_screenshot (Inr ((), 1920, 1080)) (\<lambda>i sz. Inr i) (int 1919, int 1079) True 1 Map.empty =
          Inr [fullscreen_path \<mapsto> (1, sh)] \<and>
        shot_size sh = (nat \<lfloor>of_nat 1920 * (512 / of_nat 1080) :: rat\<rfloor>, 512) \<and>
        0 \<le> fst (shot_dot sh) \<and> fst (shot_dot sh) < int (fst (shot_size sh)) \<and>
        0 \<le> snd (shot_dot sh) \<and> snd (shot_dot sh) < 512"
  by (rule save_screenshot_dot) simp_all

text \<open>
  Without increasing save times the cache can serve an older screenshot: two saves within
  one mtime tick, with a conversion between them, and a second conversion within
  \<open>_cache_ttl\<close> returns the first screenshot while the file holds the second.
\<close>

lemma convert_stale_same_mtime:
  "run_images (\<lambda>i sz. Inr i) toy_pil (\<lambda>sh. Inl TypeError) Map.empty Map.empty
      [SaveShot 1 (Inr (''A'', 1920, 1080)) (5, 5) True, ConvertShot 1 1,
       SaveShot 1 (Inr (''B'', 1920, 1080)) (5, 5) True, ConvertShot (11/10) (11/10)] =
   [(''JPEGA'', [fullscreen_path \<mapsto> (1, \<lparr>shot_img = ''A'', shot_size = (910, 512), shot_dot = (2, 2)\<rparr>)]),
    (''JPEGA'', [fullscreen_path \<mapsto> (1, \<lparr>shot_img = ''B'', shot_size = (910, 512), shot_dot = (2, 2)\<rparr>)])] \<and>
   b64_reference toy_pil (\<lambda>sh. Inl TypeError)
     [fullscreen_path \<mapsto> (1, \<lparr>shot_img = ''B'', shot_size = (910, 512), shot_dot = (2, 2)\<rparr>)] fullscreen_path = ''JPEGB''"
proof -
  have f: "save_format fullscreen_path = ''JPEG''" unfolding fullscreen_path_def by code_simp
  have fl: "\<lfloor>8192 / 9 :: rat\<rfloor> = 910" "\<lfloor>455 / 192 :: rat\<rfloor> = 2" "\<lfloor>64 / 27 :: rat\<rfloor> = 2"
    by (simp_all add: floor_eq_iff)
  show ?thesis
    by (simp add: save_screenshot_def Let_def convert_to_base64_def b64_hit_def b64_ttl_def
        b64_reference_def toy_pil_def f py_int_def fl)
qed

end
