(* ===== verification/UILocate.thy ===== *)
theory UILocate
  imports FindUI LLMClient
begin

text \<open>
  The two requests of src/services/find_ui.py to the language model, composed with the
  client of LLMClient: \<open>llm_choose_best_grid_cell\<close> and \<open>fallback_llm_coordinate_detection\<close>
  build a one-message conversation from a prompt and the base64 of a screenshot file and
  call \<open>generate\<close> with the system prompt \<open>locate_ui_element\<close>. \<open>get_ui_element_coordinates\<close>
  and \<open>move_mouse_to_ui_element\<close> are then the FindUI operations with their replies produced
  by these calls, in the code's order: the fallback is asked only when the grid cell does
  not resolve. The screenshot files are a map from paths to the base64 of their bytes
  (\<open>open\<close> of a missing file raises \<open>OSError\<close>); the prompt cache is threaded through.

  The lemmas show that with answering calls the composition is FindUI's function of the two
  replies, and that when the model's API fails on both calls no mouse movement happens.
\<close>

type_synonym b64_files = "string \<rightharpoonup> string"

definition read_b64 :: "b64_files \<Rightarrow> string \<Rightarrow> exn + string" where
  "read_b64 rb path = (case rb path of None \<Rightarrow> Inl (OSError path) | Some s \<Rightarrow> Inr s)"

definition grid_path :: string where
  "grid_path = ''screenshots/grid.jpg''"

definition locate_prompt :: string where
  "locate_prompt = ''locate_ui_element''"

text \<open>Lines 40-68: both files are read, only the grid image is sent.\<close>

definition llm_choose_best_grid_cell ::
  "(string \<rightharpoonup> string) \<Rightarrow> (message list \<Rightarrow> exn + string) \<Rightarrow> prompt_cache \<Rightarrow> b64_files \<Rightarrow> string \<Rightarrow>
   (exn + string) \<times> prompt_cache" where
  "llm_choose_best_grid_cell files api pc rb desc =
     (case read_b64 rb grid_path of
        Inl e \<Rightarrow> (Inl e, pc)
      | Inr g \<Rightarrow>
          (case read_b64 rb ''screenshots/fullscreen.jpg'' of
             Inl e \<Rightarrow> (Inl e, pc)
           | Inr f \<Rightarrow>
               generate files api pc
                 [\<lparr>mrole = ''user'', mcontent = [TextPart (''Find grid cell with element '' @ [CHR 0x22] @ desc @ [CHR 0x22]),
                                                 ImagePart g]\<rparr>]
                 locate_prompt []))"

definition fallback_text :: "string \<Rightarrow> nat \<times> nat \<Rightarrow> string" where
  "fallback_text desc dims =
     ''Look at this screenshot and find the exact pixel coordinates (x, y) of the center of '' @
     ''this UI element: '' @ [CHR 0x27] @ desc @ [CHR 0x27] @ ''. The screen resolution is '' @
     show_nat (fst dims) @ ''x'' @ show_nat (snd dims) @ ''. '' @
     ''Respond with ONLY the x and y coordinates in this format: '' @ [CHR 0x27] @ ''x: X, y: Y'' @ [CHR 0x27]"

text \<open>Lines 166-211: the request, then the parse of its reply (\<open>parse_coordinates\<close>).\<close>

definition fallback_llm_coordinate_detection ::
  "(string \<rightharpoonup> string) \<Rightarrow> (message list \<Rightarrow> exn + string) \<Rightarrow> prompt_cache \<Rightarrow> b64_files \<Rightarrow> string \<Rightarrow>
   nat \<times> nat \<Rightarrow> (exn + (nat \<times> nat) option) \<times> prompt_cache" where
  "fallback_llm_coordinate_detection files api pc rb desc dims =
     (case read_b64 rb ''screenshots/fullscreen.jpg'' of
        Inl e \<Rightarrow> (Inl e, pc)
      | Inr f \<Rightarrow>
          (case generate files api pc [\<lparr>mrole = ''user'', mcontent = [TextPart (fallback_text desc dims), ImagePart f]\<rparr>]
                  locate_prompt [] of
             (Inl e, pc') \<Rightarrow> (Inl e, pc')
           | (Inr r, pc') \<Rightarrow> (Inr (parse_coordinates r), pc')))"

text \<open>Lines 122-165 with the replies requested: the grid is refreshed first, the fallback asked last.\<close>

definition locate_element ::
  "(string \<rightharpoonup> string) \<Rightarrow> (message list \<Rightarrow> exn + string) \<Rightarrow> prompt_cache \<Rightarrow> b64_files \<Rightarrow> string \<Rightarrow> nat \<times> nat \<Rightarrow>
   nat \<Rightarrow> timestamp option \<Rightarrow> exn + nat \<times> nat \<Rightarrow> timestamp \<Rightarrow> point \<Rightarrow> 'img screenshot_cache \<Rightarrow>
   (exn + (nat \<times> nat) option) \<times> 'img screenshot_cache \<times> prompt_cache" where
  "locate_element files api pc rb desc dims n age shot now p c =
     (case ensure_grid_screenshot_exists n age shot now p c of
        (Inl e, c1) \<Rightarrow> (Inl e, c1, pc)
      | (Inr _, c1) \<Rightarrow>
          (case llm_choose_best_grid_cell files api pc rb desc of
             (Inl e, pc1) \<Rightarrow> (Inl e, c1, pc1)
           | (Inr reply, pc1) \<Rightarrow>
               (case (case extract_cell_number reply of
                        Some k \<Rightarrow> if k \<noteq> 0 then cell_center (get_grid_cells_from_cache c1) k else None
                      | None \<Rightarrow> None) of
                  Some xy \<Rightarrow> (Inr (Some xy), c1, pc1)
                | None \<Rightarrow>
                    (case fallback_llm_coordinate_detection files api pc1 rb desc dims of
                       (r, pc2) \<Rightarrow> (r, c1, pc2)))))"

text \<open>Lines 213-244: the move to the located point, if any.\<close>

definition move_mouse_llm ::
  "'d desktop_api \<Rightarrow> (string \<rightharpoonup> string) \<Rightarrow> (message list \<Rightarrow> exn + string) \<Rightarrow> prompt_cache \<Rightarrow> b64_files \<Rightarrow>
   string \<Rightarrow> nat \<times> nat \<Rightarrow> nat \<Rightarrow> timestamp option \<Rightarrow> exn + nat \<times> nat \<Rightarrow> timestamp \<Rightarrow> point \<Rightarrow>
   'img screenshot_cache \<Rightarrow> 'd exec_state \<Rightarrow>
   (exn + (nat \<times> nat) option) \<times> 'img screenshot_cache \<times> prompt_cache \<times> 'd exec_state" where
  "move_mouse_llm api files llm pc rb desc dims n age shot now p c st =
     (case locate_element files llm pc rb desc dims n age shot now p c of
        (Inl e, c1, pc1) \<Rightarrow> (Inl e, c1, pc1, st)
      | (Inr None, c1, pc1) \<Rightarrow> (Inr None, c1, pc1, st)
      | (Inr (Some (x, y)), c1, pc1) \<Rightarrow>
          (case invoke api (MoveTo (of_nat x) (of_nat y)) st of
             (Inl e, st') \<Rightarrow> (Inl e, c1, pc1, st')
           | (Inr _, st') \<Rightarrow> (Inr (Some (x, y)), c1, pc1, st')))"

subsection \<open>Properties\<close>

lemma error_text_no_cell: "extract_cell_number error_text = None"
  unfolding error_text_def by code_simp

lemma error_text_no_coordinates: "parse_coordinates error_text = None"
  unfolding error_text_def by code_simp

lemma generate_down:
  assumes "\<forall>ms. llm ms = Inl e" "load_prompt files pc (prompt_path pr) = Inr (sm, pc')"
  shows "generate files llm pc ms pr rd = (Inr error_text, pc')"
  using assms by (simp add: generate_def)

text \<open>
  C26. Across the language-model client, the UI locator and the input layer: when the
  model's API fails on every call (a timeout, a network error), both requests yield the
  client's fixed error text, which names neither a cell nor coordinates, so
  \<open>move_mouse_to_ui_element\<close> returns \<open>None\<close> and the mouse is not moved.
\<close>

lemma move_mouse_llm_api_down:
  assumes "\<forall>ms. llm ms = Inl e" "load_prompt files pc (prompt_path locate_prompt) = Inr (sm, pc')"
    "rb grid_path = Some g" "rb ''screenshots/fullscreen.jpg'' = Some f"
    "ensure_grid_screenshot_exists n age shot now p c = (Inr u, c1)"
  shows "move_mouse_llm api files llm pc rb desc dims n age shot now p c st = (Inr None, c1, pc', st)"
proof -
  have pc': "load_prompt files pc' (prompt_path locate_prompt) = Inr (sm, pc')"
    using load_prompt_mono[OF assms(2)] load_prompt_cached by blast
  have "llm_choose_best_grid_cell files llm pc rb desc = (Inr error_text, pc')"
    using assms(3,4) generate_down[OF assms(1,2)] by (simp add: llm_choose_best_grid_cell_def read_b64_def)
  moreover have "fallback_llm_coordinate_detection files llm pc' rb desc dims = (Inr None, pc')"
    using assms(4) generate_down[OF assms(1) pc'] error_text_no_coordinates
    by (simp add: fallback_llm_coordinate_detection_def read_b64_def)
  ultimately show ?thesis
    using assms(5) error_text_no_cell by (simp add: move_mouse_llm_def locate_element_def)
qed

text \<open>
  With answering calls, the composition is FindUI's \<open>get_ui_element_coordinates\<close> of the two
  replies: the fallback's reply only matters when the cell does not resolve.
\<close>

lemma locate_element_replies:
  assumes "llm_choose_best_grid_cell files llm pc rb desc = (Inr r1, pc1)"
    "fallback_llm_coordinate_detection files llm pc1 rb desc dims = (Inr (parse_coordinates r2), pc2)"
  shows "(\<lambda>(r, c', pc'). (r, c')) (locate_element files llm pc rb desc dims n age shot now p c) =
           get_ui_element_coordinates n age shot now p r1 r2 c"
  using assms
  by (auto simp: locate_element_def get_ui_element_coordinates_def split: prod.splits sum.splits option.splits)

subsection \<open>Witnesses\<close>

lemma move_mouse_llm_api_down_witness:
  "move_mouse_llm \<lparr>prim = (\<lambda>a d. Inr d), screen_size = (\<lambda>d. (1920, 1080)), cursor_pos = (\<lambda>d. (0, 0))\<rparr> [prompt_path locate_prompt \<mapsto> ''Locate the element.''] (\<lambda>ms. Inl (OSError ''timeout'')) Map.empty
     [grid_path \<mapsto> ''R0lG'', ''screenshots/fullscreen.jpg'' \<mapsto> ''/9j/'']
     ''OK button'' (1920, 1080) 1000 (Some 0) (Inl TypeError) 0 (0, 0) (cache_init :: string screenshot_cache)
     \<lparr>listening = False, desk = (), log = []\<rparr> =
   (Inr None, cache_init, [prompt_path locate_prompt \<mapsto> ''Locate the element.''], \<lparr>listening = False, desk = (), log = []\<rparr>)"
proof -
  have l: "load_prompt [prompt_path locate_prompt \<mapsto> ''Locate the element.''] Map.empty (prompt_path locate_prompt) =
      Inr (''Locate the element.'', [prompt_path locate_prompt \<mapsto> ''Locate the element.''])"
    by (simp add: load_prompt_def)
  have g: "[grid_path \<mapsto> ''R0lG'', ''screenshots/fullscreen.jpg'' \<mapsto> ''/9j/''] grid_path = Some ''R0lG''"
    by (simp add: grid_path_def)
  have f: "[grid_path \<mapsto> ''R0lG'', ''screenshots/fullscreen.jpg'' \<mapsto> ''/9j/''] ''screenshots/fullscreen.jpg'' = Some ''/9j/''"
    by simp
  have e: "ensure_grid_screenshot_exists 1000 (Some 0) (Inl TypeError) 0 (0, 0) (cache_init :: string screenshot_cache) =
      (Inr (), cache_init)"
    by (simp add: ensure_grid_screenshot_exists_def grid_stale_def)
  show ?thesis
    by (rule move_mouse_llm_api_down[OF _ l g f e]) simp
qed

end
