(* ===== verification/MainSupport.thy ===== *)
theory MainSupport
  imports AgentLoop "HOL-Library.Multiset"
begin

text \<open>
  The helpers of src/main.py around the loop: the ESC handler and the shutdown of
  \<open>run_desktop_agent\<close>, the command-processor thread over \<open>_command_results_queue\<close>, and the
  two formatting functions for detected UI elements (\<open>transform_ui_elements\<close>,
  \<open>get_ui_visual_summary\<close>), which nothing in the repository calls. The module globals
  \<open>agent_running\<close> and \<open>stop_event\<close> and the queue form the record \<open>main_globals\<close>. A detected
  element is a dict whose keys \<open>index\<close>, \<open>x\<close>, \<open>y\<close> hold ints and \<open>type\<close> a string when present,
  so \<open>element.get(k, default)\<close> is an option with its default.
\<close>

subsection \<open>Globals, ESC and shutdown\<close>

record 'c main_globals =
  g_running :: bool                \<comment> \<open>\<open>agent_running\<close>\<close>
  g_stop :: bool                   \<comment> \<open>\<open>stop_event.is_set()\<close>\<close>
  g_queue :: "'c option list"      \<comment> \<open>\<open>_command_results_queue\<close>, \<open>None\<close> the stop sentinel\<close>

datatype key = Esc | OtherKey string

text \<open>Lines 102-111: the listener callback; \<open>False\<close> stops the listener, \<open>None\<close> keeps it.\<close>

definition on_esc_press :: "key \<Rightarrow> 'c main_globals \<Rightarrow> bool option \<times> 'c main_globals" where
  "on_esc_press k g = (if k = Esc then (Some False, g\<lparr>g_running := False, g_stop := True\<rparr>) else (None, g))"

text \<open>Lines 395-402: the \<open>finally\<close> of \<open>run_desktop_agent\<close> (the voice processor's \<open>stop\<close> is Voice's).\<close>

definition agent_cleanup :: "'c main_globals \<Rightarrow> 'c main_globals" where
  "agent_cleanup g = g\<lparr>g_running := False, g_queue := g_queue g @ [None]\<rparr>"

text \<open>
  Lines 161-174: one pass of \<open>command_processor_thread\<close>. \<open>Inl\<close> is the thread's end (the loop
  condition or the sentinel), \<open>Inr\<close> the next pass; a batch of commands is handed to
  \<open>run\<close> (\<open>process_commands\<close> and the callback) and recorded in the log.
\<close>

definition cmd_thread_pass :: "'c main_globals \<times> 'c list \<Rightarrow> ('c main_globals \<times> 'c list) + ('c main_globals \<times> 'c list)" where
  "cmd_thread_pass s =
     (let (g, done) = s
      in if \<not> g_running g then Inl s
         else case g_queue g of
                [] \<Rightarrow> Inr s
              | None # q \<Rightarrow> Inl (g\<lparr>g_queue := q\<rparr>, done)
              | Some c # q \<Rightarrow> Inr (g\<lparr>g_queue := q\<rparr>, done @ [c]))"

fun cmd_thread :: "nat \<Rightarrow> 'c main_globals \<times> 'c list \<Rightarrow> ('c main_globals \<times> 'c list) option" where
  "cmd_thread 0 s = None"
| "cmd_thread (Suc f) s = (case cmd_thread_pass s of Inl s' \<Rightarrow> Some s' | Inr s' \<Rightarrow> cmd_thread f s')"

subsection \<open>transform_ui_elements and get_ui_visual_summary\<close>

record ui_elem_in =
  ei_index :: "int option"
  ei_type :: "string option"
  ei_x :: "int option"
  ei_y :: "int option"

record ui_elem =
  u_index :: int
  u_type :: string
  u_x :: int
  u_y :: int

definition transform_one :: "ui_elem_in \<Rightarrow> ui_elem" where
  "transform_one e = \<lparr>u_index = case_option 0 id (ei_index e), u_type = case_option [] id (ei_type e),
                      u_x = case_option 0 id (ei_x e), u_y = case_option 0 id (ei_y e)\<rparr>"

text \<open>Lines 129-135: elements still numbered 0 get their 1-based position in the sorted list.\<close>

fun renumber :: "nat \<Rightarrow> ui_elem list \<Rightarrow> ui_elem list" where
  "renumber i [] = []"
| "renumber i (e # es) = (if u_index e = 0 then e\<lparr>u_index := int i\<rparr> else e) # renumber (Suc i) es"

text \<open>Lines 120-137; \<open>list.sort\<close> is stable, as \<open>sort_key\<close> is.\<close>

definition transform_ui_elements :: "ui_elem_in list \<Rightarrow> ui_elem list" where
  "transform_ui_elements es = renumber 1 (sort_key u_index (map transform_one es))"

text \<open>Lines 140-144, with Python's \<open>str\<close> of an int and the fixed header (a Russian string) as parameters.\<close>

definition get_ui_visual_summary :: "string \<Rightarrow> (int \<Rightarrow> string) \<Rightarrow> ui_elem list \<Rightarrow> string" where
  "get_ui_visual_summary hdr si es =
     hdr @ concat (map (\<lambda>e. ''  ['' @ si (u_index e) @ ''] '' @ u_type e @ '' at ('' @ si (u_x e) @ '', '' @
                                 si (u_y e) @ '')'' @ ''\<newline>'') es)"

subsection \<open>Properties\<close>

lemma map_insort_key: "map f (insort_key f x xs) = insort (f x) (map f xs)"
  by (induction xs) auto

lemma map_sort_key: "map f (sort_key f xs) = sort (map f xs)"
  by (induction xs) (simp_all add: map_insort_key)

lemma insort_key_skip:
  "\<forall>z \<in> set zs. f z < f y \<Longrightarrow> insort_key f y (zs @ rs) = zs @ insort_key f y rs"
  by (induction zs) auto

lemma sort_key_zeros_first:
  fixes f :: "'a \<Rightarrow> int"
  assumes "\<forall>y \<in> set ys. 0 \<le> f y"
  shows "sort_key f ys = filter (\<lambda>y. f y = 0) ys @ sort_key f (filter (\<lambda>y. f y \<noteq> 0) ys)"
  using assms
proof (induction ys)
  case (Cons y ys)
  show ?case
  proof (cases "f y = 0")
    case True
    have "\<forall>z \<in> set (sort_key f ys). f y \<le> f z" using Cons.prems True by simp
    then have "insort_key f y (sort_key f ys) = y # sort_key f ys" by (cases "sort_key f ys") auto
    then show ?thesis using Cons True by simp
  next
    case False
    then have "\<forall>z \<in> set (filter (\<lambda>y. f y = 0) ys). f z < f y" using Cons.prems by auto
    then show ?thesis using Cons False by (simp add: insort_key_skip)
  qed
qed simp

lemma renumber_append:
  "renumber i (zs @ rs) = renumber i zs @ renumber (i + length zs) rs"
  by (induction zs arbitrary: i) auto

lemma renumber_zeros: "\<forall>z \<in> set zs. u_index z = 0 \<Longrightarrow> map u_index (renumber i zs) = map int [i..<i + length zs]"
  by (induction zs arbitrary: i) (auto simp: upt_rec)

lemma renumber_nonzero: "\<forall>z \<in> set zs. u_index z \<noteq> 0 \<Longrightarrow> renumber i zs = zs"
  by (induction zs arbitrary: i) auto

text \<open>
  With non-negative indices, the elements numbered 0 come first after the sort and are
  renumbered \<open>1..k\<close>; the others keep their indices, in sorted order. A kept index up to
  \<open>k\<close> therefore occurs twice (\<open>transform_ui_elements_duplicate\<close>).
\<close>

lemma transform_ui_elements_indices:
  assumes "\<forall>e \<in> set es. 0 \<le> u_index (transform_one e)"
  shows "map u_index (transform_ui_elements es) =
           map int [1..<Suc (length (filter (\<lambda>i. i = 0) (map (u_index \<circ> transform_one) es)))] @
           sort (filter (\<lambda>i. i \<noteq> 0) (map (u_index \<circ> transform_one) es))"
proof -
  let ?ys = "map transform_one es"
  let ?zs = "filter (\<lambda>y. u_index y = 0) ?ys" and ?rs = "filter (\<lambda>y. u_index y \<noteq> 0) ?ys"
  have s: "sort_key u_index ?ys = ?zs @ sort_key u_index ?rs"
    using assms by (intro sort_key_zeros_first) auto
  have "\<forall>z \<in> set (sort_key u_index ?rs). u_index z \<noteq> 0" by simp
  then have "map u_index (transform_ui_elements es) = map int [1..<1 + length ?zs] @ sort (map u_index ?rs)"
    by (simp add: transform_ui_elements_def s renumber_append renumber_zeros renumber_nonzero map_sort_key)
  moreover have "length ?zs = length (filter (\<lambda>i. i = 0) (map (u_index \<circ> transform_one) es))"
    by (simp add: filter_map comp_def length_filter_map)
  moreover have "map u_index ?rs = filter (\<lambda>i. i \<noteq> 0) (map (u_index \<circ> transform_one) es)"
    by (simp add: filter_map comp_def)
  ultimately show ?thesis by simp
qed

lemma transform_ui_elements_duplicate:
  "map u_index (transform_ui_elements
      [\<lparr>ei_index = None, ei_type = Some ''button'', ei_x = Some 10, ei_y = Some 20\<rparr>,
       \<lparr>ei_index = Some 0, ei_type = Some ''icon'', ei_x = Some 30, ei_y = Some 40\<rparr>,
       \<lparr>ei_index = Some 1, ei_type = Some ''menu'', ei_x = Some 50, ei_y = Some 60\<rparr>]) = [1, 2, 1]"
  by (subst transform_ui_elements_indices) (simp_all add: transform_one_def)

text \<open>
  ESC stops the agent: the handler clears \<open>agent_running\<close> and sets the stop event, so the
  loop's next condition test ends it; the shutdown clears \<open>agent_running\<close> before queueing the
  sentinel, so the command thread ends at its next pass by the loop condition and the
  sentinel stays queued.
\<close>

lemma esc_ends_loop:
  assumes "on_esc_press Esc g = (r, g')" "agent_running st = g_running g'"
  shows "r = Some False \<and> g_stop g' \<and> agent_loop (Suc f) mx use_voice env k st = Some (LoopEnded, st)"
  using assms by (auto simp: on_esc_press_def)

lemma cleanup_ends_cmd_thread:
  "cmd_thread (Suc f) (agent_cleanup g, d) = Some (agent_cleanup g, d) \<and> last (g_queue (agent_cleanup g)) = None"
  by (simp add: cmd_thread_pass_def agent_cleanup_def)

end
