(* ===== verification/Iteration.thy ===== *)
theory Iteration
  imports Executor LLMClient ImageCache
begin

text \<open>
  One iteration of the loop of \<open>run_desktop_agent\<close> (src/main.py lines 272-394) composed
  from the components: \<open>save_screenshot\<close> and \<open>convert_to_base64\<close> (ImageCache), the turn's
  messages (AgentLoop), \<open>generate\<close> (LLMClient), \<open>extract_json\<close> (JsonExtract) and
  \<open>process_commands\<close> (Executor) in the command phase, and the results turn. \<open>full_loop\<close>
  runs the loop with these bodies; it refines \<open>agent_loop\<close>, whose passes see the body only
  through the gate after the commands. Status updates, prints and the short sleeps of
  skipped passes are not part of the state.
\<close>

subsection \<open>The command phase\<close>

text \<open>
  Lines 369-372: one line per result, \<open>f"{status} {result['command']}: {result['message']}\n"\<close>,
  after the fixed header (a Russian string, the parameter \<open>hdr\<close>). \<open>sv\<close> and \<open>sm\<close> are
  Python's \<open>str\<close> of the command name and of the message.
\<close>

definition result_line :: "(pyval \<Rightarrow> string) \<Rightarrow> (msg \<Rightarrow> string) \<Rightarrow> cmd_result \<Rightarrow> string" where
  "result_line sv sm r =
     (if rsuccess r then CHR ''+'' else CHR ''-'') # CHR '' '' # sv (rcommand r) @ '': '' @ sm (rmessage r) @ ''\<newline>''"

definition results_text :: "string \<Rightarrow> (pyval \<Rightarrow> string) \<Rightarrow> (msg \<Rightarrow> string) \<Rightarrow> cmd_result list \<Rightarrow> string" where
  "results_text hdr sv sm rs = hdr @ concat (map (result_line sv sm) rs)"

definition command_phase ::
  "'d desktop_api \<Rightarrow> (string \<Rightarrow> pyval option) \<Rightarrow> string \<Rightarrow> (pyval \<Rightarrow> string) \<Rightarrow> (msg \<Rightarrow> string) \<Rightarrow> string \<Rightarrow>
   heap \<times> nat list \<times> 'd exec_state \<Rightarrow> heap \<times> nat list \<times> 'd exec_state" where
  "command_phase api loads hdr sv sm reply hs =
     (let (h, ms, est) = hs;
          (cmds, text) = extract_json loads reply
      in if cmds = [] then (h, ms, est)
         else let (rs, est') = process_commands api cmds est;
                  (h', ms') = record_results h ms (results_text hdr sv sm rs)
              in (h', ms', est'))"

subsection \<open>One iteration\<close>

text \<open>What the body of an iteration depends on besides the state; \<open>k\<close> numbers the passes.\<close>

record ('d, 's, 'r) iter_env =
  i_api :: "'d desktop_api"
  i_prompts :: "string \<rightharpoonup> string"               \<comment> \<open>the prompt files\<close>
  i_llm :: "message list \<Rightarrow> exn + string"          \<comment> \<open>the OpenAI call inside \<open>generate\<close>\<close>
  i_system_prompt :: string                       \<comment> \<open>\<open>config.SYSTEM_PROMPT\<close>\<close>
  i_loads :: "string \<Rightarrow> pyval option"              \<comment> \<open>\<open>json.loads\<close>\<close>
  i_hdr :: string
  i_sv :: "pyval \<Rightarrow> string"
  i_sm :: "msg \<Rightarrow> string"
  i_capture :: "nat \<Rightarrow> exn + ('s \<times> nat \<times> nat)"    \<comment> \<open>\<open>pyautogui.screenshot()\<close> at pass \<open>k\<close>\<close>
  i_resize :: "'s \<Rightarrow> nat \<times> nat \<Rightarrow> exn + 'r"
  i_write_ok :: bool
  i_pil :: "string \<Rightarrow> 'r shot \<Rightarrow> exn + string"
  i_raw :: "'r shot \<Rightarrow> exn + string"
  i_clock :: "nat \<Rightarrow> timestamp"                   \<comment> \<open>\<open>time.time()\<close> at pass \<open>k\<close>\<close>
  i_manual :: "nat \<Rightarrow> ustr"                        \<comment> \<open>\<open>input('>> ')\<close> at pass \<open>k\<close>\<close>

text \<open>What an iteration reads and writes: the history, the executor, the files and the two caches.\<close>

record ('d, 'r) iter_state =
  i_heap :: heap
  i_msgs :: "nat list"             \<comment> \<open>\<open>messages\<close>\<close>
  i_exec :: "'d exec_state"
  i_files :: "'r shot file_system"
  i_b64 :: b64_cache               \<comment> \<open>\<open>_image_cache\<close> of image_utils.py\<close>
  i_pcache :: prompt_cache         \<comment> \<open>\<open>_prompt_cache\<close> of openrouter_api.py\<close>

text \<open>
  Lines 309-350: the screenshot, its base64, and the turn; the result is the new files and
  cache, the store, the persisted references and those of the list sent to the model.
\<close>

definition iteration_sense ::
  "('d, 's, 'r) iter_env \<Rightarrow> nat \<Rightarrow> ustr option \<Rightarrow> ('d, 'r) iter_state \<Rightarrow>
   exn + 'r shot file_system \<times> b64_cache \<times> heap \<times> nat list \<times> nat list" where
  "iteration_sense ie k vf cs =
     (case save_screenshot (i_capture ie k) (i_resize ie) (cursor_pos (i_api ie) (desk (i_exec cs))) (i_write_ok ie)
             (i_clock ie k) (i_files cs) of
        Inl e \<Rightarrow> Inl e
      | Inr fs \<Rightarrow>
          (let (img, b64) = convert_to_base64 (i_pil ie) (i_raw ie) (i_clock ie k) (i_clock ie k) fs (i_b64 cs)
                              fullscreen_path;
               (h1, ms1, temp) = prepare_turn (i_heap cs) (i_msgs cs) img vf
           in Inr (fs, b64, h1, ms1, temp)))"

text \<open>
  Lines 352-390: the model's reply for \<open>list(temp_messages)\<close>, its commands, the half-second
  pause. The second component is the gate after \<open>process_commands\<close> when commands ran.
\<close>

definition iteration_body ::
  "('d, 's, 'r) iter_env \<Rightarrow> nat \<Rightarrow> ustr option \<Rightarrow> ('d, 'r) iter_state \<Rightarrow> exn + ('d, 'r) iter_state \<times> bool option" where
  "iteration_body ie k vf cs =
     (case iteration_sense ie k vf cs of
        Inl e \<Rightarrow> Inl e
      | Inr (fs, b64, h1, ms1, temp) \<Rightarrow>
          (case generate (i_prompts ie) (i_llm ie) (i_pcache cs) (deref h1 temp) (i_system_prompt ie) [] of
             (Inl e, pc) \<Rightarrow> Inl e
           | (Inr reply, pc) \<Rightarrow>
               (let (h2, ms2, est) = command_phase (i_api ie) (i_loads ie) (i_hdr ie) (i_sv ie) (i_sm ie) reply
                                       (h1, ms1, i_exec cs)
                in Inr (cs\<lparr>i_heap := h2, i_msgs := ms2, i_exec := sleep (1/2) est, i_files := fs, i_b64 := b64,
                           i_pcache := pc\<rparr>,
                        if fst (extract_json (i_loads ie) reply) = [] then None else Some (listening est)))))"

text \<open>
  The voice feedback the body sees (lines 287-307): the accepted text of the polling
  window, or, paused without voice and without feedback, the line typed at the prompt.
\<close>

definition voice_text :: "voice_result \<Rightarrow> ustr option" where
  "voice_text r = (case r of VoiceText t \<Rightarrow> if t = [] then None else Some t | _ \<Rightarrow> None)"

definition pass_feedback :: "bool \<Rightarrow> loop_obs \<Rightarrow> loop_state \<Rightarrow> ustr \<Rightarrow> ustr option" where
  "pass_feedback use_voice ob st manual =
     (let r = (if use_voice then poll_voice (voice_batches ob) else VoiceNone)
      in if gate_after_voice r (listening_gate st) \<and> \<not> has_feedback r then (if manual = [] then None else Some manual)
         else voice_text r)"

text \<open>
  Lines 272-394 with the body run: the control of the pass is \<open>loop_pass\<close> without a gate
  from commands; a pass that counts an iteration is the one that reaches the body, which
  runs with the module's \<open>listening\<close> equal to the loop's gate and whose gate after the
  commands, if any ran, is the loop's next gate. An exception of the body ends the loop.
\<close>

fun full_loop ::
  "nat \<Rightarrow> nat \<Rightarrow> bool \<Rightarrow> ('d, 's, 'r) iter_env \<Rightarrow> (nat \<Rightarrow> loop_obs) \<Rightarrow> nat \<Rightarrow> loop_state \<Rightarrow> ('d, 'r) iter_state \<Rightarrow>
   ((exn + loop_exit) \<times> loop_state \<times> ('d, 'r) iter_state) option" where
  "full_loop 0 mx use_voice ie env k st cs = None"
| "full_loop (Suc f) mx use_voice ie env k st cs =
     (if \<not> (it st < mx \<and> agent_running st) then Some (Inr LoopEnded, st, cs)
      else case loop_pass use_voice ((env k)\<lparr>gate_after_commands := None\<rparr>) st of
             Inl (r, st') \<Rightarrow> Some (Inr r, st', cs)
           | Inr st' \<Rightarrow>
               if it st' = it st then full_loop f mx use_voice ie env (Suc k) st' cs
               else case iteration_body ie k (pass_feedback use_voice (env k) st (i_manual ie k))
                           (cs\<lparr>i_exec := (i_exec cs)\<lparr>listening := listening_gate st'\<rparr>\<rparr>) of
                      Inl e \<Rightarrow> Some (Inl e, st', cs)
                    | Inr (cs', g) \<Rightarrow>
                        full_loop f mx use_voice ie env (Suc k)
                          (st'\<lparr>listening_gate := case g of Some b \<Rightarrow> b | None \<Rightarrow> listening_gate st'\<rparr>) cs')"

text \<open>
  What a run keeps: a well-formed history of at most 16 messages (15 after a truncation,
  one more when a pass opens a user message), and an image cache sound for the files with
  no time ahead of the last pass's clock.
\<close>

definition iter_inv :: "(string \<Rightarrow> 'r shot \<Rightarrow> exn + string) \<Rightarrow> timestamp \<Rightarrow> ('d, 'r) iter_state \<Rightarrow> bool" where
  "iter_inv pil t cs \<longleftrightarrow> hist_wf (i_heap cs) (i_msgs cs) \<and>
     (length (i_msgs cs) \<le> 15 \<or> length (i_msgs cs) = 16 \<and> mrole (i_heap cs ! last (i_msgs cs)) = ''user'') \<and>
     img_inv pil t (i_files cs) (i_b64 cs)"

subsection \<open>A concrete iteration\<close>

text \<open>
  A desktop whose primitives succeed, a 512 by 512 screen, a model that answers with prose
  and no command, and PIL encoding a file to its format's name.
\<close>

definition demo_iter_env :: "(unit, unit, unit) iter_env" where
  "demo_iter_env =
     \<lparr>i_api = \<lparr>prim = (\<lambda>a d. Inr d), screen_size = (\<lambda>d. (512, 512)), cursor_pos = (\<lambda>d. (0, 0))\<rparr>,
      i_prompts = [prompt_path ''system'' \<mapsto> ''You operate the desktop.''], i_llm = (\<lambda>ms. Inr ''Done.''),
      i_system_prompt = ''system'', i_loads = (\<lambda>s. None), i_hdr = ''R'', i_sv = (\<lambda>v. ''c''), i_sm = (\<lambda>m. ''m''),
      i_capture = (\<lambda>k. Inr ((), 512, 512)), i_resize = (\<lambda>i sz. Inr i), i_write_ok = True,
      i_pil = (\<lambda>fmt sh. Inr fmt), i_raw = (\<lambda>sh. Inl TypeError), i_clock = (\<lambda>k. of_nat (Suc k)),
      i_manual = (\<lambda>k. [])\<rparr>"

definition demo_iter_state :: "(unit, unit) iter_state" where
  "demo_iter_state =
     \<lparr>i_heap = task_history ''open notepad'', i_msgs = [0], i_exec = \<lparr>listening = False, desk = (), log = []\<rparr>,
      i_files = Map.empty, i_b64 = Map.empty, i_pcache = Map.empty\<rparr>"

subsection \<open>Properties\<close>

lemma extract_listen:
  assumes \<open>loads ''{"command":"listen"}'' = Some c\<close>
  shows \<open>extract_json loads ''Waiting. {"command":"listen"}'' = ([c], ''Waiting.'')\<close>
  using assms
  by (simp add: extract_json_def unescape_def py_simps scan_init_def scan_char_def scan_open_def scan_collect_def scan_close_def remove_spans_def py_strip_def py_isspace_def)

lemma process_commands_listen_only:
  assumes "py_getitem c ''command'' = Inr (PStr ''listen'')"
  shows "process_commands api [c] est =
           (if listening est then ([], est)
            else ([\<lparr>rcommand = PStr ''listen'', rsuccess = True, rmessage = MsgWaitingUser\<rparr>], est\<lparr>listening := True\<rparr>))"
  using assms by (simp add: process_commands_def dispatch_listen flush_def ex_return_def)

subsection \<open>The request carries the current screenshot\<close>

lemma last_add_to_last [simp]: "last (add_to_last xs items) = (last xs)\<lparr>mcontent := mcontent (last xs) @ items\<rparr>"
  by (simp add: add_to_last_def)

lemma gen_window_last: "ms \<noteq> [] \<Longrightarrow> last (gen_window ms) = last ms"
  by (simp add: gen_window_def) linarith

lemma prepare_turn_image:
  assumes "hist_wf h ms" "prepare_turn h ms img vf = (h1, ms1, temp)"
  shows "temp \<noteq> [] \<and> ImagePart img \<in> set (mcontent (last (deref h1 temp)))"
proof (cases "mrole (h ! last ms) = ''user''")
  case True
  have ne: "ms \<noteq> []" using assms(1) by (simp add: hist_wf_def)
  have "h1 = extend_last (extend_last h ms (message_content img vf)) ms [placeholder]" "temp = ms"
    using assms True by (auto simp: prepare_turn_user)
  then show ?thesis
    using assms(1) ne by (simp add: deref_extend_last message_content_def)
next
  case False
  have "\<forall>a \<in> set ms. a < length h" using assms(1) by (simp add: hist_wf_def)
  moreover have "h1 = h @ [\<lparr>mrole = ''user'', mcontent = message_content img vf\<rparr>,
                          \<lparr>mrole = ''user'', mcontent = [TurnPart ''user'' [placeholder]]\<rparr>]" "temp = ms @ [length h]"
    using assms False by (auto simp: prepare_turn_other)
  ultimately show ?thesis by (simp add: nth_append message_content_def)
qed

lemma iteration_sense_Inr:
  assumes "iteration_sense ie k vf cs = Inr (fs, b64, h1, ms1, temp)"
  shows "\<exists>img sh. fs = (i_files cs)(fullscreen_path \<mapsto> (i_clock ie k, sh)) \<and>
           convert_to_base64 (i_pil ie) (i_raw ie) (i_clock ie k) (i_clock ie k) fs (i_b64 cs) fullscreen_path = (img, b64) \<and>
           prepare_turn (i_heap cs) (i_msgs cs) img vf = (h1, ms1, temp)"
proof (cases "save_screenshot (i_capture ie k) (i_resize ie) (cursor_pos (i_api ie) (desk (i_exec cs))) (i_write_ok ie)
                (i_clock ie k) (i_files cs)")
  case (Inl e)
  then show ?thesis using assms by (simp add: iteration_sense_def)
next
  case (Inr fs0)
  obtain sh where "fs0 = (i_files cs)(fullscreen_path \<mapsto> (i_clock ie k, sh))" using save_screenshot_Inr Inr by blast
  then show ?thesis using assms Inr by (auto simp: iteration_sense_def split: prod.splits)
qed

text \<open>
  C17. Across the screenshot, the image cache, the turn and the client: from a sound image
  cache with no time ahead of the clock, a pass at a later time writes the screenshot at that
  time, and the last message of the window that \<open>generate\<close> sends to the model holds the
  encoding of that new file, not of an earlier one; the cache is left sound for the next
  pass.
\<close>

theorem iteration_request_current_image:
  assumes "img_inv (i_pil ie) clock (i_files cs) (i_b64 cs)" "clock < i_clock ie k"
    "hist_wf (i_heap cs) (i_msgs cs)" "iteration_sense ie k vf cs = Inr (fs, b64, h1, ms1, temp)"
  shows "ImagePart (b64_reference (i_pil ie) (i_raw ie) fs fullscreen_path) \<in> set (mcontent (last (gen_window (deref h1 temp)))) \<and>
         img_inv (i_pil ie) (i_clock ie k) fs b64 \<and> fst (the (fs fullscreen_path)) = i_clock ie k"
proof -
  obtain img sh where fs: "fs = (i_files cs)(fullscreen_path \<mapsto> (i_clock ie k, sh))"
    and cv: "convert_to_base64 (i_pil ie) (i_raw ie) (i_clock ie k) (i_clock ie k) fs (i_b64 cs) fullscreen_path = (img, b64)"
    and pt: "prepare_turn (i_heap cs) (i_msgs cs) img vf = (h1, ms1, temp)"
    using iteration_sense_Inr[OF assms(4)] by blast
  have inv: "img_inv (i_pil ie) (i_clock ie k) fs (i_b64 cs)" using img_inv_save[OF assms(1,2) fs] .
  have "img = b64_reference (i_pil ie) (i_raw ie) fs fullscreen_path"
    using convert_reference[of "i_pil ie" fs "i_b64 cs" "i_raw ie" "i_clock ie k" "i_clock ie k" fullscreen_path] inv cv
    by (simp add: img_inv_def)
  moreover have "img_inv (i_pil ie) (i_clock ie k) fs b64"
    using img_inv_convert[OF inv, of "i_raw ie" "i_clock ie k" "i_clock ie k" fullscreen_path] cv by simp
  moreover have "temp \<noteq> [] \<and> ImagePart img \<in> set (mcontent (last (deref h1 temp)))"
    using prepare_turn_image[OF assms(3) pt] .
  moreover have "temp \<noteq> [] \<Longrightarrow> deref h1 temp \<noteq> []" by (simp add: deref_def)
  ultimately show ?thesis using fs by (simp add: gen_window_last)
qed

subsection \<open>The full loop refines the loop of AgentLoop\<close>








text \<open>Without voice the composed loop returns, normally or by an exception, within \<open>max_iterations - i + 1\<close> passes.\<close>

lemma full_loop_novoice:
  "mx - it st < f \<Longrightarrow> \<exists>y. full_loop f mx False ie env k st cs = Some y"
proof (induction f arbitrary: k st cs)
  case (Suc f)
  show ?case
  proof (cases "loop_pass False ((env k)\<lparr>gate_after_commands := None\<rparr>) st")
    case (Inr st')
    then have s: "it st' = Suc (it st)" using loop_pass_novoice by blast
    show ?thesis
    proof (cases "it st < mx \<and> agent_running st")
      case True
      then have "mx - it st' < f \<or> \<not> it st' < mx" using Suc.prems s by auto
      moreover have "\<not> it st' < mx \<Longrightarrow> mx - it st' < f" using Suc.prems s True by auto
      ultimately have "mx - it (st'\<lparr>listening_gate := b\<rparr>) < f" for b by auto
      then show ?thesis using Suc.IH Inr s True by (auto split: sum.split prod.split)
    qed simp
  qed (auto split: prod.split)
qed simp

subsection \<open>The invariant of the composed loop\<close>

lemma command_phase_history:
  "command_phase api loads hdr sv sm reply (h, ms, est) = (h2, ms2, est2) \<Longrightarrow>
   (h2, ms2) = (case (if fst (extract_json loads reply) = [] then None
                      else Some (results_text hdr sv sm (fst (process_commands api (fst (extract_json loads reply)) est)))) of
                  None \<Rightarrow> (h, ms) | Some r \<Rightarrow> record_results h ms r)"
  by (auto simp: command_phase_def split: prod.splits)

text \<open>One pass is one turn of AgentLoop's \<open>run_turns\<close> on the history, and a save and a conversion on the files.\<close>

lemma iteration_body_inv:
  assumes "iteration_body ie k vf cs = Inr (cs', g)" "iter_inv (i_pil ie) t cs" "t < i_clock ie k"
  shows "iter_inv (i_pil ie) (i_clock ie k) cs'"
proof -
  obtain fs b64 h1 ms1 temp where se: "iteration_sense ie k vf cs = Inr (fs, b64, h1, ms1, temp)"
    using assms(1) by (cases "iteration_sense ie k vf cs") (auto simp: iteration_body_def)
  obtain img sh where fs: "fs = (i_files cs)(fullscreen_path \<mapsto> (i_clock ie k, sh))"
    and cv: "convert_to_base64 (i_pil ie) (i_raw ie) (i_clock ie k) (i_clock ie k) fs (i_b64 cs) fullscreen_path = (img, b64)"
    and pt: "prepare_turn (i_heap cs) (i_msgs cs) img vf = (h1, ms1, temp)"
    using iteration_sense_Inr[OF se] by blast
  obtain reply pc where gen: "generate (i_prompts ie) (i_llm ie) (i_pcache cs) (deref h1 temp) (i_system_prompt ie) [] = (Inr reply, pc)"
    using assms(1) se by (auto simp: iteration_body_def split: prod.splits sum.splits)
  obtain h2 ms2 est where cp: "command_phase (i_api ie) (i_loads ie) (i_hdr ie) (i_sv ie) (i_sm ie) reply (h1, ms1, i_exec cs) = (h2, ms2, est)"
    by (cases "command_phase (i_api ie) (i_loads ie) (i_hdr ie) (i_sv ie) (i_sm ie) reply (h1, ms1, i_exec cs)") auto
  have c': "i_heap cs' = h2" "i_msgs cs' = ms2" "i_files cs' = fs" "i_b64 cs' = b64"
    using assms(1) se gen cp by (auto simp: iteration_body_def)
  let ?res = "if fst (extract_json (i_loads ie) reply) = [] then None
              else Some (results_text (i_hdr ie) (i_sv ie) (i_sm ie)
                     (fst (process_commands (i_api ie) (fst (extract_json (i_loads ie) reply)) (i_exec cs))))"
  have rt: "run_turns (i_heap cs) (i_msgs cs) [Turn img vf ?res] = (h2, ms2)"
    using command_phase_history[OF cp] pt by (simp split: option.split)
  have "hist_wf h2 ms2 \<and> (length ms2 \<le> 15 \<or> length ms2 = 16 \<and> mrole (h2 ! last ms2) = ''user'')"
    using assms(2) run_turn_inv[OF _ _ rt] unfolding iter_inv_def by blast
  moreover have "img_inv (i_pil ie) (i_clock ie k) fs b64"
  proof -
    have sv: "img_inv (i_pil ie) (i_clock ie k) fs (i_b64 cs)"
      using img_inv_save[OF _ assms(3) fs] assms(2) by (simp add: iter_inv_def)
    show ?thesis using img_inv_convert[OF sv, of "i_raw ie" "i_clock ie k" "i_clock ie k" fullscreen_path] cv by simp
  qed
  ultimately show ?thesis using c' by (simp add: iter_inv_def)
qed

lemma full_loop_iter_inv:
  "full_loop f mx uv ie env k st cs = Some (r, st', cs') \<Longrightarrow> iter_inv (i_pil ie) t cs \<Longrightarrow> t < i_clock ie k \<Longrightarrow>
   strict_mono (i_clock ie) \<Longrightarrow> \<exists>t'. iter_inv (i_pil ie) t' cs'"
proof (induction f mx uv ie env k st cs arbitrary: t rule: full_loop.induct)
  case (2 f mx uv ie env k st cs)
  have next_k: "i_clock ie k < i_clock ie (Suc k)" using "2.prems"(4) by (simp add: strict_mono_def)
  show ?case
  proof (cases "it st < mx \<and> agent_running st")
    case run: True
    show ?thesis
    proof (cases "loop_pass uv ((env k)\<lparr>gate_after_commands := None\<rparr>) st")
      case lp: (Inr st1)
      let ?cs1 = "cs\<lparr>i_exec := (i_exec cs)\<lparr>listening := listening_gate st1\<rparr>\<rparr>"
      show ?thesis
      proof (cases "it st1 = it st")
        case True
        have "t < i_clock ie (Suc k)" using "2.prems"(3) next_k by simp
        then show ?thesis using "2.IH"(1)[OF _ lp True] "2.prems" run lp True by auto
      next
        case counted: False
        show ?thesis
        proof (cases "iteration_body ie k (pass_feedback uv (env k) st (i_manual ie k)) ?cs1")
          case body: (Inr b)
          obtain cs1 g where bd: "iteration_body ie k (pass_feedback uv (env k) st (i_manual ie k)) ?cs1 = Inr (cs1, g)"
            using body by (cases b) auto
          have "iter_inv (i_pil ie) t ?cs1" using "2.prems"(2) by (simp add: iter_inv_def)
          then have "iter_inv (i_pil ie) (i_clock ie k) cs1" using iteration_body_inv[OF bd] "2.prems"(3) by simp
          then show ?thesis using "2.IH"(2)[OF _ lp counted bd] "2.prems" run lp counted bd next_k by auto
        qed (use "2.prems" run lp counted in auto)
      qed
    qed (use "2.prems" run in auto)
  qed (use "2.prems" in auto)
qed simp

text \<open>
  C21. The invariant of the running agent, across the screenshot file, the image cache, the
  turn's messages, the model call and the command phase: over any run of the loop with its
  real bodies, from a well-formed history and a sound image cache, with the clock advancing
  from pass to pass, the history stays well formed with at most 16 messages and the image
  cache stays sound for the screenshot files, whether the run returns or raises.
\<close>

theorem full_loop_inv:
  assumes "full_loop f mx uv ie env k st cs = Some (r, st', cs')" "iter_inv (i_pil ie) t cs" "t < i_clock ie k"
    "strict_mono (i_clock ie)"
  shows "hist_wf (i_heap cs') (i_msgs cs') \<and> length (i_msgs cs') \<le> 16 \<and>
         cache_sound (i_pil ie) (i_files cs') (i_b64 cs')"
  using full_loop_iter_inv[OF assms] by (auto simp: iter_inv_def img_inv_def)

subsection \<open>Witnesses\<close>

lemma demo_save_format: "save_format fullscreen_path = ''JPEG''"
  unfolding fullscreen_path_def by code_simp

lemma demo_iter_env_simps:
  "i_prompts demo_iter_env = [prompt_path ''system'' \<mapsto> ''You operate the desktop.'']"
  "i_llm demo_iter_env = (\<lambda>ms. Inr ''Done.'')" "i_system_prompt demo_iter_env = ''system''"
  "i_loads demo_iter_env = (\<lambda>s. None)" "i_manual demo_iter_env = (\<lambda>k. [])" "i_clock demo_iter_env 0 = 1"
  by (simp_all add: demo_iter_env_def)

lemma demo_iter_state_simps:
  "i_pcache demo_iter_state = Map.empty" "demo_iter_state\<lparr>i_exec := (i_exec demo_iter_state)\<lparr>listening := False\<rparr>\<rparr> = demo_iter_state"
  "hist_wf (i_heap demo_iter_state) (i_msgs demo_iter_state)"
  "img_inv (i_pil demo_iter_env) 0 (i_files demo_iter_state) (i_b64 demo_iter_state)"
  by (simp_all add: demo_iter_state_def task_history_wf img_inv_def cache_sound_def)

lemma demo_sense:
  "iteration_sense demo_iter_env 0 None demo_iter_state = Inr ([fullscreen_path \<mapsto> (1, \<lparr>shot_img = (), shot_size = (512, 512), shot_dot = (0, 0)\<rparr>)], [fullscreen_path \<mapsto> (1, 1, ''JPEG'')], [\<lparr>mrole = ''user'', mcontent = [TextPart ''New task: open notepad'', TextPart ''Fullscreen screenshot:'', ImagePart ''JPEG'', placeholder]\<rparr>], [0], [0])"
  by (simp add: iteration_sense_def demo_iter_env_def demo_iter_state_def save_screenshot_def py_int_def
                convert_to_base64_def b64_hit_def demo_save_format prepare_turn_def task_history_def extend_last_def
                message_content_def)

lemma demo_reply_no_commands: "extract_json (\<lambda>s. None) ''Done.'' = ([], ''Done.'')"
  by (simp add: extract_json_def unescape_def py_simps scan_init_def scan_char_def scan_open_def scan_collect_def
                scan_close_def remove_spans_def py_strip_def py_isspace_def)

lemma demo_full_loop:
  "\<exists>cs'. full_loop 2 1 False demo_iter_env (\<lambda>k. \<lparr>stop_requested = False, voice_busy = False, voice_batches = [], gate_after_commands = None\<rparr>) 0 \<lparr>it = 0, agent_running = True, listening_gate = False\<rparr> demo_iter_state = Some (Inr LoopEnded, \<lparr>it = 1, agent_running = True, listening_gate = False\<rparr>, cs')"
proof -
  have vf: "pass_feedback False \<lparr>stop_requested = False, voice_busy = False, voice_batches = [], gate_after_commands = None\<rparr> \<lparr>it = 0, agent_running = True, listening_gate = False\<rparr> (i_manual demo_iter_env 0) = None"
    by (simp add: pass_feedback_def gate_after_voice_def has_feedback_def voice_text_def demo_iter_env_simps)
  have "\<exists>cs1. iteration_body demo_iter_env 0 None demo_iter_state = Inr (cs1, None)"
    by (simp add: iteration_body_def demo_sense generate_def load_prompt_def demo_iter_env_simps demo_iter_state_simps
                  command_phase_def demo_reply_no_commands split: prod.split)
  then obtain cs1 where "iteration_body demo_iter_env 0 None demo_iter_state = Inr (cs1, None)" by blast
  then show ?thesis
    by (simp add: numeral_2_eq_2 loop_pass_def Let_def gate_after_voice_def has_feedback_def is_stop_command_def vf
                  demo_iter_state_simps)
qed


lemma iteration_request_current_image_witness:
  "ImagePart (b64_reference (i_pil demo_iter_env) (i_raw demo_iter_env) [fullscreen_path \<mapsto> (1, \<lparr>shot_img = (), shot_size = (512, 512), shot_dot = (0, 0)\<rparr>)] fullscreen_path) \<in>
     set (mcontent (last (gen_window (deref [\<lparr>mrole = ''user'', mcontent = [TextPart ''New task: open notepad'', TextPart ''Fullscreen screenshot:'', ImagePart ''JPEG'', placeholder]\<rparr>] [0])))) \<and>
   img_inv (i_pil demo_iter_env) (i_clock demo_iter_env 0) [fullscreen_path \<mapsto> (1, \<lparr>shot_img = (), shot_size = (512, 512), shot_dot = (0, 0)\<rparr>)] [fullscreen_path \<mapsto> (1, 1, ''JPEG'')] \<and>
   fst (the ([fullscreen_path \<mapsto> (1, \<lparr>shot_img = (), shot_size = (512, 512), shot_dot = (0, 0)\<rparr>)] fullscreen_path)) = i_clock demo_iter_env 0"
  by (rule iteration_request_current_image[OF demo_iter_state_simps(4) _ demo_iter_state_simps(3) demo_sense])
     (simp add: demo_iter_env_simps)

lemma full_loop_inv_witness:
  "\<exists>cs'. full_loop 2 1 False demo_iter_env (\<lambda>k. \<lparr>stop_requested = False, voice_busy = False, voice_batches = [], gate_after_commands = None\<rparr>) 0 \<lparr>it = 0, agent_running = True, listening_gate = False\<rparr> demo_iter_state = Some (Inr LoopEnded, \<lparr>it = 1, agent_running = True, listening_gate = False\<rparr>, cs') \<and>
     hist_wf (i_heap cs') (i_msgs cs') \<and> length (i_msgs cs') \<le> 16 \<and> cache_sound (i_pil demo_iter_env) (i_files cs') (i_b64 cs')"
proof -
  obtain cs' where fl: "full_loop 2 1 False demo_iter_env (\<lambda>k. \<lparr>stop_requested = False, voice_busy = False, voice_batches = [], gate_after_commands = None\<rparr>) 0 \<lparr>it = 0, agent_running = True, listening_gate = False\<rparr> demo_iter_state = Some (Inr LoopEnded, \<lparr>it = 1, agent_running = True, listening_gate = False\<rparr>, cs')"
    using demo_full_loop by blast
  have inv: "iter_inv (i_pil demo_iter_env) 0 demo_iter_state"
    using demo_iter_state_simps(3,4) by (simp add: iter_inv_def demo_iter_state_def task_history_def)
  have t: "(0::rat) < i_clock demo_iter_env 0" by (simp add: demo_iter_env_simps)
  have sm: "strict_mono (i_clock demo_iter_env)" by (simp add: demo_iter_env_def strict_mono_def)
  show ?thesis using fl full_loop_inv[OF fl inv t sm] by blast
qed

end
