(* ===== verification/AgentRun.thy ===== *)
theory AgentRun
  imports MainSupport Iteration Voice
begin

text \<open>
  The whole of \<open>run_desktop_agent\<close> and of the \<open>__main__\<close> block of src/main.py, composed from
  the components: the voice processor's construction (src/services/voice_input.py) and
  start (Voice), the start-up gesture and first screenshot (Input, ImageCache), the loop
  with its real iteration bodies (\<open>full_loop\<close> of Iteration), and the \<open>finally\<close> block with the status overlay. The overlay runs in its own Tk
  thread: \<open>check_running\<close> destroys the window once \<open>agent_running\<close> is false, and whether that
  check ran between the loop's end and the \<open>finally\<close> is a parameter of the run. A Tk call on
  the destroyed window raises. The Russian status strings and the label prefix are
  parameters.
\<close>

subsection \<open>Voice set-up\<close>

text \<open>
  Lines 35-48 of voice_input.py: without the \<open>whisper\<close> module the constructor raises
  \<open>ImportError\<close>; \<open>whisper.load_model\<close> may raise; then the fields of \<open>voice_init\<close> are set.
\<close>

definition voice_processor_new :: "bool \<Rightarrow> exn + unit \<Rightarrow> exn + voice_state" where
  "voice_processor_new whisper_ok load =
     (if \<not> whisper_ok then Inl ImportError
      else case load of Inl e \<Rightarrow> Inl e | Inr _ \<Rightarrow> Inr voice_init)"

text \<open>
  Lines 183-202 of main.py: the processor, started, and the effective \<open>use_voice\<close>. \<open>start()\<close>
  sets \<open>is_running\<close> and starts the processing thread before it opens the audio stream
  (\<open>sd.InputStream\<close>, voice_input.py line 205, the result \<open>stream\<close>); when that raises, the
  processor stays assigned and running while \<open>use_voice\<close> becomes false.
\<close>

definition voice_setup :: "bool \<Rightarrow> bool \<Rightarrow> bool \<Rightarrow> exn + unit \<Rightarrow> exn + unit \<Rightarrow> voice_state option \<times> bool" where
  "voice_setup use_voice available whisper_ok load stream =
     (if use_voice \<and> available then
        (case voice_processor_new whisper_ok load of
           Inl e \<Rightarrow> (None, False)
         | Inr v \<Rightarrow> (case stream of
                      Inl e \<Rightarrow> (Some (voice_start v), False)
                    | Inr _ \<Rightarrow> (Some (voice_start v), use_voice)))
      else (None, False))"

subsection \<open>The status overlay\<close>

record overlay =
  ov_label :: string     \<comment> \<open>the text of \<open>status_label\<close>\<close>
  ov_alive :: bool       \<comment> \<open>\<open>root.destroy()\<close> not yet called\<close>

text \<open>Lines 89-90: \<open>status_label.config\<close>, which raises once the window is destroyed.\<close>

definition update_status :: "string \<Rightarrow> string \<Rightarrow> overlay \<Rightarrow> exn + overlay" where
  "update_status lbl s ov = (if ov_alive ov then Inr (ov\<lparr>ov_label := lbl @ s\<rparr>) else Inl TclError)"

text \<open>
  Lines 46-50: \<open>agent_status\<close> is assigned before the window is touched; \<open>status_window\<close> is
  \<open>None\<close> until the overlay thread has built it.
\<close>

definition update_agent_status ::
  "string \<Rightarrow> string \<Rightarrow> string \<times> overlay option \<Rightarrow> (exn + unit) \<times> string \<times> overlay option" where
  "update_agent_status lbl s ui =
     (case snd ui of
        None \<Rightarrow> (Inr (), s, None)
      | Some ov \<Rightarrow> (case update_status lbl s ov of
                      Inl e \<Rightarrow> (Inl e, s, Some ov)
                    | Inr ov' \<Rightarrow> (Inr (), s, Some ov')))"

text \<open>Lines 92-97: one periodic check of the overlay thread.\<close>

definition check_running :: "bool \<Rightarrow> overlay \<Rightarrow> overlay" where
  "check_running running ov = (if \<not> running then ov\<lparr>ov_alive := False\<rparr> else ov)"

subsection \<open>run_desktop_agent\<close>

text \<open>Lines 204-209: \<open>Win+D\<close>, two seconds, the first screenshot; outside the \<open>try\<close>.\<close>

definition agent_startup ::
  "'d desktop_api \<Rightarrow> exn + ('s \<times> nat \<times> nat) \<Rightarrow> ('s \<Rightarrow> nat \<times> nat \<Rightarrow> exn + 'r) \<Rightarrow> bool \<Rightarrow> timestamp \<Rightarrow>
   'd exec_state \<Rightarrow> 'r shot file_system \<Rightarrow> (exn + unit) \<times> 'd exec_state \<times> 'r shot file_system" where
  "agent_startup api capture resize write_ok now st fs =
     (case press_hotkey api [PStr ''win'', PStr ''d''] st of
        (Inl e, st1) \<Rightarrow> (Inl e, st1, fs)
      | (Inr _, st1) \<Rightarrow>
          (let st2 = sleep 2 st1
           in case save_screenshot capture resize (cursor_pos api (desk st2)) write_ok now fs of
                Inl e \<Rightarrow> (Inl e, st2, fs)
              | Inr fs' \<Rightarrow> (Inr (), st2, fs')))"

record ('c, 'd, 'r) run_state =
  rs_globals :: "'c main_globals"
  rs_voice :: "voice_state option"           \<comment> \<open>\<open>voice_processor\<close>\<close>
  rs_ui :: "string \<times> overlay option"         \<comment> \<open>\<open>agent_status\<close> and \<open>status_window\<close>\<close>
  rs_iter :: "('d, 'r) iter_state"          \<comment> \<open>\<open>messages\<close>, the executor, the files and the caches\<close>

text \<open>Lines 395-402: the \<open>finally\<close> block, cut short if the status update raises.\<close>

definition agent_finally :: "string \<Rightarrow> string \<Rightarrow> ('c, 'd, 'r) run_state \<Rightarrow> (exn + unit) \<times> ('c, 'd, 'r) run_state" where
  "agent_finally lbl done s =
     (case update_agent_status lbl done (rs_ui s) of
        (Inl e, ui) \<Rightarrow> (Inl e, s\<lparr>rs_ui := ui\<rparr>)
      | (Inr _, ui) \<Rightarrow> (Inr (), s\<lparr>rs_ui := ui, rs_globals := agent_cleanup (rs_globals s),
                               rs_voice := map_option voice_stop (rs_voice s)\<rparr>))"

text \<open>What the run depends on besides its arguments.\<close>

record ('d, 's, 'r) run_env =
  r_iter :: "('d, 's, 'r) iter_env"         \<comment> \<open>the collaborators of the loop's body\<close>
  r_voice_available :: bool                 \<comment> \<open>\<open>VOICE_AVAILABLE\<close>\<close>
  r_whisper :: bool                         \<comment> \<open>the \<open>whisper\<close> module was imported\<close>
  r_load :: "exn + unit"                    \<comment> \<open>\<open>whisper.load_model\<close>\<close>
  r_stream :: "exn + unit"                  \<comment> \<open>\<open>sd.InputStream\<close> in \<open>start()\<close>\<close>
  r_capture :: "exn + ('s \<times> nat \<times> nat)"      \<comment> \<open>\<open>pyautogui.screenshot()\<close> at start-up\<close>
  r_now :: timestamp                        \<comment> \<open>the time of the start-up screenshot\<close>
  r_obs :: "nat \<Rightarrow> loop_obs"               \<comment> \<open>the stop signal and voice each pass observes\<close>
  r_tk_checked :: bool                      \<comment> \<open>the overlay's check ran before the \<open>finally\<close>\<close>

text \<open>
  Lines 180-402. \<open>messages\<close> starts as the task message; \<open>None\<close> is a loop that does not return
  on the fuel. On a break by the stop signal (ESC, which also clears \<open>agent_running\<close>) or
  the voice stop command, \<open>agent_running\<close> is false when the loop ends; an exception of the
  loop's body goes through the \<open>finally\<close>, and an exception of the \<open>finally\<close> replaces it.
\<close>

definition run_desktop_agent ::
  "nat \<Rightarrow> nat \<Rightarrow> bool \<Rightarrow> string \<Rightarrow> ('d, 's, 'r) run_env \<Rightarrow> string \<Rightarrow> string \<Rightarrow> ('c, 'd, 'r) run_state \<Rightarrow>
   ((exn + loop_exit) \<times> ('c, 'd, 'r) run_state) option" where
  "run_desktop_agent fuel mx use_voice task env lbl done s =
     (let ie = r_iter env;
          (vp, uv) = voice_setup use_voice (r_voice_available env) (r_whisper env) (r_load env) (r_stream env);
          cs0 = (rs_iter s)\<lparr>i_heap := task_history task, i_msgs := [0]\<rparr>;
          s0 = s\<lparr>rs_voice := vp\<rparr>
      in case agent_startup (i_api ie) (r_capture env) (i_resize ie) (i_write_ok ie) (r_now env) (i_exec cs0) (i_files cs0) of
           (Inl e, st1, fs1) \<Rightarrow> Some (Inl e, s0\<lparr>rs_iter := cs0\<lparr>i_exec := st1, i_files := fs1\<rparr>\<rparr>)
         | (Inr _, st1, fs1) \<Rightarrow>
             (case full_loop fuel mx uv ie (r_obs env) 0
                     \<lparr>it = 0, agent_running = g_running (rs_globals s0), listening_gate = listening st1\<rparr>
                     (cs0\<lparr>i_exec := st1, i_files := fs1\<rparr>) of
                None \<Rightarrow> None
              | Some (r, ls, cs1) \<Rightarrow>
                  (let running = (r = Inr LoopEnded \<or> isl r) \<and> loop_state.agent_running ls;
                       ui = (if r_tk_checked env then map_prod id (map_option (check_running running)) (rs_ui s0)
                             else rs_ui s0);
                       s1 = s0\<lparr>rs_globals := (rs_globals s0)\<lparr>g_running := running\<rparr>, rs_ui := ui,
                               rs_iter := cs1\<lparr>i_exec := (i_exec cs1)\<lparr>listening := listening_gate ls\<rparr>\<rparr>\<rparr>
                   in case agent_finally lbl done s1 of
                        (Inl e, s2) \<Rightarrow> Some (Inl e, s2)
                      | (Inr _, s2) \<Rightarrow> Some (r, s2))))"

subsection \<open>The command line\<close>

record cli_args =
  a_task :: string
  a_no_voice :: bool
  a_voice_model :: string
  a_voice_language :: string
  a_max_iterations :: int

text \<open>Lines 408-416: the parser's defaults.\<close>

definition cli_defaults :: cli_args where
  "cli_defaults = \<lparr>a_task = ''Open Chrome and navigate to youtube.com'', a_no_voice = False,
                   a_voice_model = ''tiny'', a_voice_language = ''ru'', a_max_iterations = 15\<rparr>"

text \<open>
  Lines 425-446: the start status (outside any \<open>try\<close>), the run, whose exception is printed,
  and \<open>agent_running = False\<close>. A negative \<open>--max-iterations\<close> runs no pass, as \<open>nat\<close> does.
\<close>

definition main_entry ::
  "nat \<Rightarrow> cli_args \<Rightarrow> ('d, 's, 'r) run_env \<Rightarrow> string \<Rightarrow> string \<Rightarrow> string \<Rightarrow> ('c, 'd, 'r) run_state \<Rightarrow>
   (exn + (exn + loop_exit) \<times> ('c, 'd, 'r) run_state) option" where
  "main_entry fuel args env lbl start done s =
     (case update_agent_status lbl start (rs_ui s) of
        (Inl e, ui) \<Rightarrow> Some (Inl e)
      | (Inr _, ui) \<Rightarrow>
          (case run_desktop_agent fuel (nat (a_max_iterations args)) (\<not> a_no_voice args) (a_task args) env lbl done
                  (s\<lparr>rs_ui := ui\<rparr>) of
             None \<Rightarrow> None
           | Some (r, s') \<Rightarrow> Some (Inr (r, s'\<lparr>rs_globals := (rs_globals s')\<lparr>g_running := False\<rparr>\<rparr>))))"

subsection \<open>A concrete run\<close>

text \<open>
  The concrete iteration of Iteration, voice available, and a stop signal at the first pass;
  the overlay is up.
\<close>

definition demo_env :: "bool \<Rightarrow> (unit, unit, unit) run_env" where
  "demo_env checked =
     \<lparr>r_iter = demo_iter_env, r_voice_available = True, r_whisper = True, r_load = Inr (), r_stream = Inr (),
      r_capture = Inr ((), 512, 512), r_now = 1,
      r_obs = (\<lambda>k. \<lparr>stop_requested = True, voice_busy = False, voice_batches = [], gate_after_commands = None\<rparr>),
      r_tk_checked = checked\<rparr>"

definition demo_state :: "(nat, unit, unit) run_state" where
  "demo_state =
     \<lparr>rs_globals = \<lparr>g_running = True, g_stop = False, g_queue = [Some 7]\<rparr>, rs_voice = None,
      rs_ui = (''start'', Some \<lparr>ov_label = [], ov_alive = True\<rparr>), rs_iter = demo_iter_state\<rparr>"

subsection \<open>Properties\<close>

lemma voice_stop_idle [simp]: "\<not> is_running (voice_stop v)"
  by (simp add: voice_stop_def)

text \<open>Voice input is on exactly when it is asked for, importable and its model loads.\<close>

lemma voice_setup_cases:
  "voice_setup u a w l st =
     (if u \<and> a \<and> w \<and> l = Inr () then (Some (voice_init\<lparr>is_running := True\<rparr>), st = Inr ()) else (None, False))"
  by (auto simp: voice_setup_def voice_processor_new_def voice_start_def voice_init_def split: sum.split)

abbreviation run_start :: "string \<Rightarrow> ('c, 'd, 'r) run_state \<Rightarrow> 'd exec_state \<Rightarrow> 'r shot file_system \<Rightarrow> ('d, 'r) iter_state" where
  "run_start task s st1 fs1 \<equiv> (rs_iter s)\<lparr>i_heap := task_history task, i_msgs := [0], i_exec := st1, i_files := fs1\<rparr>"

lemma finally_result_Some: "\<exists>y. (case p of (Inl e, s2) \<Rightarrow> Some (Inl e, s2) | (Inr u, s2) \<Rightarrow> Some (r, s2)) = Some y"
  by (auto split: prod.split sum.split)

lemma run_desktop_agent_novoice_returns:
  assumes "\<not> snd (voice_setup use_voice (r_voice_available env) (r_whisper env) (r_load env) (r_stream env))" "mx < fuel"
  shows "\<exists>y. run_desktop_agent fuel mx use_voice task env lbl done s = Some y"
proof -
  obtain vp where v: "voice_setup use_voice (r_voice_available env) (r_whisper env) (r_load env) (r_stream env) = (vp, False)"
    using assms(1) by (cases "voice_setup use_voice (r_voice_available env) (r_whisper env) (r_load env) (r_stream env)") auto
  let ?ie = "r_iter env"
  obtain res st1 fs1 where su: "agent_startup (i_api ?ie) (r_capture env) (i_resize ?ie) (i_write_ok ?ie) (r_now env)
      (i_exec (rs_iter s)) (i_files (rs_iter s)) = (res, st1, fs1)"
    by (metis prod_cases3)
  show ?thesis
  proof (cases res)
    case (Inl e)
    then show ?thesis using v su by (simp add: run_desktop_agent_def)
  next
    case (Inr u)
    obtain r ls cs1 where fl: "full_loop fuel mx False ?ie (r_obs env) 0
        \<lparr>it = 0, agent_running = g_running (rs_globals s), listening_gate = listening st1\<rparr> (run_start task s st1 fs1) =
        Some (r, ls, cs1)"
      using full_loop_novoice[of mx] assms(2) by (metis diff_zero loop_state.select_convs(1) prod_cases3)
    show ?thesis unfolding run_desktop_agent_def
      by (simp add: Let_def v su Inr fl finally_result_Some del: split_paired_Ex)
  qed
qed

text \<open>
  The start-up is outside the \<open>try\<close>: when \<open>Win+D\<close> raises, the run raises at once, with the
  voice processor started and never stopped and no sentinel queued.
\<close>

lemma run_startup_error:
  assumes "prim (i_api (r_iter env)) (Hotkey [PStr ''win'', PStr ''d'']) (desk (i_exec (rs_iter s))) = Inl e"
  shows "\<exists>s'. run_desktop_agent fuel mx use_voice task env lbl done s = Some (Inl e, s') \<and> rs_globals s' = rs_globals s \<and>
           rs_voice s' = fst (voice_setup use_voice (r_voice_available env) (r_whisper env) (r_load env) (r_stream env))"
  using assms
  by (simp add: run_desktop_agent_def agent_startup_def press_hotkey_def ex_bind_def invoke_def Let_def
           split: prod.split)

text \<open>
  C33. The \<open>finally\<close> of \<open>run_desktop_agent\<close> is cut short by the status overlay: when the loop
  ends by ESC or the voice stop command, \<open>agent_running\<close> is false, so the overlay's periodic
  check destroys its window; the \<open>finally\<close> first updates the status on that window, which
  raises, so the voice processor is not stopped and no sentinel is queued for the command
  thread. The run raises to \<open>__main__\<close>.
\<close>

theorem run_finally_skipped:
  assumes "voice_setup use_voice (r_voice_available env) (r_whisper env) (r_load env) (r_stream env) = (vp, uv)"
    "agent_startup (i_api (r_iter env)) (r_capture env) (i_resize (r_iter env)) (i_write_ok (r_iter env)) (r_now env)
       (i_exec (rs_iter s)) (i_files (rs_iter s)) = (Inr (), st1, fs1)"
    "full_loop fuel mx uv (r_iter env) (r_obs env) 0
       \<lparr>it = 0, agent_running = g_running (rs_globals s), listening_gate = listening st1\<rparr> (run_start task s st1 fs1) =
       Some (Inr r, ls, cs1)"
    "r \<noteq> LoopEnded" "snd (rs_ui s) = Some ov" "r_tk_checked env"
  shows "\<exists>s'. run_desktop_agent fuel mx use_voice task env lbl done s = Some (Inl TclError, s') \<and>
           rs_globals s' = (rs_globals s)\<lparr>g_running := False\<rparr> \<and> rs_voice s' = vp \<and>
           pred_option is_running (rs_voice s')"
proof -
  have "pred_option is_running vp" using assms(1) by (auto simp: voice_setup_cases split: if_splits)
  then show ?thesis using assms(2-6)
    by (simp add: assms(1) run_desktop_agent_def agent_finally_def update_agent_status_def update_status_def
                  check_running_def)
qed

text \<open>
  C23. Otherwise the shutdown completes, also when the loop's body raised: with the overlay
  alive (or not yet built) and its check not having seen \<open>agent_running\<close> false, the run
  returns the loop's exit or re-raises the body's exception, clears \<open>agent_running\<close>, queues
  the sentinel after the pending commands, stops the voice processor (also one whose audio
  stream failed to open) and leaves the module's \<open>listening\<close> at the loop's gate.
\<close>

theorem run_desktop_agent_cleanup:
  assumes "voice_setup use_voice (r_voice_available env) (r_whisper env) (r_load env) (r_stream env) = (vp, uv)"
    "agent_startup (i_api (r_iter env)) (r_capture env) (i_resize (r_iter env)) (i_write_ok (r_iter env)) (r_now env)
       (i_exec (rs_iter s)) (i_files (rs_iter s)) = (Inr (), st1, fs1)"
    "full_loop fuel mx uv (r_iter env) (r_obs env) 0
       \<lparr>it = 0, agent_running = g_running (rs_globals s), listening_gate = listening st1\<rparr> (run_start task s st1 fs1) =
       Some (r, ls, cs1)"
    "pred_option ov_alive (snd (rs_ui s))"
    "r_tk_checked env \<Longrightarrow> (r = Inr LoopEnded \<or> isl r) \<and> loop_state.agent_running ls"
  shows "\<exists>s'. run_desktop_agent fuel mx use_voice task env lbl done s = Some (r, s') \<and>
           \<not> g_running (rs_globals s') \<and> g_queue (rs_globals s') = g_queue (rs_globals s) @ [None] \<and>
           rs_voice s' = map_option voice_stop vp \<and> pred_option (\<lambda>v. \<not> is_running v) (rs_voice s') \<and>
           listening (i_exec (rs_iter s')) = listening_gate ls"
  using assms
  by (cases "snd (rs_ui s)"; cases "r_tk_checked env")
     (auto simp: run_desktop_agent_def agent_finally_def update_agent_status_def update_status_def
                 check_running_def agent_cleanup_def option.pred_set)

text \<open>
  C12. Run with \<open>--no-voice\<close>, \<open>__main__\<close> returns after at most \<open>max_iterations + 1\<close> passes
  of the loop, and when the run was started \<open>agent_running\<close> is false at the end, whether the
  run returned or raised.
\<close>

theorem main_entry_returns:
  assumes "a_no_voice args" "nat (a_max_iterations args) < fuel"
  shows "\<exists>y. main_entry fuel args env lbl start done s = Some y \<and>
           (case y of Inl e \<Rightarrow> True | Inr (r, s') \<Rightarrow> \<not> g_running (rs_globals s'))"
proof (cases "update_agent_status lbl start (rs_ui s)")
  case (fields res a ui)
  have "\<not> snd (voice_setup (\<not> a_no_voice args) (r_voice_available env) (r_whisper env) (r_load env) (r_stream env))"
    using assms(1) by (simp add: voice_setup_cases)
  then obtain y where "run_desktop_agent fuel (nat (a_max_iterations args)) (\<not> a_no_voice args) (a_task args) env lbl done
      (s\<lparr>rs_ui := (a, ui)\<rparr>) = Some y"
    using run_desktop_agent_novoice_returns assms(2) by blast
  then show ?thesis using fields by (cases res) (auto simp: main_entry_def split: prod.split)
qed

subsection \<open>Witnesses\<close>

lemma demo_setup: "voice_setup True (r_voice_available (demo_env c)) (r_whisper (demo_env c)) (r_load (demo_env c))
    (r_stream (demo_env c)) = (Some (voice_init\<lparr>is_running := True\<rparr>), True)"
  by (simp add: demo_env_def voice_setup_cases)

lemma demo_startup:
  "agent_startup (i_api (r_iter (demo_env c))) (r_capture (demo_env c)) (i_resize (r_iter (demo_env c)))
     (i_write_ok (r_iter (demo_env c))) (r_now (demo_env c)) (i_exec (rs_iter demo_state)) (i_files (rs_iter demo_state)) =
   (Inr (), \<lparr>listening = False, desk = (), log = [Hotkey [PStr ''win'', PStr ''d''], Sleep 2]\<rparr>, [fullscreen_path \<mapsto> (1, \<lparr>shot_img = (), shot_size = (512, 512), shot_dot = (0, 0)\<rparr>)])"
  by (simp add: demo_env_def demo_state_def demo_iter_env_def demo_iter_state_def agent_startup_def press_hotkey_def
                ex_bind_def ex_return_def invoke_def sleep_def save_screenshot_def py_int_def)

lemma demo_loop:
  "full_loop 1 15 True (r_iter (demo_env c)) (r_obs (demo_env c)) 0
     \<lparr>it = 0, agent_running = g_running (rs_globals demo_state), listening_gate = listening (\<lparr>listening = False, desk = (), log = [Hotkey [PStr ''win'', PStr ''d''], Sleep 2]\<rparr> :: unit exec_state)\<rparr>
     (run_start ''open notepad'' demo_state \<lparr>listening = False, desk = (), log = [Hotkey [PStr ''win'', PStr ''d''], Sleep 2]\<rparr> [fullscreen_path \<mapsto> (1, \<lparr>shot_img = (), shot_size = (512, 512), shot_dot = (0, 0)\<rparr>)]) =
   Some (Inr StopSignal, \<lparr>it = 0, agent_running = True, listening_gate = False\<rparr>, run_start ''open notepad'' demo_state \<lparr>listening = False, desk = (), log = [Hotkey [PStr ''win'', PStr ''d''], Sleep 2]\<rparr> [fullscreen_path \<mapsto> (1, \<lparr>shot_img = (), shot_size = (512, 512), shot_dot = (0, 0)\<rparr>)])"
  by (simp add: demo_env_def demo_state_def loop_pass_def)

lemma run_finally_skipped_witness:
  "\<exists>s'. run_desktop_agent 1 15 True ''open notepad'' (demo_env True) ''Status: '' ''done'' demo_state = Some (Inl TclError, s') \<and>
     rs_globals s' = (rs_globals demo_state)\<lparr>g_running := False\<rparr> \<and> rs_voice s' = Some (voice_init\<lparr>is_running := True\<rparr>) \<and>
     pred_option is_running (rs_voice s')"
  by (rule run_finally_skipped[OF demo_setup demo_startup demo_loop]) (simp_all add: demo_env_def demo_state_def)

lemma run_desktop_agent_cleanup_witness:
  "\<exists>s'. run_desktop_agent 1 15 True ''open notepad'' (demo_env False) ''Status: '' ''done'' demo_state = Some (Inr StopSignal, s') \<and>
     \<not> g_running (rs_globals s') \<and> g_queue (rs_globals s') = g_queue (rs_globals demo_state) @ [None] \<and>
     rs_voice s' = map_option voice_stop (Some (voice_init\<lparr>is_running := True\<rparr>)) \<and>
     pred_option (\<lambda>v. \<not> is_running v) (rs_voice s') \<and> listening (i_exec (rs_iter s')) = False"
  using run_desktop_agent_cleanup[OF demo_setup demo_startup demo_loop] by (simp add: demo_env_def demo_state_def)

lemma main_entry_returns_witness:
  "a_no_voice (cli_defaults\<lparr>a_no_voice := True\<rparr>) \<and>
   (\<exists>y. main_entry 16 (cli_defaults\<lparr>a_no_voice := True\<rparr>) (demo_env True) ''Status: '' ''start'' ''done'' demo_state = Some y \<and>
      (case y of Inl e \<Rightarrow> True | Inr (r, s') \<Rightarrow> \<not> g_running (rs_globals s')))"
  using main_entry_returns[of "cli_defaults\<lparr>a_no_voice := True\<rparr>" 16] by (simp add: cli_defaults_def)

end
