(* ===== verification/Thresholds.thy ===== *)
theory Thresholds
  imports Main
begin

text \<open>
  The element-size thresholds, defined twice: in src/services/cache_module.py, whose values
  src/services/cursor.py re-exports, and in src/services/ui_detection_module.py, whose
  comment says they are there for compatibility with the existing code. No module of the
  repository reads either set; the lemma records where they disagree.
\<close>

record size_thresholds =
  button_min :: "nat \<times> nat"
  button_max :: "nat \<times> nat"
  textbox_min :: "nat \<times> nat"
  textbox_max :: "nat \<times> nat"
  icon_size_range :: "nat \<times> nat"
  menu_min :: "nat \<times> nat"

text \<open>cache_module.py lines 18-23.\<close>

definition cache_module_thresholds :: size_thresholds where
  "cache_module_thresholds =
     \<lparr>button_min = (30, 15), button_max = (300, 100), textbox_min = (100, 20), textbox_max = (800, 50),
      icon_size_range = (16, 64), menu_min = (100, 200)\<rparr>"

text \<open>ui_detection_module.py lines 5-10.\<close>

definition ui_detection_thresholds :: size_thresholds where
  "ui_detection_thresholds =
     \<lparr>button_min = (50, 20), button_max = (300, 100), textbox_min = (100, 20), textbox_max = (500, 200),
      icon_size_range = (16, 64), menu_min = (100, 150)\<rparr>"

text \<open>cursor.py lines 2-11: the names it imports from cache_module.py.\<close>

definition cursor_thresholds :: size_thresholds where
  "cursor_thresholds = cache_module_thresholds"

subsection \<open>Properties\<close>

text \<open>
  The two sets agree on the maximal button size, the minimal text box and the icon range,
  and differ on the minimal button, the maximal text box and the minimal menu: a text box
  of 600 by 40 is within cursor.py's bounds and outside ui_detection_module.py's.
\<close>

lemma thresholds_disagree:
  "button_max cursor_thresholds = button_max ui_detection_thresholds \<and>
   textbox_min cursor_thresholds = textbox_min ui_detection_thresholds \<and>
   icon_size_range cursor_thresholds = icon_size_range ui_detection_thresholds \<and>
   button_min cursor_thresholds \<noteq> button_min ui_detection_thresholds \<and>
   textbox_max cursor_thresholds \<noteq> textbox_max ui_detection_thresholds \<and>
   menu_min cursor_thresholds \<noteq> menu_min ui_detection_thresholds \<and>
   (600::nat) \<le> fst (textbox_max cursor_thresholds) \<and> \<not> (600::nat) \<le> fst (textbox_max ui_detection_thresholds)"
  by (simp add: cursor_thresholds_def cache_module_thresholds_def ui_detection_thresholds_def)

end
