(* ===== verification/Spec2Isabelle.thy ===== *)
theory Spec2Isabelle
  imports JsonExtract Executor FindUI Voice AgentLoop LLMClient ImageCache UILocate MainSupport AgentRun Iteration Thresholds
begin

text \<open>
  \<^bold>\<open>A verification development of the desktop agent\<close> (src/main.py and src/services/).

  \<^bold>\<open>The program.\<close> \<open>run_desktop_agent\<close> (src/main.py) loops: it polls the voice pipeline for
  transcriptions and interprets stop, pause and resume phrases; it captures the screen
  through the screen-state cache; it sends the conversation with the screenshot to the
  language model; it extracts JSON commands from the reply (\<open>extract_json\<close>); it runs them in
  batches (\<open>process_commands\<close>); and it appends the results to the history, which it
  truncates. Four threads share state with it. The cursor/screen poller and the voice
  callback, transcription workers and processing thread write the cache and the voice
  processor's attributes. The pause gate \<open>listening\<close> of execute_funcs.py is written by
  the loop and by the executor.

  \<^bold>\<open>Theories and what they model.\<close>
  \<^item> Prelude: named collections and generic lemmas on lists, options and strings.
  \<^item> Python: the Python values \<open>json.loads\<close> produces (\<open>pyval\<close>), the exceptions the code
    catches (\<open>exn\<close>), subscription, \<open>str.replace\<close> and \<open>str.strip\<close>.
  \<^item> Input: cursor_module.py and keyboard_module.py over an abstract desktop
    \<open>'d desktop_api\<close>, in a state-and-exception monad (\<open>ex\<close>).
  \<^item> JsonExtract: \<open>extract_json\<close> of execute_funcs.py. The scanner's variables are
    \<open>scan_state\<close>, one iteration is \<open>scan_char\<close>, and \<open>json.loads\<close> is a parameter.
  \<^item> Executor: \<open>execute_batch_commands\<close> (\<open>exec_batch\<close>, \<open>dispatch\<close>) and
    \<open>process_commands\<close> (\<open>proc_loop\<close>), with the gate as state.
  \<^item> Grid: the row/column loop and the cell list of \<open>save_screenshot_with_grid\<close>
    (screenshot_module.py), \<open>get_cell_center_coordinates\<close> and the cursor-cell search.
  \<^item> ScreenCache: \<open>_screenshot_cache\<close> of cache_module.py, with \<open>capture_cursor_area\<close>,
    \<open>save_screenshot_with_grid\<close>, \<open>save_screenshots\<close> and \<open>move_cursor_to_cell\<close> as
    operations on it. A sequence of calls is a trace (\<open>run_sensing\<close>).
  \<^item> FindUI: find_ui.py. The regular expressions are string functions, the replies of
    the model are arguments, and the cell lookup is composed with a grid capture.
  \<^item> Voice: \<open>VoiceInputProcessor\<close> of voice_input.py. Its attributes are a record, the
    executor's futures a task pool, and each thread's step an event of \<open>voice_step\<close>.
    \<open>voice_reach\<close> is the set of states any interleaving reaches.
  \<^item> AgentLoop: src/main.py, covering \<open>process_voice_input\<close>, the messages of a turn with
    the history's dicts in a store (\<open>heap\<close>), the results turn with the truncation, and the
    loop's control flow (\<open>loop_pass\<close>, \<open>agent_loop\<close>). A break carries the state it leaves,
    since the voice stop by the text \<open>STOP_COMMAND\<close> clears the gate before it.
  \<^item> LLMClient: \<open>generate\<close> of openrouter_api.py: the prompt cache, the replacements,
    the window of ten messages, and the error text for a failed call.
  \<^item> ImageCache: \<open>save_screenshot\<close> of screenshot_utils.py and \<open>convert_to_base64\<close> of
    image_utils.py over a file system map. The base64 cache is keyed by mtime and
    \<open>_cache_ttl\<close>, and a run of saves and conversions is a trace (\<open>run_images\<close>).
  \<^item> UILocate: the two requests of find_ui.py to the model (\<open>llm_choose_best_grid_cell\<close>,
    \<open>fallback_llm_coordinate_detection\<close>) through \<open>generate\<close>, composed into
    \<open>get_ui_element_coordinates\<close> and \<open>move_mouse_to_ui_element\<close>.
  \<^item> MainSupport: the ESC handler, the shutdown, the command-processor thread, and
    \<open>transform_ui_elements\<close> and \<open>get_ui_visual_summary\<close> of main.py.
  \<^item> AgentRun: the whole of \<open>run_desktop_agent\<close> and the \<open>__main__\<close> block. It composes
    the voice processor's construction and start (\<open>voice_setup\<close>, including an audio stream
    that fails to open), the start-up gesture and screenshot (Input, ImageCache), the loop with
    its real bodies (\<open>full_loop\<close> of Iteration, whose state \<open>rs_iter\<close> carries the history, the
    executor, the files and the caches), and the \<open>finally\<close> block with the Tk status overlay.
    The overlay is its label and whether its window is alive. Its periodic
    \<open>check_running\<close> runs in its own thread, so whether it ran before the \<open>finally\<close> is a
    parameter of the run (\<open>run_env\<close>).
  \<^item> Iteration: one pass of the loop of \<open>run_desktop_agent\<close> with its body (src/main.py
    lines 272-394). \<open>iteration_sense\<close> chains \<open>save_screenshot\<close>, \<open>convert_to_base64\<close> and the
    turn's messages. \<open>iteration_body\<close> adds \<open>generate\<close> and the command phase
    (\<open>command_phase\<close>: extractor, executor, results turn). \<open>full_loop\<close> runs the loop with these
    bodies, the state being an \<open>iter_state\<close> (history, executor, files, the two caches).
  \<^item> Thresholds: the element-size constants of cache_module.py and ui_detection_module.py,
    and the set cursor.py re-exports.
  \<^item> This theory: the command phase followed by the next pass of the loop.

  \<^bold>\<open>What the lemmas show.\<close>
  \<^item> JsonExtract: which objects are extracted and what text remains, for interleaved
    prose and objects, a stray closing brace and an unterminated object.
  \<^item> Executor: result order, the batch ending at an unknown or failing command, and the
    gate under \<open>listen\<close> and a failing \<open>wait\<close>. A \<open>wait\<close> flushes the batch, and a command
    equal to the last one flushes early.
  \<^item> Grid: the loop's termination with at least 500 cells, numbering, lookup, cursor
    search, disjointness, coverage, and agreement with the code's float arithmetic.
  \<^item> ScreenCache: cursor-region bounds, the provenance of cached cursor images, staleness
    after a grid capture, capture failure, and the grid summary.
  \<^item> FindUI: round trips of cell numbers and coordinates through the parsers, and how a
    reply resolves to a point.
  \<^item> Voice: the futures invariant by rule induction over \<open>voice_reach\<close>, recordings
    ending, buffer growth, a lost transcription, and the processing indicator.
  \<^item> AgentLoop: the screenshot persisted by aliasing, and the refinement of the store model
    by the value model (\<open>turn_values\<close>). It also proves the truncation window, the bound of
    16 messages over any run, voice commands, non-termination while recognition is busy,
    and termination without voice.
  \<^item> LLMClient: the window of what is sent, a prompt cache that is never invalidated,
    and a failed call that ends in an iteration without commands.
  \<^item> ImageCache: the cursor dot lies inside the resized screenshot. A sound cache makes
    \<open>convert_to_base64\<close> equal to its uncached reference. Over any run with increasing save
    times every conversion encodes the current file. Two saves within one mtime tick make
    the cache serve the older screenshot.
  \<^item> UILocate: with answering calls the composition is FindUI's function of the replies;
    when the API fails the mouse is not moved.
  \<^item> MainSupport: the index layout \<open>transform_ui_elements\<close> produces (and its duplicates),
    ESC ending the loop, and the shutdown ending the command thread.
  \<^item> AgentRun: the shutdown completes when the overlay allows it, also after an
    exception of the loop's body, which it re-raises. After ESC or a voice stop, the destroyed
    overlay makes the \<open>finally\<close> raise before the voice processor is stopped. With \<open>--no-voice\<close> the program returns within
    \<open>max_iterations + 1\<close> passes.
  \<^item> Iteration: the invariant of the running agent (\<open>iter_inv\<close>: a well-formed history of at
    most 16 messages and an image cache sound for the screenshot files) holds after any run
    of \<open>full_loop\<close>, returned or raised, by computation induction over the loop with the real
    screenshot, conversion, model call and command phase of each pass. \<open>full_loop\<close> also
    refines \<open>agent_loop\<close>: every normal return of the composed loop is a return of the
    abstract loop on the same voice observations, with the gates the real command phases
    left. Without voice it returns within \<open>max_iterations - i + 1\<close> passes. From a sound
    image cache, the request of a later pass carries the screenshot it just wrote.
  \<^item> This theory: a reply whose command is \<open>listen\<close> leaves the gate set and pauses the
    next pass.

  \<^bold>\<open>Bounds and fuel.\<close> \<open>grow_grid\<close> terminates by the measure \<open>500 - rows * cols\<close>. The loop
  of \<open>run_desktop_agent\<close> runs on fuel, and \<open>None\<close> means it has not ended. Without voice,
  \<open>max_iterations - i + 1\<close> passes suffice because each pass counts an iteration. With
  voice, no fuel suffices while recognition stays busy, which is the theorem. The voice
  pipeline's threads are unbounded event sequences, so no fuel is needed there.
  \<open>full_loop\<close> takes the same fuel as \<open>agent_loop\<close>, one unit per pass.

  \<^bold>\<open>Not modelled.\<close>
  \<^item> The OpenAI client inside \<open>generate\<close>: a collaborator answering a message list. The
    command phase takes the reply as an argument.
  \<^item> PIL, numpy and the JPEG and base64 encoders: collaborators of ImageCache that turn an
    image into bytes.
  \<^item> cursor.py: it only re-exports names of cursor_module.py, keyboard_module.py and
    cache_module.py. Only the thresholds it takes from cache_module.py are modelled
    (Thresholds).
  \<^item> The position thread \<open>update_position_info\<close>, \<open>update_screenshots\<close> and
    \<open>get_current_screenshot\<close> of find_ui.py: they write globals nothing reads, or nothing
    calls them.
  \<^item> The Tk layout of the status overlay, the key listener thread and argparse's parsing:
    pure I/O. The overlay's label and liveness and the parser's defaults are modelled.
  \<^item> Whisper, sounddevice and pyautogui: collaborators that appear as arguments or as
    the abstract desktop.
  \<^item> Timing (\<open>time.sleep\<close>, the 0.5 s polling window): delays recorded in the state, with
    the polled transcriptions given as batches.
  \<^item> Prints, and the status updates inside the loop's body (the loop sees the components
    through one observation per pass).
\<close>


section \<open>The command phase and the pause gate\<close>

text \<open>
  C28. Across the extractor, the executor and the loop: when the model's reply is prose with
  the single command \<open>{"command":"listen"}\<close>, the command phase leaves the pause gate set and
  records the results as an assistant turn, and the next pass with no voice input is skipped
  without counting an iteration, so the agent waits for the user.
\<close>

lemma listen_reply_pauses:
  assumes \<open>loads ''{"command":"listen"}'' = Some c\<close> "py_getitem c ''command'' = Inr (PStr ''listen'')"
    "hist_wf h ms" "mrole (h ! last ms) = ''user''"
    \<open>command_phase api loads hdr sv sm ''Waiting. {"command":"listen"}'' (h, ms, est) = (h', ms', est')\<close>
    "\<not> stop_requested ob" "\<not> voice_busy ob" "poll_voice (voice_batches ob) = VoiceNone"
  shows "listening est' \<and> mrole (h' ! last ms') = ''assistant'' \<and>
         loop_pass True ob (st\<lparr>listening_gate := listening est'\<rparr>) = Inr (st\<lparr>listening_gate := True\<rparr>)"
proof -
  have "process_commands api [c] est = (fst (process_commands api [c] est), est\<lparr>listening := True\<rparr>)"
    using process_commands_listen_only[OF assms(2), of api est] by (cases est) auto
  then obtain rs where pc: "process_commands api [c] est = (rs, est\<lparr>listening := True\<rparr>)" by blast
  have ne: "ms \<noteq> []" and bd: "\<forall>a \<in> set ms. a < length h" using assms(3) by (auto simp: hist_wf_def)
  have "est' = est\<lparr>listening := True\<rparr>" "h' ! last ms' = \<lparr>mrole = ''assistant'', mcontent = [TextPart (results_text hdr sv sm rs)]\<rparr>"
    using assms(5) extract_listen[of loads c, OF assms(1)] pc record_results_user[OF assms(3,4)] ne bd
    by (auto simp: command_phase_def window_last nth_append)
  then show ?thesis
    using assms(6-8) by (simp add: loop_pass_def gate_after_voice_def has_feedback_def is_stop_command_def)
qed

lemma listen_reply_pauses_witness:
  \<open>listening (snd (snd (command_phase toy_api (\<lambda>s. Some (mk_cmd ''listen'' [])) ''R'' (\<lambda>v. ''c'') (\<lambda>m. ''m'')
       ''Waiting. {"command":"listen"}'' (task_history ''t'', [0], toy_state)))) \<and>
   mrole (fst (command_phase toy_api (\<lambda>s. Some (mk_cmd ''listen'' [])) ''R'' (\<lambda>v. ''c'') (\<lambda>m. ''m'')
       ''Waiting. {"command":"listen"}'' (task_history ''t'', [0], toy_state)) !
     last (fst (snd (command_phase toy_api (\<lambda>s. Some (mk_cmd ''listen'' [])) ''R'' (\<lambda>v. ''c'') (\<lambda>m. ''m'')
       ''Waiting. {"command":"listen"}'' (task_history ''t'', [0], toy_state))))) = ''assistant''\<close>
proof -
  let ?cp = \<open>command_phase toy_api (\<lambda>s. Some (mk_cmd ''listen'' [])) ''R'' (\<lambda>v. ''c'') (\<lambda>m. ''m'')
       ''Waiting. {"command":"listen"}'' (task_history ''t'', [0], toy_state)\<close>
  have e: "?cp = (fst ?cp, fst (snd ?cp), snd (snd ?cp))" by simp
  have ob: "\<not> stop_requested \<lparr>stop_requested = False, voice_busy = False, voice_batches = [], gate_after_commands = None\<rparr> \<and>
            \<not> voice_busy \<lparr>stop_requested = False, voice_busy = False, voice_batches = [], gate_after_commands = None\<rparr> \<and>
            poll_voice (voice_batches \<lparr>stop_requested = False, voice_busy = False, voice_batches = [], gate_after_commands = None\<rparr>) = VoiceNone"
    by simp
  show ?thesis
    using listen_reply_pauses[of "\<lambda>s. Some (mk_cmd ''listen'' [])" "mk_cmd ''listen'' []" "task_history ''t''" "[0]"
        toy_api "''R''" "\<lambda>v. ''c''" "\<lambda>m. ''m''" toy_state "fst ?cp" "fst (snd ?cp)" "snd (snd ?cp)"
        "\<lparr>stop_requested = False, voice_busy = False, voice_batches = [], gate_after_commands = None\<rparr>"
        "\<lparr>it = 0, agent_running = True, listening_gate = False\<rparr>"]
      task_history_wf e ob by simp
qed

end
